(* ===== verification/Prelude.thy ===== *)
theory Prelude
  imports Main "HOL-Library.Word"
begin

text \<open>
  What every other theory of the development shares: the collections of proof hints,
  Python exceptions as values, and the sum and state combinators that propagate them.

  A Python call that may raise is a function into \<open>exc + 'a\<close>: \<open>Inl\<close> holds the exception,
  \<open>Inr\<close> the returned value. An exception is its class together with the text that
  \<^verbatim>\<open>str(exc)\<close> gives; \<open>ancestors\<close> is the class hierarchy (the built-in classes the program
  uses and the ones it defines), so an \<^verbatim>\<open>except C\<close> clause is \<open>catch C\<close>.
\<close>

section \<open>Proof hints\<close>

named_theorems py_defs \<open>definitions of the string and byte library, for evaluation\<close>
named_theorems io_defs \<open>definitions of the effectful combinators\<close>
named_theorems step_defs \<open>definitions of the step executors\<close>

section \<open>Exceptions\<close>

datatype exc_class =
    ValueError | TypeError | KeyError | IndexError | RuntimeError | NameError | UnboundLocalError
  | OSError | FileNotFoundError | ConnectionError | TimeoutError
  | UnicodeDecodeError | UnicodeEncodeError | JSONDecodeError | BinasciiError
  | TOMLDecodeError | TimeoutExpired | ImportError | AttributeError
  | VMProfileError | VMLaunchError
  | GuestCommandError | GuestVsockError
  | ReportError | ReportMalformed | ReportUnsupportedVersion | ReportUnsupportedCpu
  | IdBlockMetadataError
  | MeasurementError | MeasurementMissing | MeasurementMalformed

datatype exc = Exc (class_of: exc_class) (msg_of: string)

fun ancestors :: "exc_class \<Rightarrow> exc_class list" where
  "ancestors FileNotFoundError = [FileNotFoundError, OSError]"
| "ancestors ConnectionError = [ConnectionError, OSError]"
| "ancestors TimeoutError = [TimeoutError, OSError]"
| "ancestors UnicodeDecodeError = [UnicodeDecodeError, ValueError]"
| "ancestors UnicodeEncodeError = [UnicodeEncodeError, ValueError]"
| "ancestors JSONDecodeError = [JSONDecodeError, ValueError]"
| "ancestors BinasciiError = [BinasciiError, ValueError]"
| "ancestors TOMLDecodeError = [TOMLDecodeError, ValueError]"
| "ancestors UnboundLocalError = [UnboundLocalError, NameError]"
| "ancestors VMLaunchError = [VMLaunchError, VMProfileError]"
| "ancestors GuestVsockError = [GuestVsockError, GuestCommandError]"
| "ancestors ReportMalformed = [ReportMalformed, ReportError]"
| "ancestors ReportUnsupportedVersion = [ReportUnsupportedVersion, ReportError]"
| "ancestors ReportUnsupportedCpu = [ReportUnsupportedCpu, ReportError]"
| "ancestors MeasurementMissing = [MeasurementMissing, MeasurementError]"
| "ancestors MeasurementMalformed = [MeasurementMalformed, MeasurementError]"
| "ancestors c = [c]"

definition is_a :: "exc \<Rightarrow> exc_class \<Rightarrow> bool" where
  "is_a e c = List.member (ancestors (class_of e)) c"

text \<open>\<^verbatim>\<open>try: m  except C as e: h(e)\<close>, and raising a given class.\<close>

definition catch :: "exc_class \<Rightarrow> exc + 'a \<Rightarrow> (exc \<Rightarrow> exc + 'a) \<Rightarrow> exc + 'a" where
  "catch c m h = (case m of Inl e \<Rightarrow> if is_a e c then h e else Inl e | Inr x \<Rightarrow> Inr x)"

abbreviation raise :: "exc_class \<Rightarrow> string \<Rightarrow> exc + 'a" where
  "raise c s \<equiv> Inl (Exc c s)"

section \<open>Sequencing computations that may raise\<close>

definition rbind :: "'e + 'a \<Rightarrow> ('a \<Rightarrow> 'e + 'b) \<Rightarrow> 'e + 'b" where
  "rbind m f = (case m of Inl e \<Rightarrow> Inl e | Inr x \<Rightarrow> f x)"

lemma rbind_simps [simp]:
  "rbind (Inl e) f = Inl e"
  "rbind (Inr x) f = f x"
  by (simp_all add: rbind_def)

lemma rbind_eq_Inr: "rbind m f = Inr y \<longleftrightarrow> (\<exists>x. m = Inr x \<and> f x = Inr y)"
  by (cases m) simp_all

lemma rbind_eq_Inl: "rbind m f = Inl e \<longleftrightarrow> m = Inl e \<or> (\<exists>x. m = Inr x \<and> f x = Inl e)"
  by (cases m) auto

text \<open>\<^verbatim>\<open>if b: raise ...\<close>: the guard fails with the given exception.\<close>

definition guard_not :: "bool \<Rightarrow> 'e \<Rightarrow> 'e + unit" where
  "guard_not b e = (if b then Inl e else Inr ())"

lemma guard_not_Inr [simp]: "guard_not b e = Inr u \<longleftrightarrow> \<not> b"
  by (simp add: guard_not_def)

lemma guard_not_simps [simp]:
  "guard_not True e = Inl e"
  "guard_not False e = Inr ()"
  by (simp_all add: guard_not_def)

text \<open>A list comprehension or a loop whose body may raise: the first exception wins.\<close>

fun rmap :: "('a \<Rightarrow> 'e + 'b) \<Rightarrow> 'a list \<Rightarrow> 'e + 'b list" where
  "rmap f [] = Inr []"
| "rmap f (x # xs) = rbind (f x) (\<lambda>y. rbind (rmap f xs) (\<lambda>ys. Inr (y # ys)))"

lemma rmap_Inr_length: "rmap f xs = Inr ys \<Longrightarrow> length ys = length xs"
  by (induction xs arbitrary: ys) (auto simp: rbind_eq_Inr)

lemma rmap_Inr_list_all2:
  "rmap f xs = Inr ys \<longleftrightarrow> list_all2 (\<lambda>x y. f x = Inr y) xs ys"
  by (induction xs arbitrary: ys) (auto simp: rbind_eq_Inr list_all2_Cons1)

lemma catch_Inr [simp]: "catch c (Inr x) h = Inr x"
  by (simp add: catch_def)

lemma is_a_refl [simp]: "is_a (Exc c s) c"
  by (cases c) (simp_all add: is_a_def)

section \<open>Lists\<close>

lemma takeWhile_eq_self: "list_all P xs \<Longrightarrow> takeWhile P xs = xs"
  by (simp add: list_all_iff takeWhile_eq_all_conv)

lemma foldl_append_map: "foldl (\<lambda>acc x. acc @ f x) acc xs = acc @ concat (map f xs)"
  by (induction xs arbitrary: acc) simp_all

text \<open>
  Python's \<^verbatim>\<open>for ... in order, seen\<close> idiom: the first occurrence of each element, in order
  (also \<^verbatim>\<open>dict.fromkeys\<close>).
\<close>

fun dedup_from :: "'a list \<Rightarrow> 'a list \<Rightarrow> 'a list" where
  "dedup_from seen [] = []"
| "dedup_from seen (x # xs) =
     (if List.member seen x then dedup_from seen xs else x # dedup_from (x # seen) xs)"

definition dedup :: "'a list \<Rightarrow> 'a list" where
  "dedup xs = dedup_from [] xs"

lemma set_dedup_from: "set (dedup_from seen xs) = set xs - set seen"
  by (induction seen xs rule: dedup_from.induct) auto

lemma distinct_dedup_from: "distinct (dedup_from seen xs)"
  by (induction seen xs rule: dedup_from.induct) (auto simp: set_dedup_from)

lemma set_dedup [simp]: "set (dedup xs) = set xs"
  by (simp add: dedup_def set_dedup_from)

lemma distinct_dedup [simp]: "distinct (dedup xs)"
  by (simp add: dedup_def distinct_dedup_from)

lemma dedup_Nil_iff [simp]: "dedup xs = [] \<longleftrightarrow> xs = []"
  by (metis set_dedup set_empty)

lemma list_all2_mem: "list_all2 P xs ys \<Longrightarrow> x \<in> set xs \<Longrightarrow> \<exists>y \<in> set ys. P x y"
  by (induction rule: list_all2_induct) auto

end
