(* ===== verification/PyStr.thy ===== *)
theory PyStr
  imports Prelude "HOL-Library.Char_ord"
begin

text \<open>
  The part of Python's \<^verbatim>\<open>str\<close> and \<^verbatim>\<open>int\<close> that the program uses.

  A \<^verbatim>\<open>str\<close> is modelled by its UTF-8 bytes, one \<^typ>\<open>char\<close> per byte, so ASCII text is its list
  of characters. The character classes (\<open>py_space\<close>, \<open>py_digit\<close>, \<open>py_alnum\<close>) are
  those of Python on ASCII; a byte above 127 is part of a longer character and belongs to
  none of them. \<open>len_chars\<close> counts characters, that is, bytes that do not continue one.
  \<^verbatim>\<open>int(s)\<close> and \<^verbatim>\<open>int(s, 0)\<close> are modelled with their sign, prefix, underscore and
  surrounding-whitespace rules, without CPython's limit of 4300 decimal digits.
\<close>

section \<open>Characters\<close>

definition code_of :: "char \<Rightarrow> nat" where
  "code_of c = of_char c"

definition nl :: string where
  "nl = [CHR 0x0A]"

definition py_space :: "char \<Rightarrow> bool" where
  "py_space c = (let n = code_of c in (9 \<le> n \<and> n \<le> 13) \<or> (28 \<le> n \<and> n \<le> 32))"

definition py_digit :: "char \<Rightarrow> bool" where
  "py_digit c = (let n = code_of c in 48 \<le> n \<and> n \<le> 57)"

definition py_alpha :: "char \<Rightarrow> bool" where
  "py_alpha c = (let n = code_of c in (65 \<le> n \<and> n \<le> 90) \<or> (97 \<le> n \<and> n \<le> 122))"

definition py_alnum :: "char \<Rightarrow> bool" where
  "py_alnum c = (py_digit c \<or> py_alpha c)"

definition is_ascii :: "char \<Rightarrow> bool" where
  "is_ascii c = (code_of c < 128)"

definition lower_char :: "char \<Rightarrow> char" where
  "lower_char c = (let n = code_of c in if 65 \<le> n \<and> n \<le> 90 then char_of (n + 32) else c)"

definition upper_char :: "char \<Rightarrow> char" where
  "upper_char c = (let n = code_of c in if 97 \<le> n \<and> n \<le> 122 then char_of (n - 32) else c)"

definition lower :: "string \<Rightarrow> string" where
  "lower s = map lower_char s"

definition len_chars :: "string \<Rightarrow> nat" where
  "len_chars s = length (filter (\<lambda>c. code_of c < 128 \<or> 192 \<le> code_of c) s)"

section \<open>Searching, splitting, joining\<close>

definition startswith :: "string \<Rightarrow> string \<Rightarrow> bool" where
  "startswith s p = (take (length p) s = p)"

definition endswith :: "string \<Rightarrow> string \<Rightarrow> bool" where
  "endswith s p = startswith (rev s) (rev p)"

text \<open>\<^verbatim>\<open>p in s\<close>\<close>

fun contains :: "string \<Rightarrow> string \<Rightarrow> bool" where
  "contains p [] = (p = [])"
| "contains p (c # s) = (startswith (c # s) p \<or> contains p s)"

text \<open>\<^verbatim>\<open>s.partition(c)\<close> for a one-character separator: (head, separator, tail).\<close>

definition partition_at :: "char \<Rightarrow> string \<Rightarrow> string \<times> string \<times> string" where
  "partition_at c s =
     (let h = takeWhile (\<lambda>x. x \<noteq> c) s; r = dropWhile (\<lambda>x. x \<noteq> c) s
      in (h, take 1 r, drop 1 r))"

text \<open>\<^verbatim>\<open>s.split(c)\<close> for a one-character separator.\<close>

fun split_on :: "char \<Rightarrow> string \<Rightarrow> string list" where
  "split_on c [] = [[]]"
| "split_on c (x # xs) =
     (if x = c then [] # split_on c xs
      else (case split_on c xs of [] \<Rightarrow> [[x]] | p # ps \<Rightarrow> (x # p) # ps))"

fun join :: "string \<Rightarrow> string list \<Rightarrow> string" where
  "join sep [] = []"
| "join sep [p] = p"
| "join sep (p # ps) = p @ sep @ join sep ps"

definition strip_by :: "(char \<Rightarrow> bool) \<Rightarrow> string \<Rightarrow> string" where
  "strip_by P s = rev (dropWhile P (rev (dropWhile P s)))"

definition strip :: "string \<Rightarrow> string" where
  "strip s = strip_by py_space s"

definition rstrip :: "string \<Rightarrow> string" where
  "rstrip s = rev (dropWhile py_space (rev s))"

definition strip_char :: "char \<Rightarrow> string \<Rightarrow> string" where
  "strip_char c s = strip_by (\<lambda>x. x = c) s"

definition replace_char :: "char \<Rightarrow> char \<Rightarrow> string \<Rightarrow> string" where
  "replace_char a b s = map (\<lambda>x. if x = a then b else x) s"

text \<open>
  \<^verbatim>\<open>s.splitlines()\<close>: the line boundaries are LF, VT, FF, CR, CR LF, FS, GS and RS; a
  boundary at the end adds no empty line.
\<close>

definition is_line_end :: "char \<Rightarrow> bool" where
  "is_line_end c = (let n = code_of c in (10 \<le> n \<and> n \<le> 13) \<or> (28 \<le> n \<and> n \<le> 30))"

fun splitlines_from :: "string \<Rightarrow> string \<Rightarrow> string list" where
  "splitlines_from cur [] = (if cur = [] then [] else [rev cur])"
| "splitlines_from cur [c] = (if is_line_end c then [rev cur] else [rev (c # cur)])"
| "splitlines_from cur (c # d # s) =
     (if c = CHR 0x0D \<and> d = CHR 0x0A then rev cur # splitlines_from [] s
      else if is_line_end c then rev cur # splitlines_from [] (d # s)
      else splitlines_from (c # cur) (d # s))"

definition splitlines :: "string \<Rightarrow> string list" where
  "splitlines s = splitlines_from [] s"

section \<open>Integers\<close>

definition digit_char :: "nat \<Rightarrow> char" where
  "digit_char d = (if d < 10 then char_of (48 + d) else char_of (87 + d))"

fun nat_str :: "nat \<Rightarrow> nat \<Rightarrow> string" where
  "nat_str b n = (if b < 2 \<or> n < b then [digit_char n]
                  else nat_str b (n div b) @ [digit_char (n mod b)])"

declare nat_str.simps [simp del]

text \<open>\<^verbatim>\<open>str(n)\<close> and \<^verbatim>\<open>hex(n)\<close>\<close>

definition str_int :: "int \<Rightarrow> string" where
  "str_int n = (if n < 0 then ''-'' @ nat_str 10 (nat (- n)) else nat_str 10 (nat n))"

definition hex_int :: "int \<Rightarrow> string" where
  "hex_int n = (if n < 0 then ''-0x'' @ nat_str 16 (nat (- n)) else ''0x'' @ nat_str 16 (nat n))"

text \<open>\<^verbatim>\<open>f"{n:02X}"\<close> and \<^verbatim>\<open>f"{n:016x}"\<close> for a non-negative number\<close>

definition pad_left :: "nat \<Rightarrow> char \<Rightarrow> string \<Rightarrow> string" where
  "pad_left w c s = replicate (w - length s) c @ s"

definition hex_upper2 :: "nat \<Rightarrow> string" where
  "hex_upper2 n = pad_left 2 CHR ''0'' (map upper_char (nat_str 16 n))"

definition hex_pad16 :: "nat \<Rightarrow> string" where
  "hex_pad16 n = pad_left 16 CHR ''0'' (nat_str 16 n)"

definition digit_val :: "char \<Rightarrow> nat option" where
  "digit_val c = (let n = code_of c in
     if 48 \<le> n \<and> n \<le> 57 then Some (n - 48)
     else if 65 \<le> n \<and> n \<le> 90 then Some (n - 55)
     else if 97 \<le> n \<and> n \<le> 122 then Some (n - 87)
     else None)"

text \<open>
  The digits of an integer literal in base \<open>b\<close>: single underscores may separate digits.
  The flag says that a digit must come next.
\<close>

fun digits_from :: "nat \<Rightarrow> nat \<Rightarrow> bool \<Rightarrow> string \<Rightarrow> nat option" where
  "digits_from b acc need [] = (if need then None else Some acc)"
| "digits_from b acc need (c # s) =
     (if c = CHR ''_'' then (if need then None else digits_from b acc True s)
      else (case digit_val c of
              None \<Rightarrow> None
            | Some d \<Rightarrow> if d < b then digits_from b (acc * b + d) False s else None))"

definition parse_nat :: "nat \<Rightarrow> string \<Rightarrow> nat option" where
  "parse_nat b s = digits_from b 0 True s"

text \<open>After a base prefix one underscore is allowed before the first digit.\<close>

definition parse_prefixed :: "nat \<Rightarrow> string \<Rightarrow> nat option" where
  "parse_prefixed b s = parse_nat b (if take 1 s = ''_'' then drop 1 s else s)"

text \<open>\<^verbatim>\<open>int(s, 0)\<close>: a decimal literal with a leading zero must be zero.\<close>

definition parse_base0 :: "string \<Rightarrow> nat option" where
  "parse_base0 s =
     (let p = lower (take 2 s) in
      if p = ''0x'' then parse_prefixed 16 (drop 2 s)
      else if p = ''0o'' then parse_prefixed 8 (drop 2 s)
      else if p = ''0b'' then parse_prefixed 2 (drop 2 s)
      else if take 1 s = ''0'' then
        (case parse_nat 10 s of Some 0 \<Rightarrow> Some 0 | _ \<Rightarrow> None)
      else parse_nat 10 s)"

definition signed_parse :: "(string \<Rightarrow> nat option) \<Rightarrow> string \<Rightarrow> int option" where
  "signed_parse p s =
     (let t = strip s in
      if take 1 t = ''-'' then map_option (\<lambda>n. - int n) (p (drop 1 t))
      else if take 1 t = ''+'' then map_option int (p (drop 1 t))
      else map_option int (p t))"

definition py_int :: "string \<Rightarrow> int option" where
  "py_int s = signed_parse (parse_nat 10) s"

definition py_int0 :: "string \<Rightarrow> int option" where
  "py_int0 s = signed_parse parse_base0 s"

section \<open>repr\<close>

text \<open>\<^verbatim>\<open>repr(s)\<close>, as used by \<^verbatim>\<open>f"{s!r}"\<close> in messages.\<close>

definition repr_char :: "char \<Rightarrow> char \<Rightarrow> string" where
  "repr_char q c = (let n = code_of c in
     if c = q \<or> n = 92 then [CHR 0x5C, c]
     else if n = 10 then [CHR 0x5C, CHR ''n'']
     else if n = 13 then [CHR 0x5C, CHR ''r'']
     else if n = 9 then [CHR 0x5C, CHR ''t'']
     else if n < 32 \<or> n = 127 then [CHR 0x5C, CHR ''x''] @ pad_left 2 CHR ''0'' (nat_str 16 n)
     else [c])"

definition repr_str :: "string \<Rightarrow> string" where
  "repr_str s =
     (let q = (if List.member s CHR 0x27 \<and> \<not> List.member s CHR 0x22 then CHR 0x22 else CHR 0x27)
      in [q] @ concat (map (repr_char q) s) @ [q])"

section \<open>Searching and splitting: laws\<close>

lemma startswith_iff: "startswith s p \<longleftrightarrow> (\<exists>t. s = p @ t)"
  unfolding startswith_def by (metis append_eq_conv_conj)

lemma startswith_append [simp]: "startswith (p @ t) p"
  by (simp add: startswith_def)

lemma startswith_Nil_right [simp]: "startswith s []"
  by (simp add: startswith_def)

lemma contains_iff: "contains p s \<longleftrightarrow> (\<exists>a b. s = a @ p @ b)"
proof (induction s)
  case Nil
  then show ?case by auto
next
  case (Cons c s)
  note IH = Cons.IH
  show ?case
  proof
    assume "contains p (c # s)"
    then consider "startswith (c # s) p" | "contains p s" by auto
    then show "\<exists>a b. c # s = a @ p @ b"
    proof cases
      case 1
      then obtain t where "c # s = [] @ p @ t" by (auto simp: startswith_iff)
      then show ?thesis by blast
    next
      case 2
      then obtain a b where "c # s = (c # a) @ p @ b" using IH by auto
      then show ?thesis by blast
    qed
  next
    assume "\<exists>a b. c # s = a @ p @ b"
    then obtain a b where ab: "c # s = a @ p @ b" by blast
    show "contains p (c # s)"
    proof (cases a)
      case Nil
      with ab have "startswith (c # s) p" by (auto simp: startswith_iff)
      then show ?thesis by simp
    next
      case (Cons x a')
      with ab have "s = a' @ p @ b" by simp
      then have "contains p s" using IH by blast
      then show ?thesis by simp
    qed
  qed
qed

lemma contains_refl [simp]: "contains p p"
  unfolding contains_iff by (rule exI [where x = "[]"], rule exI [where x = "[]"]) simp

lemma contains_Nil [simp]: "contains [] s"
  by (cases s) simp_all

lemma contains_append_left: "contains p s \<Longrightarrow> contains p (t @ s)"
  unfolding contains_iff by (metis append_assoc)

lemma contains_append_right: "contains p s \<Longrightarrow> contains p (s @ t)"
  unfolding contains_iff by (metis append_assoc)

lemma partition_at_append:
  "partition_at c s = (h, sep, t) \<Longrightarrow> s = h @ sep @ t"
  unfolding partition_at_def Let_def
  by (metis append_take_drop_id prod.inject takeWhile_dropWhile_id)

lemma partition_at_sep:
  "partition_at c s = (h, sep, t) \<Longrightarrow> sep = (if c \<in> set s then [c] else [])"
proof -
  assume p: "partition_at c s = (h, sep, t)"
  then have sep: "sep = take 1 (dropWhile (\<lambda>x. x \<noteq> c) s)"
    by (auto simp: partition_at_def Let_def)
  show ?thesis
  proof (cases "c \<in> set s")
    case True
    then have ne: "dropWhile (\<lambda>x. x \<noteq> c) s \<noteq> []" by (auto simp: dropWhile_eq_Nil_conv)
    then have "hd (dropWhile (\<lambda>x. x \<noteq> c) s) = c"
      by (metis (mono_tags, lifting) hd_dropWhile)
    with ne have "take 1 (dropWhile (\<lambda>x. x \<noteq> c) s) = [c]"
      by (cases "dropWhile (\<lambda>x. x \<noteq> c) s") simp_all
    with True sep show ?thesis by simp
  next
    case False
    then have "dropWhile (\<lambda>x. x \<noteq> c) s = []" by (auto simp: dropWhile_eq_Nil_conv)
    then show ?thesis using False sep by simp
  qed
qed

lemma partition_at_Cons:
  "partition_at c (x # s) =
     (if x = c then ([], [c], s)
      else (case partition_at c s of (h, sep, t) \<Rightarrow> (x # h, sep, t)))"
  by (simp add: partition_at_def Let_def)

lemma partition_at_Nil [simp]: "partition_at c [] = ([], [], [])"
  by (simp add: partition_at_def)

lemma partition_at_first:
  "c \<notin> set h \<Longrightarrow> partition_at c (h @ c # t) = (h, [c], t)"
  by (induction h) (auto simp: partition_at_Cons)

lemma split_on_not_Nil [simp]: "split_on c s \<noteq> []"
  by (induction s) (auto split: list.splits)

lemma join_Cons: "ps \<noteq> [] \<Longrightarrow> join sep (p # ps) = p @ sep @ join sep ps"
  by (cases ps) simp_all

lemma join_split_on: "join [c] (split_on c s) = s"
proof (induction s)
  case Nil
  then show ?case by simp
next
  case (Cons x s)
  show ?case
  proof (cases "x = c")
    case True
    then show ?thesis using Cons.IH by (simp add: join_Cons)
  next
    case False
    obtain p ps where ps: "split_on c s = p # ps" by (cases "split_on c s") auto
    with False Cons.IH show ?thesis by (cases ps) auto
  qed
qed

lemma split_on_parts: "p \<in> set (split_on c s) \<Longrightarrow> c \<notin> set p"
proof (induction s arbitrary: p)
  case Nil
  then show ?case by simp
next
  case (Cons x s)
  obtain q qs where qs: "split_on c s = q # qs" by (cases "split_on c s") auto
  with Cons show ?case by (auto split: if_splits)
qed

lemma split_on_none: "c \<notin> set p \<Longrightarrow> split_on c p = [p]"
  by (induction p) auto

lemma split_on_append: "c \<notin> set p \<Longrightarrow> split_on c (p @ c # s) = p # split_on c s"
  by (induction p) auto

lemma split_on_join:
  assumes "ps \<noteq> []" and "\<forall>p \<in> set ps. c \<notin> set p"
  shows "split_on c (join [c] ps) = ps"
  using assms
proof (induction ps)
  case Nil
  then show ?case by simp
next
  case (Cons p ps)
  then show ?case
    by (cases "ps = []") (simp_all add: split_on_none join_Cons split_on_append)
qed

section \<open>Stripping: laws\<close>

lemma dropWhile_hd: "dropWhile P s = c # t \<Longrightarrow> \<not> P c"
  by (induction s) (auto split: if_splits)

lemma set_strip_by: "set (strip_by P s) \<subseteq> set s"
  unfolding strip_by_def by (metis set_rev set_dropWhileD subsetI)

lemma set_strip: "set (strip s) \<subseteq> set s"
  by (simp add: strip_def set_strip_by)

lemma strip_by_id:
  assumes "s = [] \<or> (\<not> P (hd s) \<and> \<not> P (last s))"
  shows "strip_by P s = s"
proof (cases s)
  case Nil
  then show ?thesis by (simp add: strip_by_def)
next
  case (Cons c t)
  with assms have "dropWhile P s = s" by auto
  moreover have "dropWhile P (rev s) = rev s"
    using assms Cons by (cases "rev s") (auto simp: hd_rev [symmetric])
  ultimately show ?thesis by (simp add: strip_by_def)
qed

lemma strip_by_ends:
  assumes "strip_by P s = t" and "t \<noteq> []"
  shows "\<not> P (hd t) \<and> \<not> P (last t)"
proof -
  define u where "u = dropWhile P s"
  have t: "rev t = dropWhile P (rev u)" using assms(1) by (auto simp: strip_by_def u_def)
  then have last: "\<not> P (last t)"
    using assms(2) by (metis hd_dropWhile hd_rev rev_is_Nil_conv)
  obtain w where "rev u = w @ rev t"
    using t by (metis takeWhile_dropWhile_id)
  then have u: "u = t @ rev w" by (metis rev_append rev_rev_ident)
  with assms(2) have "hd u = hd t" and "u \<noteq> []" by auto
  then have "\<not> P (hd t)" by (metis u_def hd_dropWhile)
  with last show ?thesis by simp
qed

lemma strip_by_idem: "strip_by P (strip_by P s) = strip_by P s"
  using strip_by_ends [of P s] strip_by_id by blast

lemma strip_id: "s = [] \<or> (\<not> py_space (hd s) \<and> \<not> py_space (last s)) \<Longrightarrow> strip s = s"
  by (simp add: strip_def strip_by_id)

lemma strip_idem [simp]: "strip (strip s) = strip s"
  by (simp add: strip_def strip_by_idem)

section \<open>Integers: printing and parsing are inverse\<close>

lemma code_of_char_of: "n < 256 \<Longrightarrow> code_of (char_of n) = n"
  by (simp add: code_of_def)

lemma digit_val_digit_char: "d < 36 \<Longrightarrow> digit_val (digit_char d) = Some d"
  by (simp add: digit_val_def digit_char_def code_of_char_of Let_def)

lemma digit_char_not_special:
  assumes "d < 36"
  shows "digit_char d \<noteq> CHR ''_'' \<and> digit_char d \<noteq> CHR ''-'' \<and> digit_char d \<noteq> CHR ''+''
    \<and> \<not> py_space (digit_char d)"
proof -
  have c: "code_of (digit_char d) = (if d < 10 then 48 + d else 87 + d)"
    using assms by (simp add: digit_char_def code_of_char_of)
  have "code_of CHR ''_'' = 95" "code_of CHR ''-'' = 45" "code_of CHR ''+'' = 43"
    by (simp_all add: code_of_def)
  moreover have "digit_char d = x \<Longrightarrow> code_of (digit_char d) = code_of x" for x by simp
  ultimately show ?thesis using c assms
    by (auto simp: py_space_def Let_def split: if_splits)
qed

lemma digits_from_digit:
  "d < b \<Longrightarrow> b \<le> 36 \<Longrightarrow>
     digits_from b acc need (digit_char d # s) = digits_from b (acc * b + d) False s"
  using digit_char_not_special [of d] by (simp add: digit_val_digit_char)

lemma nat_str_not_Nil [simp]: "nat_str b n \<noteq> []"
  by (subst nat_str.simps) simp

text \<open>Reading the digits of \<open>n\<close> shifts the accumulator by some power of the base and adds \<open>n\<close>.\<close>

lemma digits_from_nat_str:
  assumes "2 \<le> b" and "b \<le> 36"
  shows "\<exists>k. \<forall>acc need s. digits_from b acc need (nat_str b n @ s)
           = digits_from b (acc * b ^ k + n) False s"
  using assms
proof (induction b n rule: nat_str.induct)
  case (1 b n)
  show ?case
  proof (cases "n < b")
    case True
    with "1.prems" have "nat_str b n = [digit_char n]" by (subst nat_str.simps) simp
    with True "1.prems" show ?thesis
      by (intro exI [where x = 1]) (simp add: digits_from_digit del: digits_from.simps)
  next
    case False
    with "1.prems" have eq: "nat_str b n = nat_str b (n div b) @ [digit_char (n mod b)]"
      by (subst nat_str.simps) simp
    from False "1.prems" have "\<not> (b < 2 \<or> n < b)" by simp
    from "1.IH" [OF this "1.prems"] obtain k where
      k: "\<And>acc need s. digits_from b acc need (nat_str b (n div b) @ s)
            = digits_from b (acc * b ^ k + n div b) False s" by blast
    have "n mod b < b" using "1.prems" by simp
    then have "digits_from b acc need (nat_str b n @ s)
        = digits_from b ((acc * b ^ k + n div b) * b + n mod b) False s" for acc need s
      using "1.prems" by (simp add: eq k digits_from_digit del: digits_from.simps)
    moreover have "(acc * b ^ k + n div b) * b + n mod b = acc * b ^ Suc k + n" for acc
      by (simp add: algebra_simps)
    ultimately show ?thesis by metis
  qed
qed

lemma parse_nat_str:
  assumes "2 \<le> b" and "b \<le> 36"
  shows "parse_nat b (nat_str b n) = Some n"
proof -
  obtain k where "digits_from b 0 True (nat_str b n @ []) = digits_from b (0 * b ^ k + n) False []"
    using digits_from_nat_str [OF assms] by blast
  then show ?thesis by (simp add: parse_nat_def)
qed

lemma set_nat_str:
  assumes "2 \<le> b" and "b \<le> 36" and "c \<in> set (nat_str b n)"
  shows "\<exists>d < b. c = digit_char d"
  using assms
proof (induction b n rule: nat_str.induct)
  case (1 b n)
  show ?case
  proof (cases "n < b")
    case True
    with "1.prems" show ?thesis by (subst (asm) nat_str.simps) auto
  next
    case False
    with "1.prems" have "nat_str b n = nat_str b (n div b) @ [digit_char (n mod b)]"
      by (subst nat_str.simps) simp
    then consider "c \<in> set (nat_str b (n div b))" | "c = digit_char (n mod b)"
      using "1.prems" by auto
    then show ?thesis
    proof cases
      case 1
      with False "1.prems" "1.IH" show ?thesis by simp
    next
      case 2
      with "1.prems" show ?thesis by (intro exI [where x = "n mod b"]) simp
    qed
  qed
qed

lemma nat_str_chars:
  assumes "2 \<le> b" and "b \<le> 36" and "c \<in> set (nat_str b n)"
  shows "c \<noteq> CHR ''_''" "c \<noteq> CHR ''-''" "c \<noteq> CHR ''+''" "\<not> py_space c"
  using set_nat_str [OF assms] digit_char_not_special assms(2) by auto

lemma strip_nat_str:
  assumes "2 \<le> b" and "b \<le> 36"
  shows "strip (nat_str b n) = nat_str b n"
proof (rule strip_id, rule disjI2)
  show "\<not> py_space (hd (nat_str b n)) \<and> \<not> py_space (last (nat_str b n))"
    using nat_str_chars(4) [OF assms] by (metis hd_in_set last_in_set nat_str_not_Nil)
qed

lemma last_nat_str_not_space:
  "2 \<le> b \<Longrightarrow> b \<le> 36 \<Longrightarrow> \<not> py_space (last (nat_str b n))"
  by (metis last_in_set nat_str_chars(4) nat_str_not_Nil)

lemma strip_prefixed_nat_str:
  assumes "2 \<le> b" and "b \<le> 36" and "p \<noteq> []" and "\<not> py_space (hd p)"
  shows "strip (p @ nat_str b n) = p @ nat_str b n"
  using assms by (intro strip_id disjI2) (simp add: last_nat_str_not_space)

lemma take1_nat_str:
  assumes "2 \<le> b" and "b \<le> 36"
  shows "\<exists>c. take 1 (nat_str b n) = [c] \<and> c \<in> set (nat_str b n)"
proof (cases "nat_str b n")
  case Nil
  then show ?thesis by (metis nat_str_not_Nil)
qed simp

theorem py_int_str_int: "py_int (str_int n) = Some n"
proof (cases "n < 0")
  case True
  have "strip (''-'' @ nat_str 10 (nat (- n))) = ''-'' @ nat_str 10 (nat (- n))"
    by (rule strip_prefixed_nat_str) (simp_all add: py_space_def code_of_def)
  with True show ?thesis
    by (simp add: py_int_def signed_parse_def str_int_def parse_nat_str Let_def)
next
  case False
  obtain c where "take 1 (nat_str 10 (nat n)) = [c]" "c \<in> set (nat_str 10 (nat n))"
    using take1_nat_str [of 10] by auto
  moreover from this have "c \<noteq> CHR ''-''" "c \<noteq> CHR ''+''"
    using nat_str_chars [of 10 c "nat n"] by simp_all
  ultimately show ?thesis using False
    by (simp add: py_int_def signed_parse_def str_int_def strip_nat_str parse_nat_str Let_def)
qed

lemma parse_prefixed_nat_str:
  assumes "2 \<le> b" and "b \<le> 36"
  shows "parse_prefixed b (nat_str b n) = Some n"
proof -
  obtain c where c: "take 1 (nat_str b n) = [c]" "c \<in> set (nat_str b n)"
    using take1_nat_str [OF assms] by blast
  then have "take 1 (nat_str b n) \<noteq> ''_''"
    using nat_str_chars(1) [OF assms c(2)] by simp
  then show ?thesis by (simp add: parse_prefixed_def parse_nat_str [OF assms])
qed

theorem py_int0_hex_int: "py_int0 (hex_int n) = Some n"
proof -
  have s1: "strip (''-0x'' @ nat_str 16 m) = ''-0x'' @ nat_str 16 m" for m
    by (rule strip_prefixed_nat_str) (simp_all add: py_space_def code_of_def)
  have s2: "strip (''0x'' @ nat_str 16 m) = ''0x'' @ nat_str 16 m" for m
    by (rule strip_prefixed_nat_str) (simp_all add: py_space_def code_of_def)
  have lx: "lower ''0x'' = ''0x''"
    by (simp add: lower_def lower_char_def code_of_def)
  show ?thesis
    using s1 s2 lx
    by (simp add: py_int0_def signed_parse_def hex_int_def parse_base0_def Let_def
        parse_prefixed_nat_str del: append.simps) (simp add: parse_prefixed_nat_str)
qed

end
