(* ===== verification/PyBytes.thy ===== *)
theory PyBytes
  imports PyStr
begin

text \<open>
  The part of Python's \<^verbatim>\<open>bytes\<close>, \<^verbatim>\<open>struct\<close> and \<^verbatim>\<open>base64\<close> that the program uses. A
  \<^verbatim>\<open>bytes\<close> value is a list of 8-bit words. A \<^verbatim>\<open>str\<close> is modelled by its UTF-8 bytes (theory
  PyStr), so \<^verbatim>\<open>encode\<close> and a successful \<^verbatim>\<open>decode\<close> only change the element type.
\<close>

type_synonym byte = "8 word"
type_synonym bytes = "byte list"

definition char_of_byte :: "byte \<Rightarrow> char" where
  "char_of_byte b = char_of (unat b)"

definition byte_of_char :: "char \<Rightarrow> byte" where
  "byte_of_char c = word_of_nat (code_of c)"

definition encode :: "string \<Rightarrow> bytes" where
  "encode s = map byte_of_char s"

definition decode :: "bytes \<Rightarrow> string" where
  "decode b = map char_of_byte b"

text \<open>\<^verbatim>\<open>data[off:off + n]\<close>\<close>

definition subbytes :: "nat \<Rightarrow> nat \<Rightarrow> 'a list \<Rightarrow> 'a list" where
  "subbytes off n xs = take n (drop off xs)"

text \<open>\<^verbatim>\<open>struct.unpack_from("<I", ...)\<close> and \<^verbatim>\<open>"<Q"\<close>: little-endian unsigned integers.\<close>

fun le_nat :: "bytes \<Rightarrow> nat" where
  "le_nat [] = 0"
| "le_nat (b # bs) = unat b + 256 * le_nat bs"

fun le_bytes :: "nat \<Rightarrow> nat \<Rightarrow> bytes" where
  "le_bytes 0 n = []"
| "le_bytes (Suc k) n = word_of_nat n # le_bytes k (n div 256)"

text \<open>\<^verbatim>\<open>b.ljust(n, b"\x00")\<close>: pads, never truncates.\<close>

definition ljust0 :: "nat \<Rightarrow> bytes \<Rightarrow> bytes" where
  "ljust0 n b = b @ replicate (n - length b) 0"

section \<open>Hexadecimal text\<close>

definition hex_val :: "char \<Rightarrow> nat option" where
  "hex_val c = (case digit_val c of Some d \<Rightarrow> if d < 16 then Some d else None | None \<Rightarrow> None)"

definition hex_byte :: "byte \<Rightarrow> string" where
  "hex_byte b = [digit_char (unat b div 16), digit_char (unat b mod 16)]"

text \<open>\<^verbatim>\<open>b.hex()\<close>\<close>

definition to_hex :: "bytes \<Rightarrow> string" where
  "to_hex b = concat (map hex_byte b)"

text \<open>\<^verbatim>\<open>bytes.fromhex(s)\<close>: white space is skipped between bytes, never within one.\<close>

fun from_hex :: "string \<Rightarrow> bytes option" where
  "from_hex [] = Some []"
| "from_hex [c] = (if py_space c then Some [] else None)"
| "from_hex (c # d # s) =
     (if py_space c then from_hex (d # s)
      else (case (hex_val c, hex_val d) of
              (Some h, Some l) \<Rightarrow> map_option ((#) (word_of_nat (16 * h + l))) (from_hex s)
            | _ \<Rightarrow> None))"

section \<open>Base64\<close>

definition b64_char :: "nat \<Rightarrow> char" where
  "b64_char n =
     (if n < 26 then char_of (65 + n)
      else if n < 52 then char_of (71 + n)
      else if n < 62 then char_of (n - 4)
      else if n = 62 then CHR ''+'' else CHR ''/'')"

definition b64_val :: "char \<Rightarrow> nat option" where
  "b64_val c = (let n = code_of c in
     if 65 \<le> n \<and> n \<le> 90 then Some (n - 65)
     else if 97 \<le> n \<and> n \<le> 122 then Some (n - 71)
     else if 48 \<le> n \<and> n \<le> 57 then Some (n + 4)
     else if n = 43 then Some 62
     else if n = 47 then Some 63
     else None)"

text \<open>The encoder, which the guest's \<^verbatim>\<open>base64\<close> command runs.\<close>

fun b64encode :: "bytes \<Rightarrow> string" where
  "b64encode [] = []"
| "b64encode [a] =
     (let x = unat a * 65536
      in [b64_char (x div 262144), b64_char (x div 4096 mod 64), CHR ''='', CHR ''=''])"
| "b64encode [a, b] =
     (let x = unat a * 65536 + unat b * 256
      in [b64_char (x div 262144), b64_char (x div 4096 mod 64), b64_char (x div 64 mod 64), CHR ''=''])"
| "b64encode (a # b # c # s) =
     (let x = unat a * 65536 + unat b * 256 + unat c
      in [b64_char (x div 262144), b64_char (x div 4096 mod 64),
          b64_char (x div 64 mod 64), b64_char (x mod 64)] @ b64encode s)"

text \<open>
  \<^verbatim>\<open>base64.b64decode(s, validate=True)\<close>: only the alphabet and final padding are accepted;
  the unused low bits of a padded group are ignored.
\<close>

fun b64decode :: "string \<Rightarrow> bytes option" where
  "b64decode [] = Some []"
| "b64decode (p # q # r # t # s) =
     (case (b64_val p, b64_val q) of
        (Some i, Some j) \<Rightarrow>
          (if r = CHR ''='' then
             (if t = CHR ''='' \<and> s = [] then Some [word_of_nat (i * 4 + j div 16)] else None)
           else (case b64_val r of
             None \<Rightarrow> None
           | Some k \<Rightarrow>
               (if t = CHR ''='' then
                  (if s = [] then Some [word_of_nat (i * 4 + j div 16),
                                        word_of_nat (j mod 16 * 16 + k div 4)] else None)
                else (case b64_val t of
                  None \<Rightarrow> None
                | Some l \<Rightarrow>
                    map_option (\<lambda>bs. word_of_nat (i * 4 + j div 16)
                        # word_of_nat (j mod 16 * 16 + k div 4)
                        # word_of_nat (k mod 4 * 64 + l) # bs) (b64decode s)))))
      | _ \<Rightarrow> None)"
| "b64decode _ = None"

section \<open>Round trips\<close>

lemma unat_byte_lt [simp]: "unat (b :: byte) < 256"
  using unsigned_less [of b, where 'a = nat] by simp

lemma byte_of_char_of_byte [simp]: "byte_of_char (char_of_byte b) = b"
  by (simp add: byte_of_char_def char_of_byte_def code_of_char_of)

lemma char_of_byte_of_char [simp]: "char_of_byte (byte_of_char c) = c"
proof -
  have "code_of c < 256" by (simp add: code_of_def)
  then show ?thesis
    by (simp add: byte_of_char_def char_of_byte_def code_of_def unat_of_nat)
qed

lemma decode_encode [simp]: "decode (encode s) = s"
  by (simp add: decode_def encode_def comp_def)

lemma encode_decode [simp]: "encode (decode b) = b"
  by (simp add: decode_def encode_def comp_def)

lemma length_encode [simp]: "length (encode s) = length s"
  by (simp add: encode_def)

lemma length_subbytes: "off + n \<le> length xs \<Longrightarrow> length (subbytes off n xs) = n"
  by (simp add: subbytes_def)

lemma length_ljust0: "length (ljust0 n b) = max n (length b)"
  by (simp add: ljust0_def)

lemma le_nat_le_bytes: "le_nat (le_bytes k n) = n mod 256 ^ k"
proof (induction k arbitrary: n)
  case 0
  then show ?case by simp
next
  case (Suc k)
  have "unat (word_of_nat n :: byte) = n mod 256"
    by (simp add: unat_of_nat)
  moreover have "n mod 256 ^ Suc k = n mod 256 + 256 * (n div 256 mod 256 ^ k)"
    by (simp add: mod_mult2_eq)
  ultimately show ?case using Suc.IH [of "n div 256"] by simp
qed

lemma le_bytes_le_nat: "le_bytes (length b) (le_nat b) = b"
proof (induction b)
  case Nil
  then show ?case by simp
next
  case (Cons x b)
  have "(unat x + 256 * le_nat b) div 256 = le_nat b" by simp
  moreover have "word_of_nat (unat x + 256 * le_nat b) = x"
  proof -
    have "(256 :: byte) = 0" by simp
    then show ?thesis by (simp only: of_nat_add of_nat_mult of_nat_numeral) simp
  qed
  ultimately show ?case using Cons.IH by simp
qed

lemma length_le_bytes [simp]: "length (le_bytes k n) = k"
  by (induction k arbitrary: n) simp_all

lemma le_nat_bound: "le_nat b < 256 ^ length b"
proof (induction b)
  case Nil
  then show ?case by simp
next
  case (Cons x b)
  have "unat x + 256 * le_nat b < 256 * (le_nat b + 1)" using unat_byte_lt [of x] by simp
  also have "\<dots> \<le> 256 * 256 ^ length b" using Cons.IH by simp
  finally show ?case by simp
qed

lemma hex_val_digit_char: "d < 16 \<Longrightarrow> hex_val (digit_char d) = Some d"
  by (simp add: hex_val_def digit_val_digit_char)

lemma word_of_nat_unat_byte: "word_of_nat (16 * (unat b div 16) + unat b mod 16) = (b :: byte)"
  by simp

lemma from_hex_to_hex [simp]: "from_hex (to_hex b) = Some b"
proof (induction b)
  case Nil
  then show ?case by (simp add: to_hex_def)
next
  case (Cons x b)
  have lt: "unat x div 16 < 16" using unat_byte_lt [of x] by linarith
  then have "\<not> py_space (digit_char (unat x div 16))"
    using digit_char_not_special [of "unat x div 16"] by simp
  with lt Cons.IH show ?case
    by (simp add: to_hex_def hex_byte_def hex_val_digit_char)
qed

lemma b64_val_char: "n < 64 \<Longrightarrow> b64_val (b64_char n) = Some n"
  by (auto simp: b64_val_def b64_char_def code_of_char_of Let_def code_of_def)

lemma b64_char_not_pad: "n < 64 \<Longrightarrow> b64_char n \<noteq> CHR ''=''"
  using b64_val_char [of n] by (auto simp: b64_val_def code_of_def)

lemma b64_split:
  assumes "a < 256" and "b < 256" and "c < 256" and x: "x = a * 65536 + b * 256 + (c :: nat)"
  shows "x div 262144 = a div 4"
    and "x div 4096 mod 64 = a mod 4 * 16 + b div 16"
    and "x div 64 mod 64 = b mod 16 * 4 + c div 64"
    and "x mod 64 = c mod 64"
proof -
  define a1 a0 b1 b0 c1 c0 where
    "a1 = a div 4" and "a0 = a mod 4" and "b1 = b div 16" and "b0 = b mod 16"
    and "c1 = c div 64" and "c0 = c mod 64"
  note parts = this
  have a: "a = 4 * a1 + a0" "a0 < 4" and b: "b = 16 * b1 + b0" "b0 < 16" "b1 < 16"
    and c: "c = 64 * c1 + c0" "c0 < 64" "c1 < 4"
    using assms(1-3) by (simp_all add: parts less_mult_imp_div_less)
  have x': "x = 262144 * a1 + 65536 * a0 + 4096 * b1 + 256 * b0 + 64 * c1 + c0"
    by (simp add: x a(1) b(1) c(1))
  have "65536 * a0 + 4096 * b1 + 256 * b0 + 64 * c1 + c0 < 262144"
    using a b c by linarith
  then have "x div 262144 = a1"
    by (intro div_nat_eqI) (simp_all add: x')
  then show "x div 262144 = a div 4" by (simp add: parts)
  have "256 * b0 + 64 * c1 + c0 < 4096"
    using b c by linarith
  then have "x div 4096 = 64 * a1 + (16 * a0 + b1)"
    by (intro div_nat_eqI) (simp_all add: x')
  moreover have "16 * a0 + b1 < 64" using a b by linarith
  ultimately show "x div 4096 mod 64 = a mod 4 * 16 + b div 16"
    by (simp add: parts mult.commute)
  have "x div 64 = 64 * (64 * a1 + 16 * a0 + b1) + (4 * b0 + c1)"
    using c(2) by (intro div_nat_eqI) (simp_all add: x')
  moreover have "4 * b0 + c1 < 64" using b c by linarith
  ultimately have "x div 64 mod 64 = 4 * b0 + c1"
    by (simp only: mod_mult_self4 mod_less)
  then show "x div 64 mod 64 = b mod 16 * 4 + c div 64"
    by (simp add: parts mult.commute)
  have "x = 64 * (4096 * a1 + 1024 * a0 + 64 * b1 + 4 * b0 + c1) + c0"
    by (simp add: x')
  then have "x mod 64 = c0" using c(2) by (simp only: mod_mult_self4 mod_less)
  then show "x mod 64 = c mod 64" by (simp only: parts)
qed

text \<open>The four six-bit groups of three bytes, and the three bytes back from the groups.\<close>

lemma b64_group:
  fixes a b c :: byte
  assumes "x = unat a * 65536 + unat b * 256 + unat c"
  shows "x div 262144 < 64"
    and "word_of_nat (x div 262144 * 4 + x div 4096 mod 64 div 16) = a"
    and "word_of_nat (x div 4096 mod 64 mod 16 * 16 + x div 64 mod 64 div 4) = b"
    and "word_of_nat (x div 64 mod 64 mod 4 * 64 + x mod 64) = c"
proof -
  note sp = b64_split [OF unat_byte_lt unat_byte_lt unat_byte_lt assms]
  have a: "unat a div 4 < 64" using unat_byte_lt [of a] by linarith
  with sp show "x div 262144 < 64" by simp
  have b: "unat b div 16 < 16" using unat_byte_lt [of b] by linarith
  have c: "unat c div 64 < 4" using unat_byte_lt [of c] by linarith
  have "x div 262144 * 4 + x div 4096 mod 64 div 16 = unat a" using sp b by simp
  then show "word_of_nat (x div 262144 * 4 + x div 4096 mod 64 div 16) = a" by simp
  have "x div 4096 mod 64 mod 16 * 16 + x div 64 mod 64 div 4 = unat b" using sp b c by simp
  then show "word_of_nat (x div 4096 mod 64 mod 16 * 16 + x div 64 mod 64 div 4) = b" by simp
  have "x div 64 mod 64 mod 4 * 64 + x mod 64 = unat c" using sp c by simp
  then show "word_of_nat (x div 64 mod 64 mod 4 * 64 + x mod 64) = c" by simp
qed

theorem b64decode_encode: "b64decode (b64encode b) = Some b"
proof (induction b rule: b64encode.induct)
  case 1
  then show ?case by simp
next
  case (2 a)
  define x where "x = unat a * 65536"
  have "x = unat a * 65536 + unat (0 :: byte) * 256 + unat (0 :: byte)" by (simp add: x_def)
  note g = b64_group [OF this]
  have "b64encode [a]
      = [b64_char (x div 262144), b64_char (x div 4096 mod 64), CHR ''='', CHR ''='']"
    by (simp add: x_def Let_def)
  with g show ?case by (simp only: b64decode.simps) (simp add: b64_val_char)
next
  case (3 a b)
  define x where "x = unat a * 65536 + unat b * 256"
  have "x = unat a * 65536 + unat b * 256 + unat (0 :: byte)" by (simp add: x_def)
  note g = b64_group [OF this]
  have "b64encode [a, b] = [b64_char (x div 262144), b64_char (x div 4096 mod 64),
      b64_char (x div 64 mod 64), CHR ''='']"
    by (simp add: x_def Let_def)
  with g show ?case
    by (simp only: b64decode.simps) (simp add: b64_val_char b64_char_not_pad)
next
  case (4 a b c s)
  define x where "x = unat a * 65536 + unat b * 256 + unat c"
  note g = b64_group [OF x_def]
  have "b64encode (a # b # c # s) = b64_char (x div 262144) # b64_char (x div 4096 mod 64)
      # b64_char (x div 64 mod 64) # b64_char (x mod 64) # b64encode s"
    by (simp add: x_def Let_def)
  with g "4.IH" show ?case
    by (simp only: b64decode.simps) (simp add: b64_val_char b64_char_not_pad)
qed

end
