(* ===== verification/Models.thy ===== *)
theory Models
  imports PyBytes
begin

text \<open>
  The data model, \<^verbatim>\<open>sev_verify/models.py\<close>: steps and their validation, the fluent step
  factory, test and certification definitions, and the result records.

  A \<^verbatim>\<open>Literal[...]\<close> field is a datatype with one constructor per listed value and an
  \<open>Other\<close> constructor for any other string, which \<^verbatim>\<open>__post_init__\<close> has to reject.
  \<^verbatim>\<open>__post_init__\<close> is a function from the fields to an exception or the checked record;
  \<open>first_raise\<close> is its sequence of \<^verbatim>\<open>if ...: raise ValueError(...)\<close> statements.
\<close>

section \<open>Literal types\<close>

datatype severity = Setup | Required | Info | OtherSeverity string

datatype step_kind = VmLaunch | VmStop | Host | Guest | GuestPull | Callable | OtherKind string

datatype scope = HostScope | GuestScope | MixedScope | OtherScope string

datatype outcome = Pass | Fail | Error | Skip | OtherOutcome string

fun severity_str :: "severity \<Rightarrow> string" where
  "severity_str Setup = ''setup''"
| "severity_str Required = ''required''"
| "severity_str Info = ''info''"
| "severity_str (OtherSeverity s) = s"

fun kind_str :: "step_kind \<Rightarrow> string" where
  "kind_str VmLaunch = ''vm_launch''"
| "kind_str VmStop = ''vm_stop''"
| "kind_str Host = ''host''"
| "kind_str Guest = ''guest''"
| "kind_str GuestPull = ''guest_pull''"
| "kind_str Callable = ''callable''"
| "kind_str (OtherKind s) = s"

fun scope_str :: "scope \<Rightarrow> string" where
  "scope_str HostScope = ''host''"
| "scope_str GuestScope = ''guest''"
| "scope_str MixedScope = ''mixed''"
| "scope_str (OtherScope s) = s"

definition scope_of :: "string \<Rightarrow> scope" where
  "scope_of s = (if s = ''host'' then HostScope else if s = ''guest'' then GuestScope
     else if s = ''mixed'' then MixedScope else OtherScope s)"

fun outcome_str :: "outcome \<Rightarrow> string" where
  "outcome_str Pass = ''pass''"
| "outcome_str Fail = ''fail''"
| "outcome_str Error = ''error''"
| "outcome_str Skip = ''skip''"
| "outcome_str (OtherOutcome s) = s"

definition is_other_severity :: "severity \<Rightarrow> bool" where
  "is_other_severity v = (case v of OtherSeverity _ \<Rightarrow> True | _ \<Rightarrow> False)"

definition is_other_kind :: "step_kind \<Rightarrow> bool" where
  "is_other_kind k = (case k of OtherKind _ \<Rightarrow> True | _ \<Rightarrow> False)"

definition is_other_scope :: "scope \<Rightarrow> bool" where
  "is_other_scope k = (case k of OtherScope _ \<Rightarrow> True | _ \<Rightarrow> False)"

text \<open>A sequence of \<^verbatim>\<open>if condition: raise error\<close> statements.\<close>

fun first_raise :: "(bool \<times> 'e) list \<Rightarrow> 'e + unit" where
  "first_raise [] = Inr ()"
| "first_raise ((b, e) # gs) = (if b then Inl e else first_raise gs)"

section \<open>Steps\<close>

record base_step =
  step_name :: string
  step_type :: severity
  step_kind :: step_kind
  step_expected_result :: string
  step_timeout :: int
  step_command :: string
  step_handler :: string
  step_guest_src :: string
  step_host_dest :: string
  step_guest_id :: string
  step_hints :: "(string \<times> string) list"

definition step_error :: "string \<Rightarrow> string \<Rightarrow> exc" where
  "step_error name msg = Exc ValueError (''Step '' @ repr_str name @ '': '' @ msg)"

definition validate_expected_result_format :: "string \<Rightarrow> string \<Rightarrow> exc + unit" where
  \<open>validate_expected_result_format name expected =
     (case partition_at CHR '':'' expected of (result_kind, sep, v) \<Rightarrow>
        if (result_kind \<noteq> ''exit_code'' \<and> result_kind \<noteq> ''stdout_contains'') \<or> sep = [] then
          Inl (step_error name (''invalid expected_result '' @ repr_str expected @ ''; ''
            @ ''expected '' @ [CHR 0x27] @ ''exit_code:<int>'' @ [CHR 0x27] @ '' or ''
            @ [CHR 0x27] @ ''stdout_contains:<string>'' @ [CHR 0x27]))
        else if result_kind = ''exit_code'' \<and> py_int v = None then
          Inl (step_error name (''exit_code value must be an integer, got '' @ repr_str v))
        else Inr ())\<close>

definition severity_names :: string where
  "severity_names = ''('' @ join '', '' (map repr_str [''setup'', ''required'', ''info'']) @ '')''"

definition kind_names :: string where
  "kind_names = ''('' @ join '', '' (map repr_str
     [''vm_launch'', ''vm_stop'', ''host'', ''guest'', ''guest_pull'', ''callable'']) @ '')''"

definition common_guards :: "base_step \<Rightarrow> (bool \<times> exc) list" where
  "common_guards s =
     [(step_name s = [], Exc ValueError ''Step.name must not be empty''),
      (is_other_severity (step_type s), step_error (step_name s)
         (''invalid type '' @ repr_str (severity_str (step_type s)) @ ''; expected one of ''
          @ severity_names)),
      (is_other_kind (step_kind s), step_error (step_name s)
         (''invalid kind '' @ repr_str (kind_str (step_kind s)) @ ''; expected one of ''
          @ kind_names)),
      (step_timeout s \<le> 0, step_error (step_name s)
         (''timeout must be positive, got '' @ str_int (step_timeout s)))]"

fun kind_guards :: "step_kind \<Rightarrow> base_step \<Rightarrow> (bool \<times> exc) list" where
  "kind_guards VmLaunch s =
     [(step_command s \<noteq> [], step_error (step_name s) ''vm_launch steps must use an empty command''),
      (step_guest_src s \<noteq> [] \<or> step_host_dest s \<noteq> [],
         step_error (step_name s) ''vm_launch steps must not set guest_src/host_dest''),
      (step_handler s \<noteq> [], step_error (step_name s) ''vm_launch steps must not set handler'')]"
| "kind_guards VmStop s =
     [(step_command s \<noteq> [], step_error (step_name s) ''vm_stop steps must use an empty command''),
      (step_guest_src s \<noteq> [] \<or> step_host_dest s \<noteq> [],
         step_error (step_name s) ''vm_stop steps must not set guest_src/host_dest''),
      (step_handler s \<noteq> [], step_error (step_name s) ''vm_stop steps must not set handler''),
      (step_guest_id s \<noteq> [], step_error (step_name s)
         ''vm_stop steps must not set guest_id (use it on vm_launch)'')]"
| "kind_guards Host s =
     [(step_command s = [], step_error (step_name s) ''host steps require a non-empty command''),
      (step_guest_src s \<noteq> [] \<or> step_host_dest s \<noteq> [] \<or> step_handler s \<noteq> [] \<or> step_guest_id s \<noteq> [],
         step_error (step_name s)
           ''host steps must only set command (not handler/paths/guest_id)'')]"
| "kind_guards Guest s =
     [(step_command s = [], step_error (step_name s) ''guest steps require a non-empty command''),
      (step_guest_src s \<noteq> [] \<or> step_host_dest s \<noteq> [] \<or> step_handler s \<noteq> [] \<or> step_guest_id s \<noteq> [],
         step_error (step_name s)
           ''guest steps must only set command (not handler/paths/guest_id)'')]"
| "kind_guards GuestPull s =
     [(step_guest_src s = [], step_error (step_name s)
         ''guest_pull steps require guest_src (path on guest)''),
      (step_host_dest s = [], step_error (step_name s)
         ''guest_pull steps require host_dest (path on host)''),
      (step_command s \<noteq> [] \<or> step_handler s \<noteq> [] \<or> step_guest_id s \<noteq> [], step_error (step_name s)
         ''guest_pull steps must not set command, handler, or guest_id'')]"
| "kind_guards Callable s =
     [(step_handler s = [], step_error (step_name s)
         ''callable steps require a non-empty handler (function name on the test module)''),
      (step_command s \<noteq> [] \<or> step_guest_src s \<noteq> [] \<or> step_host_dest s \<noteq> [] \<or> step_guest_id s \<noteq> [],
         step_error (step_name s)
           ''callable steps must not set command, guest_src, host_dest, or guest_id'')]"
| "kind_guards (OtherKind _) s = []"

definition base_step_post_init :: "base_step \<Rightarrow> exc + base_step" where
  "base_step_post_init s =
     rbind (first_raise (common_guards s @ kind_guards (step_kind s) s)) (\<lambda>_.
     rbind (validate_expected_result_format (step_name s) (step_expected_result s)) (\<lambda>_. Inr s))"

definition add_hint :: "string \<Rightarrow> string \<Rightarrow> base_step \<Rightarrow> base_step" where
  "add_hint pattern message s = s\<lparr>step_hints := step_hints s @ [(pattern, message)]\<rparr>"

section \<open>The fluent factory\<close>

record step_factory =
  sf_name :: string
  sf_type :: severity
  sf_expected_result :: string
  sf_timeout :: int

definition default_expected_result :: string where
  "default_expected_result = ''exit_code:0''"

definition default_timeout :: int where
  "default_timeout = 10"

definition sf_common :: "step_factory \<Rightarrow> step_kind \<Rightarrow> base_step" where
  "sf_common f k =
     \<lparr>step_name = sf_name f, step_type = sf_type f, step_kind = k,
      step_expected_result = sf_expected_result f, step_timeout = sf_timeout f,
      step_command = [], step_handler = [], step_guest_src = [], step_host_dest = [],
      step_guest_id = [], step_hints = []\<rparr>"

definition sf_host :: "step_factory \<Rightarrow> string \<Rightarrow> exc + base_step" where
  "sf_host f command = base_step_post_init ((sf_common f Host)\<lparr>step_command := command\<rparr>)"

definition sf_guest :: "step_factory \<Rightarrow> string \<Rightarrow> exc + base_step" where
  "sf_guest f command = base_step_post_init ((sf_common f Guest)\<lparr>step_command := command\<rparr>)"

definition sf_vm_launch :: "step_factory \<Rightarrow> string \<Rightarrow> exc + base_step" where
  "sf_vm_launch f guest_id =
     base_step_post_init ((sf_common f VmLaunch)\<lparr>step_guest_id := guest_id\<rparr>)"

definition sf_vm_stop :: "step_factory \<Rightarrow> exc + base_step" where
  "sf_vm_stop f = base_step_post_init (sf_common f VmStop)"

definition sf_guest_pull :: "step_factory \<Rightarrow> string \<Rightarrow> string \<Rightarrow> exc + base_step" where
  "sf_guest_pull f guest_src host_dest =
     base_step_post_init
       ((sf_common f GuestPull)\<lparr>step_guest_src := guest_src, step_host_dest := host_dest\<rparr>)"

definition sf_call :: "step_factory \<Rightarrow> string \<Rightarrow> exc + base_step" where
  "sf_call f handler = base_step_post_init ((sf_common f Callable)\<lparr>step_handler := handler\<rparr>)"

definition mk_factory :: "string \<Rightarrow> severity \<Rightarrow> string \<Rightarrow> int \<Rightarrow> step_factory" where
  "mk_factory name typ er tmo =
     \<lparr>sf_name = name, sf_type = typ, sf_expected_result = er, sf_timeout = tmo\<rparr>"

definition for_host :: "string \<Rightarrow> severity \<Rightarrow> string \<Rightarrow> string \<Rightarrow> int \<Rightarrow> exc + base_step" where
  "for_host name typ command er tmo = sf_host (mk_factory name typ er tmo) command"

definition for_guest :: "string \<Rightarrow> severity \<Rightarrow> string \<Rightarrow> string \<Rightarrow> int \<Rightarrow> exc + base_step" where
  "for_guest name typ command er tmo = sf_guest (mk_factory name typ er tmo) command"

definition for_vm_launch :: "string \<Rightarrow> severity \<Rightarrow> string \<Rightarrow> int \<Rightarrow> string \<Rightarrow> exc + base_step" where
  "for_vm_launch name typ er tmo guest_id = sf_vm_launch (mk_factory name typ er tmo) guest_id"

definition for_vm_stop :: "string \<Rightarrow> severity \<Rightarrow> string \<Rightarrow> int \<Rightarrow> exc + base_step" where
  "for_vm_stop name typ er tmo = sf_vm_stop (mk_factory name typ er tmo)"

definition for_guest_pull ::
  "string \<Rightarrow> severity \<Rightarrow> string \<Rightarrow> string \<Rightarrow> string \<Rightarrow> int \<Rightarrow> exc + base_step" where
  "for_guest_pull name typ guest_src host_dest er tmo =
     sf_guest_pull (mk_factory name typ er tmo) guest_src host_dest"

definition for_callable :: "string \<Rightarrow> severity \<Rightarrow> string \<Rightarrow> string \<Rightarrow> int \<Rightarrow> exc + base_step" where
  "for_callable name typ handler er tmo = sf_call (mk_factory name typ er tmo) handler"

text \<open>\<^verbatim>\<open>Step.for_...(...).add_hint(pattern, message)\<close>\<close>

definition with_hint :: "exc + base_step \<Rightarrow> string \<Rightarrow> string \<Rightarrow> exc + base_step" where
  "with_hint s pattern message = rbind s (\<lambda>b. Inr (add_hint pattern message b))"

section \<open>Tests and certifications\<close>

record test_definition =
  test_name :: string
  test_module :: string
  test_scope :: scope
  test_description :: string
  test_level :: string
  test_host_changes :: bool

definition test_post_init :: "test_definition \<Rightarrow> exc + test_definition" where
  "test_post_init t =
     rbind (first_raise
       [(test_name t = [], Exc ValueError ''TestDefinition.name must not be empty''),
        (test_module t = [], Exc ValueError
           (''TestDefinition '' @ repr_str (test_name t) @ '': module must not be empty'')),
        (is_other_scope (test_scope t), Exc ValueError
           (''TestDefinition '' @ repr_str (test_name t) @ '': invalid scope ''
            @ repr_str (scope_str (test_scope t)) @ ''; expected one of (''
            @ join '', '' (map repr_str [''host'', ''guest'', ''mixed'']) @ '')''))])
     (\<lambda>_. Inr t)"

definition requires_vm :: "test_definition \<Rightarrow> bool" where
  "requires_vm t = (test_scope t = GuestScope \<or> test_scope t = MixedScope)"

record certification =
  cert_version :: string
  cert_description :: string
  cert_tests :: "test_definition list"
  cert_all_levels :: "string list"
  cert_max_level :: "string option"

text \<open>The loop that fills \<^verbatim>\<open>all_levels\<close>: \<^verbatim>\<open>seen\<close> and the list appended to.\<close>

fun collect_levels :: "string list \<Rightarrow> string list \<Rightarrow> test_definition list \<Rightarrow> string list" where
  "collect_levels seen acc [] = acc"
| "collect_levels seen acc (t # ts) =
     (if test_level t \<noteq> [] \<and> \<not> List.member seen (test_level t)
      then collect_levels (test_level t # seen) (acc @ [test_level t]) ts
      else collect_levels seen acc ts)"

definition certification_post_init :: "certification \<Rightarrow> exc + certification" where
  "certification_post_init c =
     (if cert_version c = [] then
        raise ValueError ''CertificationDefinition.version must not be empty''
      else
        let c1 = (if cert_all_levels c = [] \<and> cert_tests c \<noteq> []
                  then c\<lparr>cert_all_levels := collect_levels [] [] (cert_tests c)\<rparr> else c)
        in (case cert_max_level c1 of
              None \<Rightarrow> Inr c1
            | Some m \<Rightarrow>
                if cert_all_levels c1 \<noteq> [] \<and> \<not> List.member (cert_all_levels c1) m then
                  raise ValueError (''max_certification_level '' @ repr_str m
                    @ '' is not a valid level; expected one of [''
                    @ join '', '' (map repr_str (cert_all_levels c1)) @ '']'')
                else Inr c1))"

section \<open>Results\<close>

record step_result =
  sr_step :: base_step
  sr_result :: outcome
  sr_exit_code :: "int option"
  sr_stdout :: "string option"
  sr_stderr :: "string option"
  sr_duration_ms :: "int option"
  sr_command :: "string option"

definition mk_step_result :: "base_step \<Rightarrow> outcome \<Rightarrow> step_result" where
  "mk_step_result s r =
     \<lparr>sr_step = s, sr_result = r, sr_exit_code = None, sr_stdout = None, sr_stderr = None,
      sr_duration_ms = None, sr_command = None\<rparr>"

record handler_result =
  hr_exit_code :: int
  hr_stdout :: string
  hr_stderr :: string
  hr_command :: "string option"

definition handler_default :: handler_result where
  "handler_default = \<lparr>hr_exit_code = 0, hr_stdout = [], hr_stderr = [], hr_command = None\<rparr>"

text \<open>
  \<^verbatim>\<open>StepContext\<close>, over the types of the profile and of the launch (\<^verbatim>\<open>object | None\<close> in
  the source). The test module is not a field: the runner resolves handlers in it, and the
  handlers never read it.
\<close>

record ('p, 'l, 'path) step_context =
  ctx_test :: test_definition
  ctx_guest_path :: 'path
  ctx_step_results :: "step_result list"
  ctx_artifact_dir :: 'path
  ctx_profile :: "'p option"
  ctx_launch :: "'l option"
  ctx_cli_qemu_binary :: "string option"
  ctx_cli_ovmf_path :: "string option"
  ctx_allow_host_changes :: bool

record test_result =
  tr_test :: test_definition
  tr_result :: outcome
  tr_step_results :: "step_result list"
  tr_started_at :: "string option"
  tr_completed_at :: "string option"

record certification_result =
  cr_certification :: certification
  cr_result :: outcome
  cr_test_results :: "test_result list"
  cr_started_at :: "string option"
  cr_completed_at :: "string option"

section \<open>What a step may set\<close>

text \<open>
  The abstract reading of \<^verbatim>\<open>__post_init__\<close>: each kind has fields it needs and fields it
  permits, and the expected result denotes an expectation.
\<close>

datatype step_field = FCommand | FHandler | FGuestSrc | FHostDest | FGuestId

fun field_of :: "step_field \<Rightarrow> base_step \<Rightarrow> string" where
  "field_of FCommand s = step_command s"
| "field_of FHandler s = step_handler s"
| "field_of FGuestSrc s = step_guest_src s"
| "field_of FHostDest s = step_host_dest s"
| "field_of FGuestId s = step_guest_id s"

fun needs :: "step_kind \<Rightarrow> step_field list" where
  "needs Host = [FCommand]"
| "needs Guest = [FCommand]"
| "needs GuestPull = [FGuestSrc, FHostDest]"
| "needs Callable = [FHandler]"
| "needs _ = []"

fun permits :: "step_kind \<Rightarrow> step_field list" where
  "permits VmLaunch = [FGuestId]"
| "permits k = needs k"

definition set_fields :: "base_step \<Rightarrow> step_field set" where
  "set_fields s = {f. field_of f s \<noteq> []}"

datatype expectation = ExitCode int | StdoutContains string

definition expectation_of :: "string \<Rightarrow> expectation option" where
  "expectation_of e =
     (case partition_at CHR '':'' e of (k, sep, v) \<Rightarrow>
        if sep = [] then None
        else if k = ''exit_code'' then map_option ExitCode (py_int v)
        else if k = ''stdout_contains'' then Some (StdoutContains v)
        else None)"

fun holds :: "expectation \<Rightarrow> int \<Rightarrow> string \<Rightarrow> bool" where
  "holds (ExitCode n) code out = (code = n)"
| "holds (StdoutContains v) code out = contains v out"

lemma first_raise_Inr [simp]: "first_raise gs = Inr u \<longleftrightarrow> list_all (\<lambda>g. \<not> fst g) gs"
  by (induction gs) (auto split: if_splits)

lemma first_raise_append: "first_raise (gs @ hs) = rbind (first_raise gs) (\<lambda>_. first_raise hs)"
  by (induction gs) auto

lemma validate_expected_iff:
  "validate_expected_result_format n e = Inr u \<longleftrightarrow> expectation_of e \<noteq> None"
  by (auto simp: validate_expected_result_format_def expectation_of_def split: prod.splits)

lemma set_fields_between:
  "set (needs k) \<subseteq> set_fields s \<and> set_fields s \<subseteq> set (permits k) \<longleftrightarrow>
   (\<forall>f. (List.member (needs k) f \<longrightarrow> field_of f s \<noteq> []) \<and>
        (field_of f s \<noteq> [] \<longrightarrow> List.member (permits k) f))"
  by (auto simp: set_fields_def)

lemma all_step_fields:
  "(\<forall>f. P f) \<longleftrightarrow> P FCommand \<and> P FHandler \<and> P FGuestSrc \<and> P FHostDest \<and> P FGuestId"
  by (metis step_field.exhaust)

lemma kind_guards_iff:
  "\<not> is_other_kind k \<Longrightarrow>
   list_all (\<lambda>g. \<not> fst g) (kind_guards k s) \<longleftrightarrow>
     set (needs k) \<subseteq> set_fields s \<and> set_fields s \<subseteq> set (permits k)"
  unfolding set_fields_between all_step_fields
  by (cases k) (auto simp: is_other_kind_def)

definition wf_step :: "base_step \<Rightarrow> bool" where
  "wf_step s \<longleftrightarrow>
     step_name s \<noteq> [] \<and> \<not> is_other_severity (step_type s) \<and> \<not> is_other_kind (step_kind s) \<and>
     0 < step_timeout s \<and> expectation_of (step_expected_result s) \<noteq> None \<and>
     set (needs (step_kind s)) \<subseteq> set_fields s \<and> set_fields s \<subseteq> set (permits (step_kind s))"

text \<open>For evaluation on a concrete step.\<close>

lemma wf_step_eval:
  "wf_step s \<longleftrightarrow>
     step_name s \<noteq> [] \<and> \<not> is_other_severity (step_type s) \<and> \<not> is_other_kind (step_kind s) \<and>
     0 < step_timeout s \<and> expectation_of (step_expected_result s) \<noteq> None \<and>
     (\<forall>f. (List.member (needs (step_kind s)) f \<longrightarrow> field_of f s \<noteq> []) \<and>
          (field_of f s \<noteq> [] \<longrightarrow> List.member (permits (step_kind s)) f))"
  unfolding wf_step_def set_fields_between by simp

lemma post_init_wf: "base_step_post_init s = Inr s' \<longleftrightarrow> s' = s \<and> wf_step s"
proof -
  have "base_step_post_init s = Inr s' \<longleftrightarrow>
      list_all (\<lambda>g. \<not> fst g) (common_guards s) \<and>
      list_all (\<lambda>g. \<not> fst g) (kind_guards (step_kind s) s) \<and>
      expectation_of (step_expected_result s) \<noteq> None \<and> s' = s"
    by (auto simp: base_step_post_init_def rbind_eq_Inr validate_expected_iff)
  also have "\<dots> \<longleftrightarrow> s' = s \<and> wf_step s"
    by (auto simp: common_guards_def wf_step_def kind_guards_iff)
  finally show ?thesis .
qed

text \<open>
  C39: the validation in \<^verbatim>\<open>BaseStep.__post_init__\<close> accepts exactly the well-formed steps: a
  name, a known type and kind, a positive timeout, an expected result that denotes an
  expectation, every field the kind needs and no field it does not permit. An accepted step
  is returned unchanged.
\<close>

theorem base_step_accepts_iff:
  "(base_step_post_init s = Inr s') =
     (s' = s \<and> step_name s \<noteq> [] \<and> \<not> is_other_severity (step_type s) \<and>
      \<not> is_other_kind (step_kind s) \<and> 0 < step_timeout s \<and>
      expectation_of (step_expected_result s) \<noteq> None \<and>
      set (needs (step_kind s)) \<subseteq> set_fields s \<and>
      set_fields s \<subseteq> set (permits (step_kind s)))"
  by (simp add: post_init_wf wf_step_def)

lemma field_of_hints [simp]: "field_of f (s\<lparr>step_hints := h\<rparr>) = field_of f s"
  by (cases f) simp_all

lemma with_hint_wf: "with_hint m p t = Inr s \<Longrightarrow> m = Inr s' \<Longrightarrow> wf_step s' \<Longrightarrow> wf_step s"
  by (auto simp: with_hint_def add_hint_def wf_step_def set_fields_def all_step_fields)

text \<open>When the factories accept: the conditions each puts on its own arguments.\<close>

definition common_ok :: "string \<Rightarrow> severity \<Rightarrow> string \<Rightarrow> int \<Rightarrow> bool" where
  "common_ok name typ er tmo \<longleftrightarrow>
     name \<noteq> [] \<and> \<not> is_other_severity typ \<and> 0 < tmo \<and> expectation_of er \<noteq> None"

lemma default_expectation [simp]: "expectation_of default_expected_result = Some (ExitCode 0)"
  unfolding default_expected_result_def by code_simp

lemma factory_accepts:
  assumes "common_ok name typ er tmo"
  shows
    "command \<noteq> [] \<Longrightarrow> for_host name typ command er tmo
       = Inr ((sf_common (mk_factory name typ er tmo) Host)\<lparr>step_command := command\<rparr>)"
    "command \<noteq> [] \<Longrightarrow> for_guest name typ command er tmo
       = Inr ((sf_common (mk_factory name typ er tmo) Guest)\<lparr>step_command := command\<rparr>)"
    "for_vm_launch name typ er tmo gid
       = Inr ((sf_common (mk_factory name typ er tmo) VmLaunch)\<lparr>step_guest_id := gid\<rparr>)"
    "for_vm_stop name typ er tmo = Inr (sf_common (mk_factory name typ er tmo) VmStop)"
    "src \<noteq> [] \<Longrightarrow> dest \<noteq> [] \<Longrightarrow> for_guest_pull name typ src dest er tmo
       = Inr ((sf_common (mk_factory name typ er tmo) GuestPull)\<lparr>step_guest_src := src, step_host_dest := dest\<rparr>)"
    "handler \<noteq> [] \<Longrightarrow> for_callable name typ handler er tmo
       = Inr ((sf_common (mk_factory name typ er tmo) Callable)\<lparr>step_handler := handler\<rparr>)"
  using assms
  by (simp_all add: for_host_def for_guest_def for_vm_launch_def for_vm_stop_def for_guest_pull_def
      for_callable_def sf_host_def sf_guest_def sf_vm_launch_def sf_vm_stop_def sf_guest_pull_def
      sf_call_def post_init_wf wf_step_eval all_step_fields sf_common_def mk_factory_def common_ok_def
      is_other_kind_def)

lemma with_hint_Inr [simp]: "with_hint (Inr b) p t = Inr (add_hint p t b)"
  by (simp add: with_hint_def)

section \<open>The level list\<close>

lemma collect_levels_eq:
  "collect_levels seen acc ts
     = acc @ dedup_from seen (filter (\<lambda>l. l \<noteq> []) (map test_level ts))"
  by (induction seen acc ts rule: collect_levels.induct) auto

definition declared_levels :: "test_definition list \<Rightarrow> string list" where
  "declared_levels ts = dedup (filter (\<lambda>l. l \<noteq> []) (map test_level ts))"

lemma collect_levels_declared: "collect_levels [] [] ts = declared_levels ts"
  by (simp add: collect_levels_eq declared_levels_def dedup_def)

lemma set_declared_levels: "set (declared_levels ts) = {test_level t |t. t \<in> set ts \<and> test_level t \<noteq> []}"
  by (auto simp: declared_levels_def)

lemma distinct_declared_levels [simp]: "distinct (declared_levels ts)"
  by (simp add: declared_levels_def)

lemma declared_levels_Nil [simp]: "declared_levels [] = []"
  by (simp add: declared_levels_def dedup_def)

text \<open>The fields \<^verbatim>\<open>__post_init__\<close> leaves alone, and what it establishes about the cap.\<close>

lemma certification_post_init_Inr:
  assumes "certification_post_init c = Inr c'"
  shows "cert_version c' = cert_version c" "cert_tests c' = cert_tests c"
    "cert_description c' = cert_description c" "cert_max_level c' = cert_max_level c"
    "cert_version c \<noteq> []"
    "cert_all_levels c' = (if cert_all_levels c = [] then declared_levels (cert_tests c)
                           else cert_all_levels c)"
    "cert_max_level c' = Some m \<Longrightarrow> cert_all_levels c' = [] \<or> m \<in> set (cert_all_levels c')"
  using assms
  by (auto simp: certification_post_init_def collect_levels_declared Let_def
      split: if_splits option.splits)

end
