(* ===== verification/Effects.thy ===== *)
theory Effects
  imports PyBytes
begin

text \<open>
  Effects. A computation that reads and changes a state and may raise is a function from the
  state to the outcome and the state it leaves behind: an exception does not undo what was
  done before it. The same combinators serve for the machine (\<open>World\<close>), for a step handler
  (which also mutates its context) and for the loop of \<^verbatim>\<open>execute_test\<close>.

  \<open>keeps I m\<close> says that \<open>m\<close> preserves the property \<open>I\<close> of the state, whatever its outcome; its
  rules are the collection \<open>keeps_intro\<close>.
\<close>

type_synonym ('s, 'a) io = "'s \<Rightarrow> (exc + 'a) \<times> 's"

named_theorems keeps_intro \<open>introduction rules for \<open>keeps\<close>\<close>

section \<open>Combinators\<close>

definition iret :: "'a \<Rightarrow> ('s, 'a) io" where
  [io_defs]: "iret x s = (Inr x, s)"

definition ithrow :: "exc \<Rightarrow> ('s, 'a) io" where
  [io_defs]: "ithrow e s = (Inl e, s)"

definition ilift :: "exc + 'a \<Rightarrow> ('s, 'a) io" where
  [io_defs]: "ilift r s = (r, s)"

definition iget :: "('s \<Rightarrow> 'a) \<Rightarrow> ('s, 'a) io" where
  [io_defs]: "iget f s = (Inr (f s), s)"

text \<open>A question to the state that may raise and changes nothing.\<close>

definition iask :: "('s \<Rightarrow> exc + 'a) \<Rightarrow> ('s, 'a) io" where
  [io_defs]: "iask f s = (f s, s)"

definition imodify :: "('s \<Rightarrow> 's) \<Rightarrow> ('s, unit) io" where
  [io_defs]: "imodify f s = (Inr (), f s)"

definition ibind :: "('s, 'a) io \<Rightarrow> ('a \<Rightarrow> ('s, 'b) io) \<Rightarrow> ('s, 'b) io" where
  [io_defs]: "ibind m f s = (case m s of (Inl e, s') \<Rightarrow> (Inl e, s') | (Inr x, s') \<Rightarrow> f x s')"

definition iseq :: "('s, 'a) io \<Rightarrow> ('s, 'b) io \<Rightarrow> ('s, 'b) io" where
  [io_defs]: "iseq m n = ibind m (\<lambda>_. n)"

text \<open>\<^verbatim>\<open>try: m  except C as e: h(e)\<close>, \<^verbatim>\<open>except Exception\<close>, and \<^verbatim>\<open>finally\<close>.\<close>

definition itry :: "exc_class \<Rightarrow> ('s, 'a) io \<Rightarrow> (exc \<Rightarrow> ('s, 'a) io) \<Rightarrow> ('s, 'a) io" where
  [io_defs]: "itry c m h s =
     (case m s of (Inl e, s') \<Rightarrow> if is_a e c then h e s' else (Inl e, s') | r \<Rightarrow> r)"

definition itry_any :: "('s, 'a) io \<Rightarrow> (exc \<Rightarrow> ('s, 'a) io) \<Rightarrow> ('s, 'a) io" where
  [io_defs]: "itry_any m h s = (case m s of (Inl e, s') \<Rightarrow> h e s' | r \<Rightarrow> r)"

definition ifinally :: "('s, 'a) io \<Rightarrow> ('s, unit) io \<Rightarrow> ('s, 'a) io" where
  [io_defs]: "ifinally m c s =
     (case m s of (r, s1) \<Rightarrow> (case c s1 of (Inl e, s2) \<Rightarrow> (Inl e, s2) | (Inr _, s2) \<Rightarrow> (r, s2)))"

definition iwhen :: "bool \<Rightarrow> ('s, unit) io \<Rightarrow> ('s, unit) io" where
  [io_defs]: "iwhen b m = (if b then m else iret ())"

text \<open>\<^verbatim>\<open>for x in xs: f(x)\<close>\<close>

fun iforeach :: "'a list \<Rightarrow> ('a \<Rightarrow> ('s, unit) io) \<Rightarrow> ('s, unit) io" where
  "iforeach [] f = iret ()"
| "iforeach (x # xs) f = iseq (f x) (iforeach xs f)"

section \<open>Evaluation\<close>

lemma ibind_simps:
  "m s = (Inr x, s') \<Longrightarrow> ibind m f s = f x s'"
  "m s = (Inl e, s') \<Longrightarrow> ibind m f s = (Inl e, s')"
  by (simp_all add: ibind_def)

lemma run_simps [simp]:
  "iret x s = (Inr x, s)"
  "ithrow e s = (Inl e, s)"
  "ilift r s = (r, s)"
  "iget g s = (Inr (g s), s)"
  "iask k s = (k s, s)"
  "imodify h s = (Inr (), h s)"
  by (simp_all add: io_defs)

lemma bind_simps [simp]:
  "ibind (iret x) f1 s = f1 x s"
  "ibind (ithrow e) f2 s = (Inl e, s)"
  "ibind (ilift (Inr y)) f3 s = f3 y s"
  "ibind (ilift (Inl e)) f4 s = (Inl e, s)"
  "ibind (iget g) f5 s = f5 (g s) s"
  "ibind (imodify h) f6 s = f6 () (h s)"
  "iseq (imodify h) m s = m (h s)"
  by (simp_all add: io_defs)

lemma ibind_assoc: "ibind (ibind m f) g = ibind m (\<lambda>x. ibind (f x) g)"
  by (rule ext) (simp add: ibind_def split: prod.splits sum.splits)

lemma ibind_eq_Inr:
  "ibind m f s = (Inr y, t) \<longleftrightarrow> (\<exists>x s'. m s = (Inr x, s') \<and> f x s' = (Inr y, t))"
  by (auto simp: ibind_def split: prod.splits sum.splits)

lemma ibind_InrE:
  assumes "ibind m f s = (Inr y, t)"
  obtains x s' where "m s = (Inr x, s')" "f x s' = (Inr y, t)"
  using assms by (auto simp: ibind_eq_Inr)

lemma ibind_eq_Inl:
  "ibind m f s = (Inl e, t) \<longleftrightarrow>
     m s = (Inl e, t) \<or> (\<exists>x s'. m s = (Inr x, s') \<and> f x s' = (Inl e, t))"
  by (auto simp: ibind_def split: prod.splits sum.splits)

lemma itry_Inr: "m s = (Inr x, s') \<Longrightarrow> itry c m h s = (Inr x, s')"
  by (simp add: itry_def)

section \<open>Invariants of the state\<close>

definition keeps :: "('s \<Rightarrow> bool) \<Rightarrow> ('s, 'a) io \<Rightarrow> bool" where
  "keeps I m \<longleftrightarrow> (\<forall>s. I s \<longrightarrow> I (snd (m s)))"

lemma keeps_alt: "keeps I m \<longleftrightarrow> (\<forall>s r s'. I s \<longrightarrow> m s = (r, s') \<longrightarrow> I s')"
  unfolding keeps_def by (metis prod.collapse snd_conv)

lemma keepsD: "keeps I m \<Longrightarrow> I s \<Longrightarrow> I (snd (m s))"
  by (simp add: keeps_def)

lemma keeps_run: "keeps I m \<Longrightarrow> m s = (r, s') \<Longrightarrow> I s \<Longrightarrow> I s'"
  by (metis keeps_def snd_conv)

lemma keeps_pure [keeps_intro]:
  "keeps I (iret x)" "keeps I (ithrow e)" "keeps I (ilift r)" "keeps I (iget f)"
  "keeps I (iask g)"
  by (simp_all add: keeps_def iret_def ithrow_def ilift_def iget_def iask_def)

lemma keeps_imodify [keeps_intro]: "(\<And>s. I s \<Longrightarrow> I (f s)) \<Longrightarrow> keeps I (imodify f)"
  by (simp add: keeps_def)

lemma keeps_ibind [keeps_intro]: "keeps I m \<Longrightarrow> (\<And>x. keeps I (f x)) \<Longrightarrow> keeps I (ibind m f)"
proof (unfold keeps_def, intro allI impI)
  fix s assume I: "I s" and m: "\<forall>s. I s \<longrightarrow> I (snd (m s))" and f: "\<And>x. \<forall>s. I s \<longrightarrow> I (snd (f x s))"
  obtain r s' where e: "m s = (r, s')" by (cases "m s")
  with m I have "I s'" by (metis snd_conv)
  with e f show "I (snd (ibind m f s))" by (cases r) (simp_all add: ibind_def)
qed

lemma keeps_iseq [keeps_intro]: "keeps I m \<Longrightarrow> keeps I n \<Longrightarrow> keeps I (iseq m n)"
  unfolding iseq_def by (rule keeps_ibind)

lemma keeps_itry [keeps_intro]:
  "keeps I m \<Longrightarrow> (\<And>e. keeps I (h e)) \<Longrightarrow> keeps I (itry c m h)"
proof (unfold keeps_def, intro allI impI)
  fix s assume I: "I s" and m: "\<forall>s. I s \<longrightarrow> I (snd (m s))" and h: "\<And>e. \<forall>s. I s \<longrightarrow> I (snd (h e s))"
  obtain r s' where e: "m s = (r, s')" by (cases "m s")
  with m I have "I s'" by (metis snd_conv)
  with e h show "I (snd (itry c m h s))" by (cases r) (simp_all add: itry_def)
qed

lemma keeps_itry_any [keeps_intro]:
  "keeps I m \<Longrightarrow> (\<And>e. keeps I (h e)) \<Longrightarrow> keeps I (itry_any m h)"
proof (unfold keeps_def, intro allI impI)
  fix s assume I: "I s" and m: "\<forall>s. I s \<longrightarrow> I (snd (m s))" and h: "\<And>e. \<forall>s. I s \<longrightarrow> I (snd (h e s))"
  obtain r s' where e: "m s = (r, s')" by (cases "m s")
  with m I have "I s'" by (metis snd_conv)
  with e h show "I (snd (itry_any m h s))" by (cases r) (simp_all add: itry_any_def)
qed

lemma keeps_ifinally [keeps_intro]: "keeps I m \<Longrightarrow> keeps I c \<Longrightarrow> keeps I (ifinally m c)"
proof (unfold keeps_def, intro allI impI)
  fix s assume I: "I s" and m: "\<forall>s. I s \<longrightarrow> I (snd (m s))" and c: "\<forall>s. I s \<longrightarrow> I (snd (c s))"
  obtain r s1 where e: "m s = (r, s1)" by (cases "m s")
  obtain q s2 where e2: "c s1 = (q, s2)" by (cases "c s1")
  from m I e have "I s1" by (metis snd_conv)
  with c e2 have "I s2" by (metis snd_conv)
  with e e2 show "I (snd (ifinally m c s))" by (cases q) (simp_all add: ifinally_def)
qed

lemma keeps_iwhen [keeps_intro]: "keeps I m \<Longrightarrow> keeps I (iwhen b m)"
  by (simp add: iwhen_def keeps_pure)

lemma keeps_if [keeps_intro]: "keeps I m \<Longrightarrow> keeps I n \<Longrightarrow> keeps I (if b then m else n)"
  by simp

lemma keeps_iforeach [keeps_intro]: "(\<And>x. keeps I (f x)) \<Longrightarrow> keeps I (iforeach xs f)"
  by (induction xs) (simp_all add: keeps_pure keeps_iseq)

lemma keeps_option [keeps_intro]:
  "keeps I m \<Longrightarrow> (\<And>x. keeps I (f x)) \<Longrightarrow> keeps I (case v of None \<Rightarrow> m | Some x \<Rightarrow> f x)"
  by (cases v) simp_all

lemma keeps_sum [keeps_intro]:
  "(\<And>x. keeps I (f x)) \<Longrightarrow> (\<And>x. keeps I (g x)) \<Longrightarrow> keeps I (case v of Inl x \<Rightarrow> f x | Inr x \<Rightarrow> g x)"
  by (cases v) simp_all

lemma keeps_prod [keeps_intro]:
  "(\<And>x y. keeps I (f x y)) \<Longrightarrow> keeps I (case v of (x, y) \<Rightarrow> f x y)"
  by (cases v) simp_all

section \<open>Properties of returned values\<close>

text \<open>\<open>returns Q m\<close>: when \<open>m\<close> returns, the value satisfies \<open>Q\<close>.\<close>

named_theorems returns_intro \<open>introduction rules for \<open>returns\<close>\<close>

definition returns :: "('a \<Rightarrow> bool) \<Rightarrow> ('s, 'a) io \<Rightarrow> bool" where
  "returns Q m \<longleftrightarrow> (\<forall>s x s'. m s = (Inr x, s') \<longrightarrow> Q x)"

lemma returnsD: "returns Q m \<Longrightarrow> m s = (Inr x, s') \<Longrightarrow> Q x"
  by (auto simp: returns_def)

lemma returns_iret [returns_intro]: "Q x \<Longrightarrow> returns Q (iret x)"
  by (simp add: returns_def)

lemma returns_ithrow [returns_intro]: "returns Q (ithrow e)"
  by (simp add: returns_def)

lemma returns_ibind_via:
  "returns P m \<Longrightarrow> (\<And>x. P x \<Longrightarrow> returns Q (f x)) \<Longrightarrow> returns Q (ibind m f)"
  unfolding returns_def ibind_eq_Inr by blast

lemma returns_ibind [returns_intro]: "(\<And>x. returns Q (f x)) \<Longrightarrow> returns Q (ibind m f)"
  unfolding returns_def ibind_eq_Inr by blast

lemma returns_iseq [returns_intro]: "returns Q n \<Longrightarrow> returns Q (iseq m n)"
  unfolding iseq_def by (rule returns_ibind)

lemma returns_itry [returns_intro]:
  "returns Q m \<Longrightarrow> (\<And>e. returns Q (h e)) \<Longrightarrow> returns Q (itry c m h)"
  unfolding returns_def itry_def by (auto split: prod.splits sum.splits if_splits)

lemma returns_ifinally [returns_intro]: "returns Q m \<Longrightarrow> returns Q (ifinally m c)"
  unfolding returns_def ifinally_def by (auto split: prod.splits sum.splits)

lemma returns_if [returns_intro]: "returns Q m \<Longrightarrow> returns Q n \<Longrightarrow> returns Q (if b then m else n)"
  by simp

lemma returns_option [returns_intro]:
  "returns Q m \<Longrightarrow> (\<And>x. returns Q (f x)) \<Longrightarrow> returns Q (case v of None \<Rightarrow> m | Some x \<Rightarrow> f x)"
  by (cases v) simp_all

lemma returns_prod [returns_intro]:
  "(\<And>x y. returns Q (f x y)) \<Longrightarrow> returns Q (case v of (x, y) \<Rightarrow> f x y)"
  by (cases v) simp_all

section \<open>Invariants of a computation that returns, and exceptions it never raises\<close>

text \<open>\<open>kept I m\<close>: \<open>I\<close> survives a run of \<open>m\<close> that returns; \<open>never C m\<close>: no exception of class \<open>C\<close>.\<close>

named_theorems kept_intro \<open>introduction rules for \<open>kept\<close>\<close>
named_theorems never_intro \<open>introduction rules for \<open>never\<close>\<close>

definition kept :: "('s \<Rightarrow> bool) \<Rightarrow> ('s, 'a) io \<Rightarrow> bool" where
  "kept I m \<longleftrightarrow> (\<forall>s x s'. I s \<longrightarrow> m s = (Inr x, s') \<longrightarrow> I s')"

definition never :: "exc_class \<Rightarrow> ('s, 'a) io \<Rightarrow> bool" where
  "never c m \<longleftrightarrow> (\<forall>s e s'. m s = (Inl e, s') \<longrightarrow> \<not> is_a e c)"

lemma keptD: "kept I m \<Longrightarrow> m s = (Inr x, s') \<Longrightarrow> I s \<Longrightarrow> I s'"
  by (simp add: kept_def)

lemma keeps_kept: "keeps I m \<Longrightarrow> kept I m"
  using keeps_run by (fastforce simp: kept_def)

lemma kept_ibind [kept_intro]: "kept I m \<Longrightarrow> (\<And>x. kept I (f x)) \<Longrightarrow> kept I (ibind m f)"
  unfolding kept_def ibind_eq_Inr by blast

lemma kept_iseq [kept_intro]: "kept I m \<Longrightarrow> kept I n \<Longrightarrow> kept I (iseq m n)"
  unfolding iseq_def by (rule kept_ibind)

lemma kept_if [kept_intro]: "kept I m \<Longrightarrow> kept I n \<Longrightarrow> kept I (if b then m else n)"
  by simp

lemma kept_option [kept_intro]:
  "kept I m \<Longrightarrow> (\<And>x. kept I (f x)) \<Longrightarrow> kept I (case v of None \<Rightarrow> m | Some x \<Rightarrow> f x)"
  by (cases v) simp_all

lemma kept_prod [kept_intro]: "(\<And>x y. kept I (f x y)) \<Longrightarrow> kept I (case v of (x, y) \<Rightarrow> f x y)"
  by (cases v) simp_all

lemma neverD: "never c m \<Longrightarrow> m s = (Inl e, s') \<Longrightarrow> \<not> is_a e c"
  unfolding never_def by blast

lemma never_pure [never_intro]:
  "never c (iret x)" "never c (iget g)" "never c (imodify h)"
  "\<not> is_a e c \<Longrightarrow> never c (ithrow e)"
  "(\<And>e. r = Inl e \<Longrightarrow> \<not> is_a e c) \<Longrightarrow> never c (ilift r)"
  by (auto simp: never_def)

lemma never_ibind [never_intro]: "never c m \<Longrightarrow> (\<And>x. never c (f x)) \<Longrightarrow> never c (ibind m f)"
  unfolding never_def ibind_eq_Inl by blast

lemma never_iseq [never_intro]: "never c m \<Longrightarrow> never c n \<Longrightarrow> never c (iseq m n)"
  unfolding iseq_def by (rule never_ibind)

lemma never_itry [never_intro]: "never c m \<Longrightarrow> (\<And>e. never c (h e)) \<Longrightarrow> never c (itry d m h)"
  unfolding never_def itry_def by (auto split: prod.splits sum.splits if_splits)

lemma never_ifinally [never_intro]: "never c m \<Longrightarrow> never c n \<Longrightarrow> never c (ifinally m n)"
proof (unfold never_def, intro allI impI)
  fix s e s'
  assume m: "\<forall>s e s'. m s = (Inl e, s') \<longrightarrow> \<not> is_a e c" and n: "\<forall>s e s'. n s = (Inl e, s') \<longrightarrow> \<not> is_a e c"
    and f: "ifinally m n s = (Inl e, s')"
  obtain r s1 where 1: "m s = (r, s1)" by (cases "m s")
  obtain q s2 where 2: "n s1 = (q, s2)" by (cases "n s1")
  show "\<not> is_a e c"
    using f 1 2 m [rule_format, of s] n [rule_format, of s1] by (cases q; simp add: ifinally_def)
qed

lemma never_iwhen [never_intro]: "never c m \<Longrightarrow> never c (iwhen b m)"
  by (simp add: iwhen_def never_pure)

lemma never_if [never_intro]: "never c m \<Longrightarrow> never c n \<Longrightarrow> never c (if b then m else n)"
  by simp

lemma never_option [never_intro]:
  "never c m \<Longrightarrow> (\<And>x. never c (f x)) \<Longrightarrow> never c (case v of None \<Rightarrow> m | Some x \<Rightarrow> f x)"
  by (cases v) simp_all

lemma never_prod [never_intro]: "(\<And>x y. never c (f x y)) \<Longrightarrow> never c (case v of (x, y) \<Rightarrow> f x y)"
  by (cases v) simp_all

section \<open>Computations that always return\<close>

text \<open>\<open>settles m\<close>: whatever the machine does, \<open>m\<close> returns.\<close>

named_theorems settles_intro \<open>introduction rules for \<open>settles\<close>\<close>

definition settles :: "('s, 'a) io \<Rightarrow> bool" where
  "settles m \<longleftrightarrow> (\<forall>s. \<exists>x s'. m s = (Inr x, s'))"

lemma settlesD: "settles m \<Longrightarrow> \<exists>x s'. m s = (Inr x, s')"
  by (simp add: settles_def)

lemma settles_pure [settles_intro]: "settles (iret x)" "settles (iget g)"
  by (simp_all add: settles_def)

lemma settles_ibind [settles_intro]: "settles m \<Longrightarrow> (\<And>x. settles (f x)) \<Longrightarrow> settles (ibind m f)"
  unfolding settles_def ibind_eq_Inr by blast

lemma settles_iseq [settles_intro]: "settles m \<Longrightarrow> settles n \<Longrightarrow> settles (iseq m n)"
  unfolding iseq_def by (rule settles_ibind)

lemma settles_ifinally [settles_intro]: "settles m \<Longrightarrow> settles n \<Longrightarrow> settles (ifinally m n)"
  unfolding settles_def ifinally_def by (auto split: prod.splits sum.splits) (metis Pair_inject sum.distinct(1))+

lemma settles_itry_any [settles_intro]: "(\<And>e. settles (h e)) \<Longrightarrow> settles (itry_any m h)"
  unfolding settles_def itry_any_def by (auto split: prod.splits sum.splits)

lemma settles_if [settles_intro]: "settles m \<Longrightarrow> settles n \<Longrightarrow> settles (if b then m else n)"
  by simp

lemma settles_option [settles_intro]:
  "settles m \<Longrightarrow> (\<And>x. settles (f x)) \<Longrightarrow> settles (case v of None \<Rightarrow> m | Some x \<Rightarrow> f x)"
  by (cases v) simp_all

end
