(* ===== verification/World.thy ===== *)
theory World
  imports Effects
begin

text \<open>
  The machine the harness runs on. The language's own library is modelled: paths
  (\<^verbatim>\<open>pathlib.PurePosixPath\<close>), files and directories, the monotonic clock, \<^verbatim>\<open>sleep\<close>, standard
  output. What lies outside the repository, the processes it starts (QEMU, \<^verbatim>\<open>snphost\<close>,
  \<^verbatim>\<open>snpguest\<close>), the sockets to the guest, the generated UUIDs, is the parameter \<open>'e ops\<close>: each
  operation acts on the whole world, so a command may change any file. \<open>ext\<close> adds the one law
  of \<^verbatim>\<open>time.monotonic\<close>: the clock never goes back.

  The clock counts microseconds; permissions and a full disk are not modelled.
\<close>

section \<open>Paths\<close>

text \<open>The root (empty, one slash, or exactly two slashes) and the components.\<close>

datatype path = Path (path_root: string) (path_parts: "string list")

definition path_of :: "string \<Rightarrow> path" where
  "path_of s =
     (let root = (if startswith s ''//'' \<and> \<not> startswith s ''///'' then ''//''
                  else if startswith s ''/'' then ''/'' else [])
      in Path root (filter (\<lambda>c. c \<noteq> [] \<and> c \<noteq> ''.'') (split_on CHR ''/'' s)))"

definition path_str :: "path \<Rightarrow> string" where
  "path_str p = (if path_root p = [] \<and> path_parts p = [] then ''.''
     else path_root p @ join ''/'' (path_parts p))"

definition is_absolute :: "path \<Rightarrow> bool" where
  "is_absolute p = (path_root p \<noteq> [])"

text \<open>\<^verbatim>\<open>p / q\<close>, \<^verbatim>\<open>p / "s"\<close>, \<^verbatim>\<open>p.parent\<close>, \<^verbatim>\<open>p.name\<close>\<close>

definition path_join :: "path \<Rightarrow> path \<Rightarrow> path" where
  "path_join p q = (if is_absolute q then q else Path (path_root p) (path_parts p @ path_parts q))"

definition path_sub :: "path \<Rightarrow> string \<Rightarrow> path" where
  "path_sub p s = path_join p (path_of s)"

definition path_parent :: "path \<Rightarrow> path" where
  "path_parent p = Path (path_root p) (butlast (path_parts p))"

definition path_name :: "path \<Rightarrow> string" where
  "path_name p = (if path_parts p = [] then [] else last (path_parts p))"

fun path_prefixes :: "path \<Rightarrow> path list" where
  "path_prefixes (Path r ps) = map (\<lambda>i. Path r (take i ps)) [0..<Suc (length ps)]"

section \<open>The state\<close>

text \<open>
  \<open>w_environment\<close> is the dictionary of detected versions that \<^verbatim>\<open>main\<close> passes down by
  reference and \<^verbatim>\<open>update_environment_with_guest_os\<close> fills in.
\<close>

record 'e world =
  w_files :: "path \<Rightarrow> bytes option"
  w_dirs :: "path \<Rightarrow> bool"
  w_clock :: int
  w_out :: "string list"
  w_err :: "string list"
  w_environment :: "(string \<times> string option) list option"
  w_ext :: 'e

datatype cmdline = Argv "string list" | Shell string

record completed =
  cp_returncode :: int
  cp_stdout :: string
  cp_stderr :: string

text \<open>
  \<open>op_run\<close> is \<^verbatim>\<open>subprocess.run\<close> with the variables added to the environment and the timeout;
  it may raise \<^verbatim>\<open>TimeoutExpired\<close> or an \<^verbatim>\<open>OSError\<close>. The next five act on the process
  \<^verbatim>\<open>Popen\<close> returned, the following four on a socket.
\<close>

record 'e ops =
  op_run :: "cmdline \<Rightarrow> (string \<times> string) list \<Rightarrow> int option \<Rightarrow> ('e world, completed) io"
  op_popen :: "string list \<Rightarrow> path \<Rightarrow> ('e world, int) io"
  op_poll :: "int \<Rightarrow> ('e world, int option) io"
  op_terminate :: "int \<Rightarrow> ('e world, unit) io"
  op_kill :: "int \<Rightarrow> ('e world, unit) io"
  op_wait :: "int \<Rightarrow> int \<Rightarrow> ('e world, unit) io"
  op_os_kill :: "int \<Rightarrow> int \<Rightarrow> ('e world, unit) io"
  op_connect :: "int \<Rightarrow> int \<Rightarrow> int \<Rightarrow> ('e world, nat) io"
  op_sendall :: "nat \<Rightarrow> bytes \<Rightarrow> ('e world, unit) io"
  op_recv :: "nat \<Rightarrow> ('e world, bytes) io"
  op_close :: "nat \<Rightarrow> ('e world, unit) io"
  op_uuid4 :: "('e world, string) io"
  op_utcnow :: "('e world, string) io"
  op_sleep :: "int \<Rightarrow> ('e world, unit) io"
  op_is_tty :: bool
  op_float_int :: "string \<Rightarrow> exc + int"
  op_float_str :: "string \<Rightarrow> string"

text \<open>An external operation cannot turn the clock back.\<close>

definition ext :: "('e world, 'a) io \<Rightarrow> ('e world, 'a) io" where
  [io_defs]: "ext m w = (case m w of (r, w') \<Rightarrow> (r, w'\<lparr>w_clock := max (w_clock w) (w_clock w')\<rparr>))"

text \<open>\<^verbatim>\<open>time.sleep(us)\<close> returns no earlier than asked.\<close>

definition sleep :: "'e ops \<Rightarrow> int \<Rightarrow> ('e world, unit) io" where
  [io_defs]: "sleep ops us w = (case op_sleep ops us w of (r, w') \<Rightarrow>
     (r, w'\<lparr>w_clock := max (w_clock w + us) (w_clock w')\<rparr>))"

definition now :: "('e world, int) io" where
  [io_defs]: "now = iget w_clock"

text \<open>\<^verbatim>\<open>int((time.monotonic() - start) * 1000)\<close>\<close>

definition elapsed_ms :: "int \<Rightarrow> ('e world, int) io" where
  [io_defs]: "elapsed_ms start = iget (\<lambda>w. (w_clock w - start) div 1000)"

text \<open>\<^verbatim>\<open>print(msg, end=end, flush=True)\<close>\<close>

definition flush_end :: "string \<Rightarrow> string \<Rightarrow> ('e world, unit) io" where
  [io_defs]: "flush_end msg end_text = imodify (\<lambda>w. w\<lparr>w_out := w_out w @ [msg @ end_text]\<rparr>)"

definition flush_line :: "string \<Rightarrow> ('e world, unit) io" where
  [io_defs]: "flush_line msg = flush_end msg nl"

text \<open>\<^verbatim>\<open>print(msg, file=sys.stderr)\<close>\<close>

definition print_err :: "string \<Rightarrow> ('e world, unit) io" where
  [io_defs]: "print_err msg = imodify (\<lambda>w. w\<lparr>w_err := w_err w @ [msg @ nl]\<rparr>)"

section \<open>Files\<close>

definition is_file :: "path \<Rightarrow> 'e world \<Rightarrow> bool" where
  "is_file p w = (w_files w p \<noteq> None)"

definition path_exists :: "path \<Rightarrow> 'e world \<Rightarrow> bool" where
  "path_exists p w = (w_files w p \<noteq> None \<or> w_dirs w p)"

definition read_bytes :: "path \<Rightarrow> ('e world, bytes) io" where
  [io_defs]: "read_bytes p w =
     (case w_files w p of
        Some b \<Rightarrow> (Inr b, w)
      | None \<Rightarrow>
          if w_dirs w p then (raise OSError (''[Errno 21] Is a directory: '' @ repr_str (path_str p)), w)
          else (raise FileNotFoundError
                  (''[Errno 2] No such file or directory: '' @ repr_str (path_str p)), w))"

text \<open>\<^verbatim>\<open>open(p, "wb")\<close> and writing, or appending.\<close>

definition open_error :: "path \<Rightarrow> 'e world \<Rightarrow> exc option" where
  "open_error p w =
     (if w_dirs w p then Some (Exc OSError (''[Errno 21] Is a directory: '' @ repr_str (path_str p)))
      else if \<not> w_dirs w (path_parent p) then Some (Exc FileNotFoundError
        (''[Errno 2] No such file or directory: '' @ repr_str (path_str p)))
      else None)"

definition write_bytes :: "path \<Rightarrow> bytes \<Rightarrow> ('e world, unit) io" where
  [io_defs]: "write_bytes p b w =
     (case open_error p w of Some e \<Rightarrow> (Inl e, w)
      | None \<Rightarrow> (Inr (), w\<lparr>w_files := (w_files w)(p \<mapsto> b)\<rparr>))"

definition append_bytes :: "path \<Rightarrow> bytes \<Rightarrow> ('e world, unit) io" where
  [io_defs]: "append_bytes p b w =
     (case open_error p w of Some e \<Rightarrow> (Inl e, w)
      | None \<Rightarrow> (Inr (), w\<lparr>w_files := (w_files w)
          (p \<mapsto> (case w_files w p of None \<Rightarrow> b | Some b0 \<Rightarrow> b0 @ b))\<rparr>))"

text \<open>\<^verbatim>\<open>p.mkdir(parents=True, exist_ok=True)\<close>\<close>

definition mkdir_parents :: "path \<Rightarrow> ('e world, unit) io" where
  [io_defs]: "mkdir_parents p w =
     (if list_ex (\<lambda>q. w_files w q \<noteq> None) (path_prefixes p) then
        (raise OSError (''[Errno 17] File exists: '' @ repr_str (path_str p)), w)
      else (Inr (), w\<lparr>w_dirs := (\<lambda>q. w_dirs w q \<or> List.member (path_prefixes p) q)\<rparr>))"

text \<open>
  A machine on which nothing happens, to build concrete instances from: commands succeed
  without output, there is no guest to connect to, the process started keeps running.
\<close>

definition idle_ops :: "'e ops" where
  "idle_ops =
     \<lparr>op_run = (\<lambda>args env timeout. iret \<lparr>cp_returncode = 0, cp_stdout = [], cp_stderr = []\<rparr>),
      op_popen = (\<lambda>args err. iret 4242), op_poll = (\<lambda>i. iret None),
      op_terminate = (\<lambda>i. iret ()), op_kill = (\<lambda>i. iret ()), op_wait = (\<lambda>i t. iret ()),
      op_os_kill = (\<lambda>i s. iret ()),
      op_connect = (\<lambda>cid port t. ithrow (Exc OSError ''No such device'')),
      op_sendall = (\<lambda>i b. iret ()), op_recv = (\<lambda>i. iret []), op_close = (\<lambda>i. iret ()),
      op_uuid4 = iret ''00000000-0000-4000-8000-000000000000'',
      op_utcnow = iret ''2026-01-01T00:00:00+00:00'', op_sleep = (\<lambda>us. iret ()),
      op_is_tty = False, op_float_int = (\<lambda>t. raise ValueError t), op_float_str = (\<lambda>t. t)\<rparr>"

definition empty_world :: "'e \<Rightarrow> 'e world" where
  "empty_world x =
     \<lparr>w_files = (\<lambda>_. None), w_dirs = (\<lambda>_. False), w_clock = 0, w_out = [], w_err = [],
      w_environment = None, w_ext = x\<rparr>"

section \<open>Laws\<close>

lemma flush_run:
  "flush_end msg e w = (Inr (), w\<lparr>w_out := w_out w @ [msg @ e]\<rparr>)"
  "flush_line msg w = (Inr (), w\<lparr>w_out := w_out w @ [msg @ nl]\<rparr>)"
  by (simp_all add: flush_line_def flush_end_def)

lemma path_of_str_parts:
  "path_parts (path_of s) = filter (\<lambda>c. c \<noteq> [] \<and> c \<noteq> ''.'') (split_on CHR ''/'' s)"
  by (simp add: path_of_def Let_def)

lemma path_sub_relative:
  "\<not> startswith s ''/'' \<Longrightarrow> path_sub p s = Path (path_root p) (path_parts p @ path_parts (path_of s))"
  by (auto simp: path_sub_def path_join_def is_absolute_def path_of_def Let_def startswith_iff)

lemma write_read:
  assumes "write_bytes p b w = (Inr u, w')"
  shows "read_bytes p w' = (Inr b, w')"
  using assms by (auto simp: write_bytes_def read_bytes_def split: option.splits)

lemma write_bytes_other:
  "write_bytes p b w = (r, w') \<Longrightarrow> q \<noteq> p \<Longrightarrow> w_files w' q = w_files w q"
  by (auto simp: write_bytes_def split: option.splits)

lemma mkdir_then_dir:
  "mkdir_parents p w = (Inr u, w') \<Longrightarrow> w_dirs w' p"
  by (cases p) (auto simp: mkdir_parents_def image_iff split: if_splits)

section \<open>The clock\<close>

text \<open>Every operation of this theory leaves the clock where it is or moves it forward.\<close>

definition clock_from :: "int \<Rightarrow> 'e world \<Rightarrow> bool" where
  "clock_from t w = (t \<le> w_clock w)"

text \<open>
  Facts about the world that every primitive keeps hold for every computation built from
  them. A client states its invariant once, here, and every later theory adds the lemmas for
  its own operations. Starting a process is set apart: an invariant about the running
  processes is kept by everything else.
\<close>

locale quiet_world =
  fixes I :: "'e world \<Rightarrow> bool" and ops :: "'e ops"
  assumes inv_sleep: "0 \<le> us \<Longrightarrow> keeps I (sleep ops us)"
    and inv_out: "I w \<Longrightarrow> I (w\<lparr>w_out := out\<rparr>)"
    and inv_err: "I w \<Longrightarrow> I (w\<lparr>w_err := out\<rparr>)"
    and inv_files: "I w \<Longrightarrow> I (w\<lparr>w_files := fs\<rparr>)"
    and inv_dirs: "I w \<Longrightarrow> I (w\<lparr>w_dirs := ds\<rparr>)"
    and inv_environment: "I w \<Longrightarrow> I (w\<lparr>w_environment := env\<rparr>)"
    and inv_run: "keeps I (ext (op_run ops a b c))"
    and inv_poll: "keeps I (ext (op_poll ops i))"
    and inv_terminate: "keeps I (ext (op_terminate ops i))"
    and inv_kill: "keeps I (ext (op_kill ops i))"
    and inv_wait: "keeps I (ext (op_wait ops i j))"
    and inv_os_kill: "keeps I (ext (op_os_kill ops i j))"
    and inv_connect: "keeps I (ext (op_connect ops i j l))"
    and inv_sendall: "keeps I (ext (op_sendall ops n bs))"
    and inv_recv: "keeps I (ext (op_recv ops n))"
    and inv_close: "keeps I (ext (op_close ops n))"
    and inv_uuid4: "keeps I (ext (op_uuid4 ops))"
    and inv_utcnow: "keeps I (ext (op_utcnow ops))"
begin

lemmas inv_ops = inv_run inv_poll inv_terminate inv_kill inv_wait inv_os_kill
  inv_connect inv_sendall inv_recv inv_close inv_uuid4 inv_utcnow

lemma inv_flush_end: "keeps I (flush_end s e)"
  by (simp add: flush_end_def keeps_def inv_out)

lemma inv_flush: "keeps I (flush_line s)"
  by (simp add: flush_line_def inv_flush_end)

lemma inv_print_err: "keeps I (print_err s)"
  by (simp add: print_err_def keeps_def inv_err)

lemma inv_now: "keeps I now"
  by (simp add: now_def keeps_pure)

lemma inv_elapsed: "keeps I (elapsed_ms t)"
  by (simp add: elapsed_ms_def keeps_pure)

lemma inv_read: "keeps I (read_bytes p)"
  by (simp add: keeps_def read_bytes_def split: option.splits)

lemma inv_write: "keeps I (write_bytes p b)"
  by (simp add: keeps_def write_bytes_def inv_files split: option.splits)

lemma inv_append: "keeps I (append_bytes p b)"
  by (simp add: keeps_def append_bytes_def inv_files split: option.splits)

lemma inv_mkdir: "keeps I (mkdir_parents p)"
  by (simp add: keeps_def mkdir_parents_def inv_dirs)

lemmas inv_intro = inv_ops inv_flush inv_flush_end inv_print_err inv_now inv_elapsed inv_read inv_write inv_append inv_mkdir
  keeps_intro

end

locale world_invariant = quiet_world +
  assumes inv_popen: "keeps I (ext (op_popen ops args p))"

lemma clock_ext: "keeps (clock_from t) (ext m)"
  by (auto simp: keeps_def ext_def clock_from_def split: prod.splits)

interpretation clock: world_invariant "clock_from t" ops for t ops
  by unfold_locales
    (auto simp: clock_ext clock_from_def, auto simp: keeps_def sleep_def clock_from_def split: prod.splits)

end
