(* ===== verification/Shell.thy ===== *)
theory Shell
  imports PyStr
begin

text \<open>
  \<^verbatim>\<open>shlex.quote\<close> and \<^verbatim>\<open>shlex.join\<close>, which the program uses to log command lines and to name a
  guest file in a command, against an independent description of how a POSIX shell splits a
  line of plain words: \<open>sh_words\<close> gives no result when the line holds anything else than words
  (an expansion, an operator, a pattern, a comment), so a defined result means that the shell
  runs exactly those words.
\<close>

definition squote :: char where "squote = CHR 0x27"

text \<open>The characters \<^verbatim>\<open>shlex.quote\<close> leaves alone: \<^verbatim>\<open>[a-zA-Z0-9_@%+=:,./-]\<close>\<close>

definition sh_safe :: "char \<Rightarrow> bool" where
  "sh_safe c = (py_alnum c \<or> List.member ''_@%+=:,./-'' c)"

definition quote_body :: "string \<Rightarrow> string" where
  "quote_body s = concat (map (\<lambda>c. if c = squote then [squote, CHR 0x22, squote, CHR 0x22, squote]
                                   else [c]) s)"

definition shlex_quote :: "string \<Rightarrow> string" where
  "shlex_quote s =
     (if s = [] then [squote, squote]
      else if list_all sh_safe s then s
      else squote # quote_body s @ [squote])"

definition shlex_join :: "string list \<Rightarrow> string" where
  "shlex_join args = join '' '' (map shlex_quote args)"

section \<open>The shell's reading\<close>

datatype sh_mode = Between | InWord | InSingle | InDouble

fun sh_words :: "sh_mode \<Rightarrow> string \<Rightarrow> string \<Rightarrow> string list option" where
  "sh_words Between w [] = Some []"
| "sh_words InWord w [] = Some [w]"
| "sh_words InSingle w [] = None"
| "sh_words InDouble w [] = None"
| "sh_words Between w (c # s) =
     (if c = CHR '' '' then sh_words Between [] s
      else if c = squote then sh_words InSingle [] s
      else if c = CHR 0x22 then sh_words InDouble [] s
      else if sh_safe c then sh_words InWord [c] s
      else None)"
| "sh_words InWord w (c # s) =
     (if c = CHR '' '' then map_option ((#) w) (sh_words Between [] s)
      else if c = squote then sh_words InSingle w s
      else if c = CHR 0x22 then sh_words InDouble w s
      else if sh_safe c then sh_words InWord (w @ [c]) s
      else None)"
| "sh_words InSingle w (c # s) =
     (if c = squote then sh_words InWord w s else sh_words InSingle (w @ [c]) s)"
| "sh_words InDouble w (c # s) =
     (if c = CHR 0x22 then sh_words InWord w s
      else if List.member [CHR ''$'', CHR 0x60, CHR 0x5C] c then None
      else sh_words InDouble (w @ [c]) s)"

lemma sh_safe_plain: "sh_safe c \<Longrightarrow> c \<noteq> CHR '' '' \<and> c \<noteq> squote \<and> c \<noteq> CHR 0x22"
  by (auto simp: sh_safe_def squote_def py_alnum_def py_digit_def py_alpha_def code_of_def Let_def)

lemma sh_words_safe:
  "list_all sh_safe s \<Longrightarrow> sh_words InWord w (s @ t) = sh_words InWord (w @ s) t"
proof (induction s arbitrary: w)
  case (Cons c s)
  then show ?case using sh_safe_plain [of c] by simp
qed simp

lemma sh_words_body:
  "sh_words InSingle w (quote_body s @ squote # t) = sh_words InWord (w @ s) t"
proof (induction s arbitrary: w)
  case (Cons c s)
  show ?case
  proof (cases "c = squote")
    case True
    have "sh_words InSingle w (quote_body (c # s) @ squote # t)
        = sh_words InSingle (w @ [squote]) (quote_body s @ squote # t)"
      using True by (simp add: quote_body_def squote_def)
    then show ?thesis using Cons.IH True by simp
  next
    case False
    then show ?thesis using Cons.IH by (simp add: quote_body_def)
  qed
qed (simp add: quote_body_def)

text \<open>A quoted argument is read back as one word, between blanks.\<close>

lemma sh_words_quote:
  "sh_words Between w (shlex_quote s @ t) = sh_words InWord s t"
proof -
  consider "s = []" | c s' where "s = c # s'" "list_all sh_safe s"
    | "s \<noteq> []" "\<not> list_all sh_safe s"
    by (cases s) auto
  then show ?thesis
  proof cases
    case 1
    then show ?thesis by (simp add: shlex_quote_def squote_def)
  next
    case 2
    then show ?thesis
      using sh_safe_plain [of c] sh_words_safe [of s' "[c]" t] by (simp add: shlex_quote_def)
  next
    case 3
    have "sh_words Between w (squote # quote_body s @ squote # t) = sh_words InWord s t"
      using sh_words_body [of "[]" s t] by (simp add: squote_def)
    then show ?thesis using 3 by (simp add: shlex_quote_def)
  qed
qed

lemma sh_words_join: "sh_words Between w (shlex_join args) = Some args"
proof (induction args arbitrary: w)
  case (Cons a args)
  show ?case
  proof (cases args)
    case Nil
    then show ?thesis using sh_words_quote [of w a "[]"] by (simp add: shlex_join_def)
  next
    case (Cons b bs)
    have "shlex_join (a # args) = shlex_quote a @ '' '' @ shlex_join args"
      by (simp add: shlex_join_def Cons)
    then show ?thesis using sh_words_quote [of w a "'' '' @ shlex_join args"] Cons.IH by simp
  qed
qed (simp add: shlex_join_def)

end
