(* ===== verification/Json.thy ===== *)
theory Json
  imports PyBytes
begin

text \<open>
  The part of the standard library the guest protocol rests on: UTF-8 (strict, and with
  \<^verbatim>\<open>errors="replace"\<close>), \<^verbatim>\<open>json.dumps\<close> with compact separators and \<^verbatim>\<open>json.loads\<close>.
  An object is the list of its members in insertion order; a later duplicate key replaces the
  value in place, as in a Python dictionary. A number with a fraction or an exponent is kept
  as its text. Python's limits on nesting and on the digits of an integer are not modelled.
\<close>

section \<open>UTF-8\<close>

text \<open>
  For a leading byte: how many bytes follow, the bounds of the second byte, and the bits it
  contributes.
\<close>

definition utf8_lead :: "nat \<Rightarrow> (nat \<times> nat \<times> nat \<times> nat) option" where
  "utf8_lead b =
     (if b < 0x80 then Some (0, 0x80, 0xBF, b)
      else if b < 0xC2 then None
      else if b < 0xE0 then Some (1, 0x80, 0xBF, b mod 32)
      else if b = 0xE0 then Some (2, 0xA0, 0xBF, 0)
      else if b = 0xED then Some (2, 0x80, 0x9F, b mod 16)
      else if b < 0xF0 then Some (2, 0x80, 0xBF, b mod 16)
      else if b = 0xF0 then Some (3, 0x90, 0xBF, 0)
      else if b < 0xF4 then Some (3, 0x80, 0xBF, b mod 8)
      else if b = 0xF4 then Some (3, 0x80, 0x8F, 4)
      else None)"

text \<open>The continuation bytes: the code point if all are there, and how many fit.\<close>

fun utf8_cont :: "nat \<Rightarrow> nat \<Rightarrow> nat \<Rightarrow> nat \<Rightarrow> bytes \<Rightarrow> nat option \<times> nat" where
  "utf8_cont 0 lo hi acc bs = (Some acc, 0)"
| "utf8_cont (Suc k) lo hi acc [] = (None, 0)"
| "utf8_cont (Suc k) lo hi acc (b # bs) =
     (if lo \<le> unat b \<and> unat b \<le> hi
      then (case utf8_cont k 0x80 0xBF (acc * 64 + unat b mod 64) bs of (p, n) \<Rightarrow> (p, Suc n))
      else (None, 0))"

text \<open>The code points; \<^const>\<open>None\<close> for each maximal ill-formed part.\<close>

function utf8_points :: "bytes \<Rightarrow> nat option list" where
  "utf8_points [] = []"
| "utf8_points (b # bs) =
     (case utf8_lead (unat b) of
        None \<Rightarrow> None # utf8_points bs
      | Some (k, lo, hi, acc) \<Rightarrow>
          (case utf8_cont k lo hi acc bs of (p, n) \<Rightarrow> p # utf8_points (drop n bs)))"
  by pat_completeness auto
termination by (relation "measure length") auto

definition utf8_encode :: "nat \<Rightarrow> string" where
  "utf8_encode p =
     map char_of
       (if p < 0x80 then [p]
        else if p < 0x800 then [0xC0 + p div 64, 0x80 + p mod 64]
        else if p < 0x10000 then [0xE0 + p div 4096, 0x80 + p div 64 mod 64, 0x80 + p mod 64]
        else [0xF0 + p div 262144, 0x80 + p div 4096 mod 64, 0x80 + p div 64 mod 64,
              0x80 + p mod 64])"

definition decode_strict :: "bytes \<Rightarrow> exc + string" where
  "decode_strict bs =
     (if list_all (\<lambda>p. p \<noteq> None) (utf8_points bs) then Inr (decode bs)
      else raise UnicodeDecodeError (repr_str ''utf-8'' @ '' codec cannot decode the input''))"

definition decode_replace :: "bytes \<Rightarrow> string" where
  "decode_replace bs =
     concat (map (\<lambda>p. utf8_encode (case p of None \<Rightarrow> 0xFFFD | Some c \<Rightarrow> c)) (utf8_points bs))"

section \<open>Values\<close>

datatype json = JNull | JBool bool | JInt int | JFloat string | JStr string
  | JArr "json list" | JObj "(string \<times> json) list"

text \<open>\<^verbatim>\<open>d[key] = value\<close> on a dictionary in insertion order, and \<^verbatim>\<open>d.get(key)\<close>.\<close>

fun dict_set :: "'k \<Rightarrow> 'v \<Rightarrow> ('k \<times> 'v) list \<Rightarrow> ('k \<times> 'v) list" where
  "dict_set k v [] = [(k, v)]"
| "dict_set k v ((k', v') # d) = (if k = k' then (k, v) # d else (k', v') # dict_set k v d)"

fun truthy :: "json \<Rightarrow> bool" where
  "truthy JNull = False"
| "truthy (JBool b) = b"
| "truthy (JInt n) = (n \<noteq> 0)"
| "truthy (JFloat t) = list_ex (\<lambda>c. py_digit c \<and> c \<noteq> CHR ''0'')
     (takeWhile (\<lambda>c. c \<noteq> CHR ''e'' \<and> c \<noteq> CHR ''E'') t @ (if contains ''N'' t \<or> contains ''I'' t then ''1'' else []))"
| "truthy (JStr s) = (s \<noteq> [])"
| "truthy (JArr xs) = (xs \<noteq> [])"
| "truthy (JObj ms) = (ms \<noteq> [])"

text \<open>\<^verbatim>\<open>repr\<close> of a value (\<open>float_str\<close> renders a float), and \<^verbatim>\<open>str\<close>, which differs on strings.\<close>

fun json_repr :: "(string \<Rightarrow> string) \<Rightarrow> json \<Rightarrow> string"
  and json_reprs :: "(string \<Rightarrow> string) \<Rightarrow> json list \<Rightarrow> string list"
  and json_items :: "(string \<Rightarrow> string) \<Rightarrow> (string \<times> json) list \<Rightarrow> string list" where
  "json_repr fs JNull = ''None''"
| "json_repr fs (JBool b) = (if b then ''True'' else ''False'')"
| "json_repr fs (JInt n) = str_int n"
| "json_repr fs (JFloat t) = fs t"
| "json_repr fs (JStr s) = repr_str s"
| "json_repr fs (JArr xs) = ''['' @ join '', '' (json_reprs fs xs) @ '']''"
| "json_repr fs (JObj ms) = ''{'' @ join '', '' (json_items fs ms) @ ''}''"
| "json_reprs fs [] = []"
| "json_reprs fs (x # xs) = json_repr fs x # json_reprs fs xs"
| "json_items fs [] = []"
| "json_items fs ((k, v) # ms) = (repr_str k @ '': '' @ json_repr fs v) # json_items fs ms"

fun json_str :: "(string \<Rightarrow> string) \<Rightarrow> json \<Rightarrow> string" where
  "json_str fs (JStr s) = s"
| "json_str fs v = json_repr fs v"

section \<open>Dumping\<close>

definition backslash :: char where "backslash = CHR 0x5C"
definition dquote :: char where "dquote = CHR 0x22"

definition hex4 :: "nat \<Rightarrow> string" where
  "hex4 n = pad_left 4 CHR ''0'' (nat_str 16 n)"

definition dump_point :: "nat \<Rightarrow> string" where
  "dump_point p =
     (if p = 0x22 \<or> p = 0x5C then [backslash, char_of p]
      else if p = 0x0A then [backslash, CHR ''n'']
      else if p = 0x0D then [backslash, CHR ''r'']
      else if p = 0x09 then [backslash, CHR ''t'']
      else if p = 0x08 then [backslash, CHR ''b'']
      else if p = 0x0C then [backslash, CHR ''f'']
      else if 0x20 \<le> p \<and> p \<le> 0x7E then [char_of p]
      else if p < 0x10000 then backslash # CHR ''u'' # hex4 p
      else backslash # CHR ''u'' # hex4 (0xD800 + (p - 0x10000) div 1024)
           @ backslash # CHR ''u'' # hex4 (0xDC00 + (p - 0x10000) mod 1024))"

definition dump_str :: "string \<Rightarrow> string" where
  "dump_str s = dquote # concat (map (\<lambda>p. dump_point (case p of None \<Rightarrow> 0xFFFD | Some c \<Rightarrow> c))
     (utf8_points (encode s))) @ [dquote]"

text \<open>\<^verbatim>\<open>json.dumps(v, separators=(",", ":"))\<close>\<close>

fun dumps :: "json \<Rightarrow> string"
  and dump_list :: "json list \<Rightarrow> string list"
  and dump_members :: "(string \<times> json) list \<Rightarrow> string list" where
  "dumps JNull = ''null''"
| "dumps (JBool b) = (if b then ''true'' else ''false'')"
| "dumps (JInt n) = str_int n"
| "dumps (JFloat t) = t"
| "dumps (JStr s) = dump_str s"
| "dumps (JArr xs) = ''['' @ join '','' (dump_list xs) @ '']''"
| "dumps (JObj ms) = ''{'' @ join '','' (dump_members ms) @ ''}''"
| "dump_list [] = []"
| "dump_list (x # xs) = dumps x # dump_list xs"
| "dump_members [] = []"
| "dump_members ((k, v) # ms) = (dump_str k @ '':'' @ dumps v) # dump_members ms"

section \<open>Loading\<close>

definition json_space :: "char \<Rightarrow> bool" where
  "json_space c = (c = CHR '' '' \<or> c = CHR 0x09 \<or> c = CHR 0x0A \<or> c = CHR 0x0D)"

definition skip_space :: "string \<Rightarrow> string" where "skip_space = dropWhile json_space"

definition read_hex4 :: "string \<Rightarrow> nat option" where
  "read_hex4 s =
     (if length (take 4 s) = 4 \<and> list_all (\<lambda>c. hex_val c \<noteq> None) (take 4 s)
      then Some (foldl (\<lambda>n c. n * 16 + the (hex_val c)) 0 (take 4 s)) else None)"

definition simple_escape :: "char \<Rightarrow> char option" where
  "simple_escape c =
     (if c = dquote \<or> c = backslash \<or> c = CHR ''/'' then Some c
      else if c = CHR ''b'' then Some (CHR 0x08)
      else if c = CHR ''f'' then Some (CHR 0x0C)
      else if c = CHR ''n'' then Some (CHR 0x0A)
      else if c = CHR ''r'' then Some (CHR 0x0D)
      else if c = CHR ''t'' then Some (CHR 0x09)
      else None)"

text \<open>The low half of a surrogate pair, if one follows.\<close>

definition low_surrogate :: "string \<Rightarrow> nat option" where
  "low_surrogate s =
     (if take 2 s = [backslash, CHR ''u''] then
        (case read_hex4 (drop 2 s) of
           Some u \<Rightarrow> if 0xDC00 \<le> u \<and> u \<le> 0xDFFF then Some u else None
         | None \<Rightarrow> None)
      else None)"

fun scan_str :: "string \<Rightarrow> string \<Rightarrow> (string \<times> string) option" where
  "scan_str acc [] = None"
| "scan_str acc (c # r) =
     (if c = dquote then Some (acc, r)
      else if c = backslash then
        (case r of
           [] \<Rightarrow> None
         | e # r2 \<Rightarrow>
             if e = CHR ''u'' then
               (case read_hex4 r2 of
                  None \<Rightarrow> None
                | Some u \<Rightarrow>
                    if 0xD800 \<le> u \<and> u \<le> 0xDBFF then
                      (case low_surrogate (drop 4 r2) of
                         Some l \<Rightarrow> scan_str (acc @ utf8_encode (0x10000 + (u - 0xD800) * 1024 + (l - 0xDC00)))
                                            (drop 10 r2)
                       | None \<Rightarrow> scan_str (acc @ utf8_encode u) (drop 4 r2))
                    else scan_str (acc @ utf8_encode u) (drop 4 r2))
             else (case simple_escape e of None \<Rightarrow> None | Some x \<Rightarrow> scan_str (acc @ [x]) r2))
      else if code_of c < 0x20 then None
      else scan_str (acc @ [c]) r)"

text \<open>\<^verbatim>\<open>-?(0|[1-9][0-9]*)(.[0-9]+)?([eE][+-]?[0-9]+)?\<close>\<close>

definition scan_digits :: "string \<Rightarrow> string \<times> string" where
  "scan_digits s = (takeWhile py_digit s, dropWhile py_digit s)"

definition scan_frac :: "string \<Rightarrow> string \<times> string" where
  "scan_frac s = (case s of
     c # r \<Rightarrow> (case scan_digits r of (d, r2) \<Rightarrow>
        if c = CHR ''.'' \<and> d \<noteq> [] then (c # d, r2) else ([], s))
   | [] \<Rightarrow> ([], s))"

definition scan_exp :: "string \<Rightarrow> string \<times> string" where
  "scan_exp s = (case s of
     c # r \<Rightarrow>
       let sign = takeWhile (\<lambda>c. c = CHR ''+'' \<or> c = CHR ''-'') (take 1 r) in
       (case scan_digits (drop (length sign) r) of (d, r2) \<Rightarrow>
          if (c = CHR ''e'' \<or> c = CHR ''E'') \<and> d \<noteq> [] then (c # sign @ d, r2) else ([], s))
   | [] \<Rightarrow> ([], s))"

definition scan_number :: "string \<Rightarrow> (json \<times> string) option" where
  "scan_number s =
     (let neg = startswith s ''-''; u = (if neg then drop 1 s else s) in
      case scan_digits u of (d0, _) \<Rightarrow>
        if d0 = [] then None
        else
          let d = (if hd d0 = CHR ''0'' then ''0'' else d0) in
          case scan_frac (drop (length d) u) of (f, r1) \<Rightarrow>
          (case scan_exp r1 of (e, r2) \<Rightarrow>
             let text = (if neg then ''-'' else []) @ d in
             if f = [] \<and> e = [] then Some (JInt (the (py_int text)), r2)
             else Some (JFloat (text @ f @ e), r2)))"

definition scan_const :: "string \<Rightarrow> (json \<times> string) option" where
  "scan_const s =
     (if startswith s ''null'' then Some (JNull, drop 4 s)
      else if startswith s ''true'' then Some (JBool True, drop 4 s)
      else if startswith s ''false'' then Some (JBool False, drop 5 s)
      else if startswith s ''NaN'' then Some (JFloat ''NaN'', drop 3 s)
      else if startswith s ''Infinity'' then Some (JFloat ''Infinity'', drop 8 s)
      else if startswith s ''-Infinity'' then Some (JFloat ''-Infinity'', drop 9 s)
      else scan_number s)"

text \<open>
  The value, the elements of an array after its opening bracket, and the members of an object
  after its opening brace. Every call but the first of a value consumes a character, so twice
  the length of the text is enough fuel.
\<close>

fun scan_value :: "nat \<Rightarrow> string \<Rightarrow> (json \<times> string) option"
  and scan_elems :: "nat \<Rightarrow> string \<Rightarrow> (json list \<times> string) option"
  and scan_members :: "nat \<Rightarrow> (string \<times> json) list \<Rightarrow> string \<Rightarrow> ((string \<times> json) list \<times> string) option"
where
  "scan_value 0 s = None"
| "scan_value (Suc n) s =
     (case s of
        [] \<Rightarrow> None
      | c # r \<Rightarrow>
          if c = dquote then map_option (\<lambda>(t, r2). (JStr t, r2)) (scan_str [] r)
          else if c = CHR ''['' then
            (if take 1 (skip_space r) = '']'' then Some (JArr [], drop 1 (skip_space r))
             else map_option (\<lambda>(xs, r2). (JArr xs, r2)) (scan_elems n (skip_space r)))
          else if c = CHR ''{'' then
            (if take 1 (skip_space r) = ''}'' then Some (JObj [], drop 1 (skip_space r))
             else map_option (\<lambda>(ms, r2). (JObj ms, r2)) (scan_members n [] (skip_space r)))
          else scan_const s)"
| "scan_elems 0 s = None"
| "scan_elems (Suc n) s =
     (case scan_value n s of
        None \<Rightarrow> None
      | Some (v, r) \<Rightarrow>
          (case skip_space r of
             [] \<Rightarrow> None
           | c # r2 \<Rightarrow>
               if c = CHR '']'' then Some ([v], r2)
               else if c = CHR '','' then
                 map_option (\<lambda>(vs, r3). (v # vs, r3)) (scan_elems n (skip_space r2))
               else None))"
| "scan_members 0 ms s = None"
| "scan_members (Suc n) ms s =
     (case s of
        [] \<Rightarrow> None
      | q # r \<Rightarrow>
          if q \<noteq> dquote then None
          else (case scan_str [] r of
             None \<Rightarrow> None
           | Some (k, r1) \<Rightarrow>
               (case skip_space r1 of
                  [] \<Rightarrow> None
                | c # r2 \<Rightarrow>
                    if c \<noteq> CHR '':'' then None
                    else (case scan_value n (skip_space r2) of
                       None \<Rightarrow> None
                     | Some (v, r3) \<Rightarrow>
                         (case skip_space r3 of
                            [] \<Rightarrow> None
                          | d # r4 \<Rightarrow>
                              if d = CHR ''}'' then Some (dict_set k v ms, r4)
                              else if d = CHR '','' then scan_members n (dict_set k v ms) (skip_space r4)
                              else None)))))"

text \<open>\<^verbatim>\<open>json.loads\<close>: every use in the program replaces the message of the error.\<close>

definition loads :: "string \<Rightarrow> exc + json" where
  "loads s =
     (case scan_value (2 * length s + 2) (skip_space s) of
        Some (v, r) \<Rightarrow> if skip_space r = [] then Inr v else raise JSONDecodeError ''Extra data''
      | None \<Rightarrow> raise JSONDecodeError ''Expecting value'')"

section \<open>Laws\<close>

lemma map_of_dict_set: "map_of (dict_set k v d) = (map_of d)(k \<mapsto> v)"
  by (induction k v d rule: dict_set.induct) auto

lemma dict_set_keys: "map fst (dict_set k v d) =
    (if k \<in> fst ` set d then map fst d else map fst d @ [k])"
  by (induction k v d rule: dict_set.induct) auto

lemma distinct_dict_set: "distinct (map fst d) \<Longrightarrow> distinct (map fst (dict_set k v d))"
  by (auto simp: dict_set_keys)

lemma dict_set_new: "k \<notin> fst ` set d \<Longrightarrow> dict_set k v d = d @ [(k, v)]"
  by (induction k v d rule: dict_set.induct) auto

text \<open>ASCII text is its own decoding.\<close>

lemma utf8_points_ascii:
  "list_all is_ascii s \<Longrightarrow> utf8_points (encode s) = map (\<lambda>c. Some (code_of c)) s"
proof (induction s)
  case (Cons c s)
  have "code_of c < 256" by (simp add: code_of_def)
  then have "unat (byte_of_char c) = code_of c" by (simp add: byte_of_char_def unat_of_nat)
  then show ?case using Cons by (simp add: encode_def utf8_lead_def is_ascii_def)
qed (simp add: encode_def)

lemma decode_strict_ascii: "list_all is_ascii s \<Longrightarrow> decode_strict (encode s) = Inr s"
  by (simp add: decode_strict_def utf8_points_ascii list_all_iff)

lemma decode_strict_error: "decode_strict bs = Inl e \<Longrightarrow> class_of e = UnicodeDecodeError"
  by (auto simp: decode_strict_def split: if_splits)

lemma loads_error: "loads s = Inl e \<Longrightarrow> class_of e = JSONDecodeError"
  by (auto simp: loads_def split: option.splits prod.splits if_splits)

end
