(* ===== verification/Vm_Profile.thy ===== *)
theory Vm_Profile
  imports World Shell Json
begin

text \<open>
  The launch configuration of a guest, \<^verbatim>\<open>sev_verify/vm_profile.py\<close>: the profile and its
  validation, the QEMU command line, its display, and \<^verbatim>\<open>stop_vm\<close>. (\<^verbatim>\<open>VMProfile.vm_launch\<close>
  needs the guest transport and is in \<open>Vm_Launch\<close>.)

  The timeouts of a profile are whole seconds, as every value the program writes is; the text
  of an error raised inside the library's own decoders is left out of the messages.
\<close>

section \<open>The profile\<close>

datatype policy = PolicyStr string | PolicyInt int

record vm_profile =
  vp_image_path :: string
  vp_guest_id :: "string option"
  vp_qemu_binary :: string
  vp_ovmf_path :: "string option"
  vp_memory_mb :: int
  vp_guest_error_log :: string
  vp_guest_boot_log :: string
  vp_network_enabled :: bool
  vp_vsock_cid :: int
  vp_vsock_port :: int
  vp_vsock_use_vhost :: bool
  vp_vsock_boot_timeout :: int
  vp_vsock_connect_timeout :: int
  vp_vsock_command_timeout :: int
  vp_vsock_max_response_bytes :: int
  vp_host_data :: "string option"
  vp_policy :: "policy option"
  vp_auth_key_enabled :: bool
  vp_kernel_hashes :: bool
  vp_id_block :: "string option"
  vp_id_auth :: "string option"
  vp_cbitpos :: int
  vp_reduced_phys_bits :: int
  vp_debug :: bool

definition default_ovmf_candidates :: "string list" where
  "default_ovmf_candidates =
     [''/usr/share/ovmf/OVMF.amdsev.fd'', ''/usr/share/edk2/ovmf/OVMF.amdsev.fd'',
      ''/usr/share/qemu/ovmf-x86_64-sev.bin'']"

definition default_qemu_binary :: string where "default_qemu_binary = ''qemu-system-x86_64''"

definition host_data_size :: nat where "host_data_size = 32"

text \<open>\<^verbatim>\<open>VMProfile(image_path=...)\<close> with every other field at its default\<close>

definition mk_profile :: "string \<Rightarrow> vm_profile" where
  "mk_profile img =
     \<lparr>vp_image_path = img, vp_guest_id = None, vp_qemu_binary = default_qemu_binary,
      vp_ovmf_path = None, vp_memory_mb = 4096,
      vp_guest_error_log = ''/tmp/guest-error.log'', vp_guest_boot_log = ''/tmp/guest-boot.log'',
      vp_network_enabled = True, vp_vsock_cid = 3, vp_vsock_port = 5000,
      vp_vsock_use_vhost = True, vp_vsock_boot_timeout = 180, vp_vsock_connect_timeout = 10,
      vp_vsock_command_timeout = 300, vp_vsock_max_response_bytes = 16 * 1024 * 1024,
      vp_host_data = None, vp_policy = None, vp_auth_key_enabled = False,
      vp_kernel_hashes = True, vp_id_block = None, vp_id_auth = None, vp_cbitpos = 51,
      vp_reduced_phys_bits = 1, vp_debug = False\<rparr>"

text \<open>The truth value of an optional string: set and not empty.\<close>

definition given :: "string option \<Rightarrow> bool" where
  "given v = (v \<noteq> None \<and> v \<noteq> Some [])"

section \<open>HOST_DATA\<close>

definition decode_host_data :: "string \<Rightarrow> exc + bytes" where
  "decode_host_data host_data =
     (let text = strip host_data in
      if text = [] then raise VMProfileError ''host_data must be non-empty when provided''
      else
        let hex_text = (if startswith (lower text) ''0x'' then drop 2 text else text) in
        if len_chars hex_text = host_data_size * 2 then
          (case from_hex hex_text of
             Some b \<Rightarrow> Inr b
           | None \<Rightarrow> raise VMProfileError ''host_data hex value is invalid'')
        else (case b64decode text of
            Some b \<Rightarrow> Inr b
          | None \<Rightarrow> raise VMProfileError (''host_data must be '' @ nat_str 10 host_data_size
              @ '' bytes as hex (64 chars) or base64; could not decode value'')))"

definition validate_host_data :: "string \<Rightarrow> exc + unit" where
  "validate_host_data host_data =
     rbind (decode_host_data host_data) (\<lambda>decoded.
       guard_not (length decoded \<noteq> host_data_size)
         (Exc VMProfileError (''host_data must be exactly '' @ nat_str 10 host_data_size
           @ '' bytes; got '' @ nat_str 10 (length decoded) @ '' bytes'')))"

section \<open>Validation\<close>

fun find_ovmf :: "string list \<Rightarrow> 'e world \<Rightarrow> string option" where
  "find_ovmf [] w = None"
| "find_ovmf (c # cs) w = (if is_file (path_of c) w then Some c else find_ovmf cs w)"

definition find_ovmf_path :: "'e world \<Rightarrow> string option" where
  "find_ovmf_path w = find_ovmf default_ovmf_candidates w"

definition resolved_ovmf_path :: "vm_profile \<Rightarrow> 'e world \<Rightarrow> exc + string" where
  "resolved_ovmf_path p w =
     (if given (vp_ovmf_path p) then
        let s = the (vp_ovmf_path p); path = path_of s in
        if \<not> is_file path w then
          raise VMProfileError (''OVMF firmware not found on provided path: '' @ s)
        else Inr (path_str path)
      else (case find_ovmf_path w of
          Some found \<Rightarrow> Inr found
        | None \<Rightarrow> raise VMProfileError
            (''AMD SEV-compatible OVMF is not present; cannot launch SEV-SNP guest. Tried: ''
             @ join '', '' default_ovmf_candidates)))"

definition vp_validate :: "vm_profile \<Rightarrow> 'e world \<Rightarrow> exc + unit" where
  "vp_validate p w =
     rbind (guard_not (\<not> is_file (path_of (vp_image_path p)) w)
              (Exc VMProfileError (''Guest image not found: '' @ vp_image_path p))) (\<lambda>_.
     rbind (case vp_host_data p of None \<Rightarrow> Inr () | Some h \<Rightarrow> validate_host_data h) (\<lambda>_.
     rbind (guard_not (vp_memory_mb p \<le> 0) (Exc VMProfileError ''memory_mb must be positive'')) (\<lambda>_.
     rbind (guard_not (vp_vsock_cid p < 3) (Exc VMProfileError
              (''vsock_cid must be >= 3 (host uses CID 2), got '' @ str_int (vp_vsock_cid p)))) (\<lambda>_.
     rbind (guard_not (\<not> (1 \<le> vp_vsock_port p \<and> vp_vsock_port p \<le> 4294967295)) (Exc VMProfileError
              (''vsock_port must be between 1 and 4294967295, got '' @ str_int (vp_vsock_port p)))) (\<lambda>_.
     rbind (guard_not (vp_vsock_max_response_bytes p \<le> 0) (Exc VMProfileError
              ''vsock_max_response_bytes must be positive'')) (\<lambda>_.
     rbind (resolved_ovmf_path p w) (\<lambda>_. Inr ())))))))"

section \<open>The QEMU command\<close>

definition is_digits :: "string \<Rightarrow> bool" where
  "is_digits s = (s \<noteq> [] \<and> list_all py_digit s)"

fun format_policy :: "policy \<Rightarrow> string" where
  "format_policy (PolicyInt n) = hex_int n"
| "format_policy (PolicyStr s) =
     (let text = strip s in
      if startswith (lower text) ''0x'' then text
      else if is_digits text then hex_int (the (py_int text))
      else text)"

text \<open>The \<^verbatim>\<open>parts\<close> list of \<^verbatim>\<open>_build_sev_snp_guest_object\<close>, and its text.\<close>

definition sev_parts :: "vm_profile \<Rightarrow> string list" where
  "sev_parts p =
       ([''sev-snp-guest'', ''id=sev0'',
         ''cbitpos='' @ str_int (vp_cbitpos p),
         ''reduced-phys-bits='' @ str_int (vp_reduced_phys_bits p)]
        @ (if vp_kernel_hashes p then [''kernel-hashes=on''] else [])
        @ (if given (vp_host_data p)
           then [''host-data='' @ [CHR 0x22] @ the (vp_host_data p) @ [CHR 0x22]] else [])
        @ (case vp_policy p of None \<Rightarrow> [] | Some pol \<Rightarrow> [''policy='' @ format_policy pol])
        @ (if vp_auth_key_enabled p then [''author-key-enabled=true''] else [])
        @ (if given (vp_id_block p) \<and> given (vp_id_auth p)
           then [''id-block='' @ the (vp_id_block p), ''id-auth='' @ the (vp_id_auth p)] else []))"

definition build_sev_snp_guest_object :: "vm_profile \<Rightarrow> string" where
  "build_sev_snp_guest_object p = join '','' (sev_parts p)"

definition build_vsock_device :: "vm_profile \<Rightarrow> string" where
  "build_vsock_device p =
     (if vp_vsock_use_vhost p then ''vhost-vsock-pci'' else ''virtio-vsock-pci'')
     @ '',guest-cid='' @ str_int (vp_vsock_cid p) @ '',id=vsock0''"

definition build_qemu_command :: "vm_profile \<Rightarrow> 'e world \<Rightarrow> exc + string list" where
  "build_qemu_command p w =
     rbind (vp_validate p w) (\<lambda>_.
     rbind (resolved_ovmf_path p w) (\<lambda>ovmf.
       Inr ([vp_qemu_binary p, ''-enable-kvm'',
             ''-machine'', ''q35,memory-encryption=sev0,memory-backend=ram1'',
             ''-cpu'', ''EPYC-v4'', ''-monitor'', ''none'', ''-display'', ''none'',
             ''-object'', ''memory-backend-memfd,id=ram1,size='' @ str_int (vp_memory_mb p) @ ''M'',
             ''-object'', build_sev_snp_guest_object p,
             ''-bios'', ovmf,
             ''-kernel'', vp_image_path p,
             ''-device'', build_vsock_device p]
            @ (if vp_debug p
               then [''-chardev'', ''file,id=serial0,path='' @ vp_guest_boot_log p,
                     ''-serial'', ''chardev:serial0''] else [])
            @ (if vp_network_enabled p
               then [''-netdev'', ''user,id=net0'', ''-device'', ''virtio-net-pci,netdev=net0'']
               else []))))"

text \<open>\<^verbatim>\<open>_qemu_pretty_chunks\<close>: the loop over the arguments after the program.\<close>

fun pretty_pairs :: "string list \<Rightarrow> string list" where
  "pretty_pairs [] = []"
| "pretty_pairs [a] = [a]"
| "pretty_pairs (a # b # rest) =
     (if startswith a ''-'' \<and> \<not> startswith b ''-''
      then (a @ '' '' @ b) # pretty_pairs rest
      else a # pretty_pairs (b # rest))"

fun qemu_pretty_chunks :: "string list \<Rightarrow> string list" where
  "qemu_pretty_chunks [] = []"
| "qemu_pretty_chunks (c # cs) = c # pretty_pairs cs"

text \<open>What \<^verbatim>\<open>print_qemu\<close> writes.\<close>

definition print_qemu :: "string \<Rightarrow> string list \<Rightarrow> string" where
  "print_qemu indent command =
     (case qemu_pretty_chunks command of
        [] \<Rightarrow> []
      | c # cs \<Rightarrow> c @ concat (map (\<lambda>chunk. '' '' @ [CHR 0x5C, CHR 0x0A] @ indent @ chunk) cs) @ nl)"

section \<open>Launches\<close>

record launch_result =
  lr_pid :: int
  lr_command :: "string list"
  lr_profile :: vm_profile
  lr_ok :: bool
  lr_message :: string
  lr_guest_id :: string
  lr_process :: "int option"

definition command_line :: "launch_result \<Rightarrow> string" where
  "command_line l = join '' '' (map shlex_quote (lr_command l))"

definition read_guest_errors :: "string \<Rightarrow> ('e world, string) io" where
  "read_guest_errors path =
     ibind (iget (is_file (path_of path))) (\<lambda>there.
       if \<not> there then iret []
       else ibind (read_bytes (path_of path)) (\<lambda>data.
         iret (decode_replace (if length data > 8192 then drop (length data - 8192) data else data))))"

text \<open>\<^verbatim>\<open>stop_vm(launch, signal=15, timeout=...)\<close>, in seconds\<close>

definition stop_vm :: "'e ops \<Rightarrow> launch_result \<Rightarrow> int \<Rightarrow> ('e world, unit) io" where
  "stop_vm ops launch timeout =
     (case lr_process launch of
        None \<Rightarrow> ext (op_os_kill ops (lr_pid launch) 15)
      | Some proc \<Rightarrow>
          iseq (ext (op_terminate ops proc))
            (itry TimeoutExpired (ext (op_wait ops proc timeout))
               (\<lambda>_. iseq (ext (op_kill ops proc)) (ext (op_wait ops proc timeout)))))"


section \<open>Properties\<close>

lemma find_ovmf_Some: "find_ovmf cs w = Some c \<Longrightarrow> c \<in> set cs \<and> is_file (path_of c) w"
  by (induction cs w rule: find_ovmf.induct) (auto split: if_splits)

lemma find_ovmf_None: "find_ovmf cs w = None \<longleftrightarrow> (\<forall>c \<in> set cs. \<not> is_file (path_of c) w)"
  by (induction cs w rule: find_ovmf.induct) auto

lemma decode_host_data_error: "decode_host_data s = Inl e \<Longrightarrow> class_of e = VMProfileError"
  by (auto simp: decode_host_data_def Let_def split: if_splits option.splits)

lemma validate_host_data_error: "validate_host_data s = Inl e \<Longrightarrow> class_of e = VMProfileError"
  by (auto simp: validate_host_data_def rbind_eq_Inl guard_not_def dest: decode_host_data_error
      split: if_splits)

lemma resolved_ovmf_error: "resolved_ovmf_path p w = Inl e \<Longrightarrow> class_of e = VMProfileError"
  by (auto simp: resolved_ovmf_path_def Let_def split: if_splits option.splits)

lemma vp_validate_error: "vp_validate p w = Inl e \<Longrightarrow> class_of e = VMProfileError"
  by (auto simp: vp_validate_def rbind_eq_Inl guard_not_def
      dest: validate_host_data_error resolved_ovmf_error split: if_splits option.splits)

lemma build_qemu_error: "build_qemu_command p w = Inl e \<Longrightarrow> class_of e = VMProfileError"
  by (auto simp: build_qemu_command_def rbind_eq_Inl dest: vp_validate_error resolved_ovmf_error)

text \<open>A profile that passes validation, condition by condition.\<close>

definition ovmf_available :: "vm_profile \<Rightarrow> 'e world \<Rightarrow> bool" where
  "ovmf_available p w =
     (if given (vp_ovmf_path p) then is_file (path_of (the (vp_ovmf_path p))) w
      else list_ex (\<lambda>c. is_file (path_of c) w) default_ovmf_candidates)"

lemma resolved_ovmf_available: "(\<exists>s. resolved_ovmf_path p w = Inr s) = ovmf_available p w"
proof -
  have "find_ovmf_path w = None \<longleftrightarrow> \<not> list_ex (\<lambda>c. is_file (path_of c) w) default_ovmf_candidates"
    by (simp add: find_ovmf_path_def find_ovmf_None list_ex_iff)
  then show ?thesis
    by (cases "find_ovmf_path w") (simp_all add: resolved_ovmf_path_def ovmf_available_def Let_def)
qed

lemma vp_validate_iff:
  "vp_validate p w = Inr () \<longleftrightarrow>
     is_file (path_of (vp_image_path p)) w \<and>
     (case vp_host_data p of None \<Rightarrow> True | Some h \<Rightarrow> \<exists>b. decode_host_data h = Inr b \<and> length b = 32) \<and>
     0 < vp_memory_mb p \<and> 3 \<le> vp_vsock_cid p \<and>
     1 \<le> vp_vsock_port p \<and> vp_vsock_port p \<le> 2 ^ 32 - 1 \<and>
     0 < vp_vsock_max_response_bytes p \<and> ovmf_available p w"
  by (auto simp: vp_validate_def rbind_eq_Inr validate_host_data_def host_data_size_def
      resolved_ovmf_available [symmetric] split: option.splits)

lemma build_qemu_Inr:
  "build_qemu_command p w = Inr cmd \<Longrightarrow> vp_validate p w = Inr () \<and> ovmf_available p w"
  by (auto simp: build_qemu_command_def rbind_eq_Inr resolved_ovmf_available [symmetric])

lemma build_qemu_total: "(\<exists>cmd. build_qemu_command p w = Inr cmd) = (vp_validate p w = Inr ())"
proof
  assume v: "vp_validate p w = Inr ()"
  then have "ovmf_available p w" by (simp add: vp_validate_iff)
  then obtain s where "resolved_ovmf_path p w = Inr s" using resolved_ovmf_available by blast
  with v show "\<exists>cmd. build_qemu_command p w = Inr cmd" by (simp add: build_qemu_command_def)
qed (use build_qemu_Inr in blast)


section \<open>HOST_DATA: the accepted forms\<close>

text \<open>ASCII and not white space.\<close>

definition plain_char :: "char \<Rightarrow> bool" where
  "plain_char c = (code_of c < 128 \<and> \<not> py_space c)"

lemma plain_digit_char: "d < 16 \<Longrightarrow> plain_char (digit_char d)"
  using digit_char_not_special [of d] by (simp add: plain_char_def digit_char_def code_of_char_of)

lemma plain_b64_char: "n < 64 \<Longrightarrow> plain_char (b64_char n)"
  by (auto simp: plain_char_def b64_char_def code_of_char_of py_space_def Let_def code_of_def)

lemma plain_pad: "plain_char CHR ''=''"
  by (simp add: plain_char_def py_space_def code_of_def)

lemma plain_to_hex: "list_all plain_char (to_hex b)"
proof (induction b)
  case (Cons x b)
  have "unat x div 16 < 16" using unat_byte_lt [of x] by (simp add: less_mult_imp_div_less)
  with Cons show ?case by (simp add: to_hex_def hex_byte_def plain_digit_char)
qed (simp add: to_hex_def)

lemma plain_b64encode: "list_all plain_char (b64encode b)"
proof (induction b rule: b64encode.induct)
  case (2 a)
  have "unat a * 65536 div 262144 < 64" using unat_byte_lt [of a] by (simp add: less_mult_imp_div_less)
  then show ?case by (simp add: Let_def plain_b64_char plain_pad)
next
  case (3 a b)
  have "unat a * 65536 + unat b * 256 < 64 * 262144"
    using unat_byte_lt [of a] unat_byte_lt [of b] by linarith
  then have "(unat a * 65536 + unat b * 256) div 262144 < 64" by (rule less_mult_imp_div_less)
  then show ?case by (simp add: Let_def plain_b64_char plain_pad)
next
  case (4 a b c s)
  have "unat a * 65536 + unat b * 256 + unat c < 64 * 262144"
    using unat_byte_lt [of a] unat_byte_lt [of b] unat_byte_lt [of c] by linarith
  then have "(unat a * 65536 + unat b * 256 + unat c) div 262144 < 64" by (rule less_mult_imp_div_less)
  with 4 show ?case by (simp add: Let_def plain_b64_char)
qed simp

lemma plain_strip: "list_all plain_char s \<Longrightarrow> strip s = s"
  by (cases "s = []") (simp_all add: strip_id list_all_iff plain_char_def)

lemma plain_len_chars: "list_all plain_char s \<Longrightarrow> len_chars s = length s"
  by (induction s) (simp_all add: len_chars_def plain_char_def)

lemma length_to_hex: "length (to_hex b) = 2 * length b"
  by (induction b) (simp_all add: to_hex_def hex_byte_def)

lemma length_b64encode: "length (b64encode b) = 4 * ((length b + 2) div 3)"
proof (induction b rule: b64encode.induct)
  case (4 a b c s)
  have "(5 + length s) div 3 = Suc ((2 + length s) div 3)" by simp
  with 4 show ?case by (simp add: Let_def)
qed (simp_all add: Let_def)

lemma digit_char_not_x: "d < 16 \<Longrightarrow> lower_char (digit_char d) \<noteq> CHR ''x''"
proof -
  assume d: "d < 16"
  have c: "code_of (digit_char d) = (if d < 10 then 48 + d else 87 + d)"
    using d by (simp add: digit_char_def code_of_char_of)
  then have "lower_char (digit_char d) = digit_char d"
    using d by (auto simp: lower_char_def Let_def)
  moreover have "code_of (digit_char d) \<noteq> code_of CHR ''x''" using c d by (auto simp: code_of_def)
  ultimately show ?thesis by auto
qed

lemma hex_not_0x: "\<not> startswith (lower (to_hex b)) ''0x''"
proof (cases b)
  case (Cons x xs)
  have "lower_char (digit_char (unat x mod 16)) \<noteq> CHR ''x''" by (rule digit_char_not_x) simp
  then show ?thesis using Cons by (simp add: startswith_def lower_def to_hex_def hex_byte_def)
qed (simp add: startswith_def lower_def to_hex_def)

text \<open>
  HOST_DATA may be given as 64 hexadecimal digits, the same with a \<^verbatim>\<open>0x\<close> prefix, or in
  base64: each form of a 32-byte value decodes to that value, and is accepted.
\<close>

theorem host_data_forms:
  assumes "length b = 32" and "s \<in> {to_hex b, ''0x'' @ to_hex b, b64encode b}"
  shows "decode_host_data s = Inr b \<and> validate_host_data s = Inr ()"
proof -
  have hex: "to_hex b \<noteq> []" "len_chars (to_hex b) = 64" "strip (to_hex b) = to_hex b"
    using assms(1) length_to_hex [of b] plain_to_hex [of b]
    by (auto simp: plain_len_chars plain_strip)
  have p0: "plain_char CHR ''0''" "plain_char CHR ''x''"
    by (simp_all add: plain_char_def py_space_def code_of_def)
  have hex0: "strip (''0x'' @ to_hex b) = ''0x'' @ to_hex b"
    "startswith (lower (''0x'' @ to_hex b)) ''0x''"
    using plain_strip [of "''0x'' @ to_hex b"] plain_to_hex [of b] p0
    by (simp_all add: startswith_def lower_def lower_char_def code_of_def Let_def)
  have b64: "b64encode b \<noteq> []" "length (b64encode b) = 44" "strip (b64encode b) = b64encode b"
    using assms(1) length_b64encode [of b] plain_b64encode [of b] by (auto simp: plain_strip)
  have len: "len_chars (b64encode b) = 44" "len_chars (drop 2 (b64encode b)) = 42"
    using b64(2) plain_b64encode [of b]
    by (simp_all add: plain_len_chars list_all_iff in_set_dropD plain_len_chars [of "drop 2 _"])
  have "decode_host_data s = Inr b"
    using assms(2) hex hex0 b64 len hex_not_0x [of b]
    by (auto simp: decode_host_data_def Let_def host_data_size_def b64decode_encode)
  then show ?thesis using assms(1) by (simp add: validate_host_data_def host_data_size_def)
qed

theorem host_data_forms_witness:
  "decode_host_data (''0x'' @ to_hex (replicate 32 171)) = Inr (replicate 32 171)"
  using host_data_forms [of "replicate 32 171" "''0x'' @ to_hex (replicate 32 171)"] by simp

section \<open>The command line\<close>

lemma pretty_pairs_Nil_iff [simp]: "pretty_pairs cs = [] \<longleftrightarrow> cs = []"
  by (induction cs rule: pretty_pairs.induct) auto

lemma join_pretty: "join '' '' (pretty_pairs cs) = join '' '' cs"
proof (induction cs rule: pretty_pairs.induct)
  case (3 a b rest)
  show ?case
  proof (cases "startswith a ''-'' \<and> \<not> startswith b ''-''")
    case True
    then show ?thesis using 3(1) by (cases "rest = []") (simp_all add: join_Cons)
  next
    case False
    then show ?thesis using 3(2) by (auto simp: join_Cons)
  qed
qed simp_all

text \<open>
  The displayed QEMU command loses nothing: the chunks joined by blanks are the arguments
  joined by blanks, whatever they are.
\<close>

theorem pretty_chunks_join: "join '' '' (qemu_pretty_chunks command) = join '' '' command"
proof (cases command)
  case (Cons c cs)
  then show ?thesis by (cases "cs = []") (simp_all add: join_Cons join_pretty)
qed simp

lemma sev_parts_id_block:
  "''id-block='' @ x \<in> set (sev_parts p) \<longleftrightarrow>
     given (vp_id_block p) \<and> given (vp_id_auth p) \<and> vp_id_block p = Some x"
  "''id-auth='' @ x \<in> set (sev_parts p) \<longleftrightarrow>
     given (vp_id_block p) \<and> given (vp_id_auth p) \<and> vp_id_auth p = Some x"
  by (auto simp: sev_parts_def given_def split: option.splits)

lemma py_int_strip: "py_int (strip s) = py_int s"
  by (simp add: py_int_def signed_parse_def)

lemma py_int0_strip: "py_int0 (strip s) = py_int0 s"
  by (simp add: py_int0_def signed_parse_def)

lemma digits_from_digits: "list_all py_digit s \<Longrightarrow> digits_from 10 acc False s \<noteq> None"
proof (induction s arbitrary: acc)
  case (Cons c s)
  then have c: "48 \<le> code_of c" "code_of c \<le> 57" by (simp_all add: py_digit_def Let_def)
  then have "c \<noteq> CHR ''_''" by (auto simp: code_of_def)
  with Cons c show ?case by (simp add: digit_val_def Let_def)
qed simp

lemma py_int_digits: "is_digits (strip s) \<Longrightarrow> \<exists>n. py_int s = Some n"
proof -
  assume d: "is_digits (strip s)"
  then obtain c t where s: "strip s = c # t" by (cases "strip s") (auto simp: is_digits_def)
  have c: "48 \<le> code_of c" "code_of c \<le> 57" "list_all py_digit t"
    using d s by (simp_all add: is_digits_def py_digit_def Let_def)
  then have "c \<noteq> CHR ''_''" "c \<noteq> CHR ''-''" "c \<noteq> CHR ''+''" by (auto simp: code_of_def)
  then show ?thesis
    using digits_from_digits [OF c(3), of "code_of c - 48"] s c
    by (auto simp: py_int_def signed_parse_def parse_nat_def digit_val_def Let_def)
qed

lemma is_digits_not_0x: "is_digits t \<Longrightarrow> \<not> startswith (lower t) ''0x''"
proof
  assume d: "is_digits t" and x: "startswith (lower t) ''0x''"
  then obtain a b r where t: "t = a # b # r" by (cases t rule: list.exhaust [case_names Nil Cons])
      (auto simp: lower_def startswith_iff Cons_eq_map_conv)
  have "lower_char b = CHR ''x''" using x t by (simp add: lower_def startswith_iff)
  moreover have b: "48 \<le> code_of b" "code_of b \<le> 57"
    using d t by (simp_all add: is_digits_def py_digit_def Let_def)
  then have "lower_char b = b" by (simp add: lower_char_def Let_def)
  ultimately show False using b by (simp add: code_of_def)
qed

text \<open>
  The SEV object never carries half of an ID block: \<^verbatim>\<open>id-block=\<close> and \<^verbatim>\<open>id-auth=\<close> are passed
  together, exactly when both are set and not empty, and with the values of the profile; a
  numeric policy, given as a number or in decimal digits, reaches QEMU with the same value, and
  any other text keeps the value \<^verbatim>\<open>int(text, 0)\<close> gives it.
\<close>

theorem sev_object_id_and_policy:
  "(''id-block='' @ x \<in> set (sev_parts p)) =
     (vp_id_block p = Some x \<and> x \<noteq> [] \<and> given (vp_id_auth p)) \<and>
   (''id-auth='' @ x \<in> set (sev_parts p)) =
     (vp_id_auth p = Some x \<and> x \<noteq> [] \<and> given (vp_id_block p)) \<and>
   py_int0 (format_policy (PolicyInt n)) = Some n \<and>
   py_int0 (format_policy (PolicyStr s)) = (if is_digits (strip s) then py_int s else py_int0 s)"
  unfolding sev_parts_id_block
  using py_int_digits [of s] is_digits_not_0x [of "strip s"]
  by (auto simp: given_def py_int0_hex_int py_int_strip py_int0_strip Let_def)

text \<open>
  The logged command line is exact: a POSIX shell that reads it sees the very arguments QEMU
  was started with.
\<close>

theorem command_line_words: "sh_words Between [] (command_line l) = Some (lr_command l)"
  using sh_words_join [of "[]" "lr_command l"] by (simp add: command_line_def shlex_join_def)

end
