(* ===== verification/Guest_Vsock.thy ===== *)
theory Guest_Vsock
  imports Vm_Profile
begin

text \<open>
  The host's end of the command channel, \<^verbatim>\<open>sev_verify/guest_vsock.py\<close>: one connection per
  request, the response read to the end of the stream under a size limit, the wait for the
  guest to boot, and the transfer of a file as base64.

  Both loops are total: each receive adds at least one byte to a total the limit bounds, and
  each round of the wait sleeps, which moves the clock towards the deadline.
\<close>

section \<open>Requests\<close>

definition vsock_connect :: "'e ops \<Rightarrow> vm_profile \<Rightarrow> int \<Rightarrow> ('e world, nat) io" where
  "vsock_connect ops p timeout =
     itry OSError (ext (op_connect ops (vp_vsock_cid p) (vp_vsock_port p) timeout))
       (\<lambda>e. ithrow (Exc GuestVsockError (''Failed to connect to guest vsock CID ''
          @ str_int (vp_vsock_cid p) @ '' port '' @ str_int (vp_vsock_port p) @ '': '' @ msg_of e)))"

definition send_request :: "'e ops \<Rightarrow> nat \<Rightarrow> json \<Rightarrow> ('e world, unit) io" where
  "send_request ops sock payload = ext (op_sendall ops sock (encode (dumps payload)))"

text \<open>The receive loop: the total so far and the chunks, in reverse order of arrival.\<close>

definition recv_part :: "'e ops \<Rightarrow> nat \<Rightarrow> ('e world, bytes) io" where
  "recv_part ops sock =
     itry TimeoutError (ext (op_recv ops sock))
       (\<lambda>_. ithrow (Exc GuestVsockError ''Timed out waiting for guest vsock response''))"

function recv_loop :: "'e ops \<Rightarrow> nat \<Rightarrow> int \<Rightarrow> bytes list \<Rightarrow> int \<Rightarrow> ('e world, bytes list) io" where
  "recv_loop ops sock max_bytes chunks got w =
     (case recv_part ops sock w of
        (Inl e, w') \<Rightarrow> (Inl e, w')
      | (Inr part, w') \<Rightarrow>
          if part = [] then (Inr chunks, w')
          else if got + int (length part) > max_bytes then
            (raise GuestVsockError (''Guest vsock response exceeded '' @ str_int max_bytes @ '' bytes''), w')
          else recv_loop ops sock max_bytes (chunks @ [part]) (got + int (length part)) w')"
  by pat_completeness auto
termination
proof (relation "measure (\<lambda>(ops, sock, max_bytes, chunks, got, w). nat (max_bytes - got))", goal_cases)
  case (2 ops sock max_bytes chunks got w x w' part)
  have "0 < int (length part)" using 2(3) by simp
  then have "got < max_bytes" using 2(4) by linarith
  then show ?case using 2(3) by simp
qed simp

declare recv_loop.simps [simp del]

definition read_response :: "'e ops \<Rightarrow> nat \<Rightarrow> int \<Rightarrow> ('e world, json) io" where
  "read_response ops sock max_bytes =
     ibind (recv_loop ops sock max_bytes [] 0) (\<lambda>chunks.
       if chunks = [] then ithrow (Exc GuestVsockError ''Guest vsock agent closed without a response'')
       else ilift (rbind (decode_strict (concat chunks)) (\<lambda>text.
         catch JSONDecodeError (loads text)
           (\<lambda>_. raise GuestVsockError ''Guest vsock agent returned invalid JSON''))))"

text \<open>\<^verbatim>\<open>with _connect(profile, timeout) as sock: send; read\<close>\<close>

definition vsock_request :: "'e ops \<Rightarrow> vm_profile \<Rightarrow> json \<Rightarrow> int \<Rightarrow> ('e world, json) io" where
  "vsock_request ops p payload timeout =
     ibind (vsock_connect ops p timeout) (\<lambda>sock.
       ifinally
         (iseq (send_request ops sock payload)
               (read_response ops sock (vp_vsock_max_response_bytes p)))
         (ext (op_close ops sock)))"

section \<open>Responses\<close>

record guest_result =
  gcr_command :: string
  gcr_exit_code :: int
  gcr_stdout :: string
  gcr_stderr :: string
  gcr_duration_ms :: int

text \<open>\<^verbatim>\<open>int(v)\<close> and \<^verbatim>\<open>str(v or "")\<close>\<close>

fun json_int :: "(string \<Rightarrow> exc + int) \<Rightarrow> json \<Rightarrow> exc + int" where
  "json_int fi (JInt n) = Inr n"
| "json_int fi (JBool b) = Inr (if b then 1 else 0)"
| "json_int fi (JFloat t) = fi t"
| "json_int fi (JStr s) = (case py_int s of Some n \<Rightarrow> Inr n
     | None \<Rightarrow> raise ValueError (''invalid literal for int() with base 10: '' @ repr_str s))"
| "json_int fi v = raise TypeError ''int() argument must be a string, a bytes-like object or a real number''"

definition text_or_empty :: "(string \<Rightarrow> string) \<Rightarrow> json option \<Rightarrow> string" where
  "text_or_empty fs v = (case v of None \<Rightarrow> [] | Some j \<Rightarrow> if truthy j then json_str fs j else [])"

fun parse_command_response :: "'e ops \<Rightarrow> string \<Rightarrow> json \<Rightarrow> int \<Rightarrow> exc + guest_result" where
  "parse_command_response ops command (JObj ms) duration =
     (case map_of ms ''exit_code'' of
        None \<Rightarrow>
          if map_of ms ''ok'' = Some (JBool True) then
            Inr \<lparr>gcr_command = command, gcr_exit_code = 0, gcr_stdout = [], gcr_stderr = [],
                 gcr_duration_ms = duration\<rparr>
          else raise GuestVsockError (''Unexpected guest vsock response: ''
            @ (case map_of ms ''error'' of
                 Some e \<Rightarrow> if truthy e then json_str (op_float_str ops) e
                           else json_str (op_float_str ops) (JObj ms)
               | None \<Rightarrow> json_str (op_float_str ops) (JObj ms)))
      | Some code \<Rightarrow>
          rbind (json_int (op_float_int ops) code) (\<lambda>n.
            Inr \<lparr>gcr_command = command, gcr_exit_code = n,
                 gcr_stdout = text_or_empty (op_float_str ops) (map_of ms ''stdout''),
                 gcr_stderr = text_or_empty (op_float_str ops) (map_of ms ''stderr''),
                 gcr_duration_ms = duration\<rparr>))"
| "parse_command_response ops command v duration =
     raise AttributeError ''response object has no attribute get''"

section \<open>Waiting for the guest\<close>

definition ping_guest :: "'e ops \<Rightarrow> vm_profile \<Rightarrow> ('e world, guest_result) io" where
  "ping_guest ops p =
     ibind now (\<lambda>start.
     ibind (vsock_request ops p (JObj [(''ping'', JBool True)]) (vp_vsock_connect_timeout p)) (\<lambda>response.
     ibind (elapsed_ms start) (\<lambda>duration.
       ilift (parse_command_response ops ''ping'' response duration))))"

definition poll_process :: "'e ops \<Rightarrow> int option \<Rightarrow> ('e world, int option) io" where
  "poll_process ops process =
     (case process of None \<Rightarrow> iret None | Some proc \<Rightarrow> ext (op_poll ops proc))"

text \<open>\<^verbatim>\<open>poll_interval = 2.0\<close>, the default every caller uses, in microseconds.\<close>

definition poll_interval :: int where "poll_interval = 2000000"

text \<open>What follows a failed ping: the process is looked at, and the loop sleeps.\<close>

definition after_failed_ping :: "'e ops \<Rightarrow> int option \<Rightarrow> ('e world, unit) io" where
  "after_failed_ping ops process =
     ibind (poll_process ops process) (\<lambda>status.
       case status of
         Some code \<Rightarrow> ithrow (Exc GuestVsockError (''QEMU exited with code '' @ str_int code
            @ '' before the guest became ready''))
       | None \<Rightarrow> sleep ops poll_interval)"

text \<open>The loops keep what one round keeps.\<close>

lemma recv_loop_keeps:
  assumes "keeps I (recv_part ops sock)"
  shows "keeps I (recv_loop ops sock m chunks got)"
proof -
  have "I w \<Longrightarrow> I (snd (recv_loop ops sock m chunks got w))" for w
    using assms
  proof (induction ops sock m chunks got w rule: recv_loop.induct)
    case (1 ops sock m chunks got w)
    obtain r w' where r: "recv_part ops sock w = (r, w')" by (cases "recv_part ops sock w")
    have w': "I w'" using keeps_run [OF 1(3) r 1(2)] .
    show ?case
    proof (cases r)
      case (Inr part)
      then show ?thesis using 1(1) [OF r [symmetric] Inr] w' r 1(3)
        by (subst recv_loop.simps) simp
    qed (use r w' in \<open>subst recv_loop.simps, simp\<close>)
  qed
  then show ?thesis by (simp add: keeps_def)
qed

context quiet_world
begin

lemma keeps_connect: "keeps I (vsock_connect ops p timeout)"
  unfolding vsock_connect_def by (intro inv_intro)

lemma keeps_send: "keeps I (send_request ops sock payload)"
  unfolding send_request_def by (intro inv_intro)

lemma keeps_recv_part: "keeps I (recv_part ops sock)"
  unfolding recv_part_def by (intro inv_intro)

lemma keeps_read_response: "keeps I (read_response ops sock m)"
  unfolding read_response_def by (intro inv_intro recv_loop_keeps keeps_recv_part)

lemma keeps_request: "keeps I (vsock_request ops p payload timeout)"
  unfolding vsock_request_def
  by (intro inv_intro keeps_connect keeps_send keeps_read_response)

lemma keeps_ping: "keeps I (ping_guest ops p)"
  unfolding ping_guest_def by (intro inv_intro keeps_request)

lemma keeps_poll: "keeps I (poll_process ops process)"
  unfolding poll_process_def by (intro inv_intro)

lemma keeps_after_failed_ping: "keeps I (after_failed_ping ops process)"
  unfolding after_failed_ping_def
  by (intro inv_intro keeps_poll inv_sleep) (simp add: poll_interval_def)

end

lemma ping_clock: "ping_guest ops p w = (r, w') \<Longrightarrow> w_clock w \<le> w_clock w'"
  using keeps_run [OF clock.keeps_ping, of ops p w r w' "w_clock w"] by (simp add: clock_from_def)

lemma poll_clock: "poll_process ops process w = (r, w') \<Longrightarrow> w_clock w \<le> w_clock w'"
  using keeps_run [OF clock.keeps_poll, of ops process w r w' "w_clock w"] by (simp add: clock_from_def)

lemma after_failed_ping_clock:
  assumes "after_failed_ping ops process w = (Inr u, w')"
  shows "w_clock w + poll_interval \<le> w_clock w'"
proof -
  from assms obtain w1 where p: "poll_process ops process w = (Inr None, w1)"
    and s: "sleep ops poll_interval w1 = (Inr u, w')"
    by (auto simp: after_failed_ping_def ibind_eq_Inr split: option.splits)
  have "w_clock w1 + poll_interval \<le> w_clock w'"
    using s by (auto simp: sleep_def split: prod.splits)
  then show ?thesis using poll_clock [OF p] by simp
qed

function wait_loop ::
  "'e ops \<Rightarrow> vm_profile \<Rightarrow> int \<Rightarrow> int \<Rightarrow> int option \<Rightarrow> string \<Rightarrow> ('e world, unit) io" where
  "wait_loop ops p boot_timeout deadline process last_error w =
     (if w_clock w < deadline then
        (case ping_guest ops p w of
           (Inr _, w1) \<Rightarrow> (Inr (), w1)
         | (Inl e, w1) \<Rightarrow>
             if \<not> is_a e GuestVsockError then (Inl e, w1)
             else (case after_failed_ping ops process w1 of
                 (Inl e2, w2) \<Rightarrow> (Inl e2, w2)
               | (Inr _, w2) \<Rightarrow> wait_loop ops p boot_timeout deadline process (msg_of e) w2))
      else
        (raise GuestVsockError
           (''Vsock agent on CID '' @ str_int (vp_vsock_cid p) @ '':'' @ str_int (vp_vsock_port p)
            @ '' not ready after '' @ str_int boot_timeout @ ''.0s''
            @ (if last_error \<noteq> [] then '': '' @ last_error else [])), w))"
  by pat_completeness auto
termination
proof (relation "measure (\<lambda>(ops, p, boot_timeout, deadline, process, last_error, w).
                            nat (deadline - w_clock w))", goal_cases)
  case (2 ops p boot_timeout deadline process last_error w x w1 e x2 w2 u)
  have "w_clock w + poll_interval \<le> w_clock w2"
    using ping_clock [of ops p w] after_failed_ping_clock [of ops process w1] 2
    by (metis order_trans add_right_mono)
  then show ?case using 2(1) by (simp add: poll_interval_def)
qed simp

declare wait_loop.simps [simp del]

definition wait_for_guest ::
  "'e ops \<Rightarrow> vm_profile \<Rightarrow> int option \<Rightarrow> int option \<Rightarrow> ('e world, unit) io" where
  "wait_for_guest ops p timeout process w =
     (let boot_timeout = (case timeout of Some t \<Rightarrow> t | None \<Rightarrow> vp_vsock_boot_timeout p)
      in wait_loop ops p boot_timeout (w_clock w + boot_timeout * 1000000) process [] w)"

definition check_guest_ready ::
  "'e ops \<Rightarrow> vm_profile \<Rightarrow> int option \<Rightarrow> int option \<Rightarrow> ('e world, bool \<times> string) io" where
  "check_guest_ready ops p timeout process =
     itry GuestVsockError
       (iseq (wait_for_guest ops p timeout process) (iret (True, [])))
       (\<lambda>e. iret (False, msg_of e))"

section \<open>Commands and files\<close>

definition run_guest_command ::
  "'e ops \<Rightarrow> vm_profile \<Rightarrow> string \<Rightarrow> int option \<Rightarrow> bool \<Rightarrow> ('e world, guest_result) io" where
  "run_guest_command ops p command timeout wait_for_ready =
     iseq (iwhen wait_for_ready (wait_for_guest ops p None None))
       (let run_timeout = (case timeout of Some t \<Rightarrow> t | None \<Rightarrow> vp_vsock_command_timeout p) in
        ibind now (\<lambda>start.
        ibind (vsock_request ops p (JObj [(''cmd'', JStr command)]) run_timeout) (\<lambda>response.
        ibind (elapsed_ms start) (\<lambda>duration.
          ilift (parse_command_response ops command response duration)))))"

text \<open>\<^verbatim>\<open>re.sub(r"\s+", "", s)\<close>\<close>

definition drop_spaces :: "string \<Rightarrow> string" where
  "drop_spaces s = filter (\<lambda>c. \<not> py_space c) s"

text \<open>From the output of \<^verbatim>\<open>base64\<close> on the guest to the bytes of the file.\<close>

definition decode_pulled :: "string \<Rightarrow> guest_result \<Rightarrow> exc + bytes" where
  "decode_pulled guest_path gcr =
     (if gcr_exit_code gcr \<noteq> 0 then
        raise GuestVsockError (''Guest base64 of '' @ repr_str guest_path @ '' failed with exit ''
          @ str_int (gcr_exit_code gcr) @ '': ''
          @ (if strip (gcr_stderr gcr) \<noteq> [] then strip (gcr_stderr gcr) else strip (gcr_stdout gcr)))
      else
        let clean = drop_spaces (gcr_stdout gcr) in
        if clean = [] then
          raise GuestVsockError (''Guest returned empty base64 for '' @ repr_str guest_path)
        else if \<not> list_all is_ascii clean then
          raise ValueError ''string argument should contain only ASCII characters''
        else (case b64decode clean of
            Some b \<Rightarrow> Inr b
          | None \<Rightarrow> raise GuestVsockError
              (''Invalid base64 while fetching '' @ repr_str guest_path @ '' from guest'')))"

definition pull_command :: "string \<Rightarrow> string" where
  "pull_command guest_path = ''base64 '' @ shlex_quote guest_path"

definition fetch_guest_file_bytes ::
  "'e ops \<Rightarrow> vm_profile \<Rightarrow> string \<Rightarrow> int option \<Rightarrow> ('e world, bytes) io" where
  "fetch_guest_file_bytes ops p guest_path timeout =
     ibind (run_guest_command ops p (pull_command guest_path) timeout False)
       (\<lambda>gcr. ilift (decode_pulled guest_path gcr))"

definition pull_guest_file_to_host ::
  "'e ops \<Rightarrow> vm_profile \<Rightarrow> string \<Rightarrow> path \<Rightarrow> int option \<Rightarrow> ('e world, unit) io" where
  "pull_guest_file_to_host ops p guest_path host_path timeout =
     ibind (fetch_guest_file_bytes ops p guest_path timeout) (\<lambda>data.
       iseq (mkdir_parents (path_parent host_path)) (write_bytes host_path data))"

definition fetch_guest_journal ::
  "'e ops \<Rightarrow> vm_profile \<Rightarrow> int option \<Rightarrow> ('e world, guest_result) io" where
  "fetch_guest_journal ops p timeout =
     run_guest_command ops p ''journalctl --no-pager -b'' timeout False"

section \<open>Properties: receiving\<close>

lemma recv_loop_limit:
  "case fst (recv_loop ops sock m chunks got w) of
     Inr cs \<Rightarrow> \<exists>new. cs = chunks @ new \<and> [] \<notin> set new \<and> (new = [] \<or> got + int (length (concat new)) \<le> m)
   | Inl e \<Rightarrow> True"
proof (induction ops sock m chunks got w rule: recv_loop.induct)
  case (1 ops sock m chunks got w)
  obtain r w' where r: "recv_part ops sock w = (r, w')" by (cases "recv_part ops sock w")
  show ?case
  proof (cases r)
    case (Inl e)
    then show ?thesis using r by (subst recv_loop.simps) simp
  next
    case (Inr part)
    consider "part = []" | "part \<noteq> []" "got + int (length part) > m"
      | "part \<noteq> []" "\<not> got + int (length part) > m" by blast
    then show ?thesis
    proof cases
      case 3
      let ?rec = "recv_loop ops sock m (chunks @ [part]) (got + int (length part)) w'"
      have step: "recv_loop ops sock m chunks got w = ?rec"
        using 3 Inr r by (subst recv_loop.simps) simp
      have ih: "case fst ?rec of
          Inr cs \<Rightarrow> \<exists>new. cs = (chunks @ [part]) @ new \<and> [] \<notin> set new \<and>
             (new = [] \<or> got + int (length part) + int (length (concat new)) \<le> m)
        | Inl e \<Rightarrow> True"
        using 1 [OF r [symmetric] Inr 3] .
      show ?thesis
      proof (cases "fst ?rec")
        case (Inr cs)
        with ih obtain new where new: "cs = chunks @ part # new" "[] \<notin> set new"
          "new = [] \<or> got + int (length part) + int (length (concat new)) \<le> m" by auto
        then have "got + int (length (concat (part # new))) \<le> m" using 3 by auto
        then have "\<exists>n. cs = chunks @ n \<and> [] \<notin> set n \<and> (n = [] \<or> got + int (length (concat n)) \<le> m)"
          using new 3 by (intro exI [of _ "part # new"]) auto
        then show ?thesis unfolding step by (simp add: Inr)
      qed (simp add: step)
    qed (use Inr r in \<open>subst recv_loop.simps, simp\<close>)+
  qed
qed

text \<open>The socket hands over the chunks \<open>cs\<close>, one per receive, and then the end of the stream.\<close>

fun delivers :: "'e ops \<Rightarrow> nat \<Rightarrow> bytes list \<Rightarrow> 'e world \<Rightarrow> 'e world \<Rightarrow> bool" where
  "delivers ops sock [] w w' = (ext (op_recv ops sock) w = (Inr [], w'))"
| "delivers ops sock (c # cs) w w' =
     (c \<noteq> [] \<and> (case ext (op_recv ops sock) w of
        (Inr d, w1) \<Rightarrow> d = c \<and> delivers ops sock cs w1 w' | (Inl _, _) \<Rightarrow> False))"

lemma recv_loop_delivers:
  assumes "delivers ops sock cs w w'" and "cs = [] \<or> got + int (length (concat cs)) \<le> m"
  shows "recv_loop ops sock m chunks got w = (Inr (chunks @ cs), w')"
  using assms
proof (induction cs arbitrary: chunks got w)
  case Nil
  then show ?case by (subst recv_loop.simps) (simp add: recv_part_def itry_def)
next
  case (Cons c cs)
  from Cons.prems(1) obtain w1 where c: "c \<noteq> []" "ext (op_recv ops sock) w = (Inr c, w1)"
    "delivers ops sock cs w1 w'"
    by (auto split: prod.splits sum.splits)
  have le: "got + int (length c) \<le> m" "cs = [] \<or> (got + int (length c)) + int (length (concat cs)) \<le> m"
    using Cons.prems(2) by auto
  have "recv_loop ops sock m chunks got w
      = recv_loop ops sock m (chunks @ [c]) (got + int (length c)) w1"
    using c le by (subst recv_loop.simps) (simp add: recv_part_def itry_def)
  then show ?case using Cons.IH [OF c(3) le(2)] by simp
qed

text \<open>
  A response is reassembled whatever way the stream is cut: if the socket delivers chunks
  that stay within the limit, the response is the JSON text of their concatenation, and no
  chunk boundary, even inside a character, matters.
\<close>

theorem read_response_reassembles:
  assumes "delivers ops sock cs w w'" and "cs \<noteq> []" and "int (length (concat cs)) \<le> m"
  shows "read_response ops sock m w =
    (rbind (decode_strict (concat cs)) (\<lambda>text. case loads text of
        Inr v \<Rightarrow> Inr v
      | Inl _ \<Rightarrow> raise GuestVsockError ''Guest vsock agent returned invalid JSON''), w')"
proof -
  have "recv_loop ops sock m [] 0 w = (Inr cs, w')"
    using recv_loop_delivers [OF assms(1), of 0 m "[]"] assms(3) by simp
  moreover have "catch JSONDecodeError (loads tx) (\<lambda>_. raise c s) =
      (case loads tx of Inr v \<Rightarrow> Inr v | Inl _ \<Rightarrow> raise c s)" for tx c s
    using loads_error [of tx]
    by (cases "loads tx") (auto simp: catch_def is_a_def)
  ultimately show ?thesis using assms(2) by (simp add: read_response_def ibind_def)
qed

text \<open>A socket that plays a script.\<close>

definition script_ops :: "bytes list ops" where
  "script_ops = idle_ops
     \<lparr>op_connect := (\<lambda>cid port t. iret 0),
      op_recv := (\<lambda>sock w. case w_ext w of [] \<Rightarrow> (Inr [], w) | c # cs \<Rightarrow> (Inr c, w\<lparr>w_ext := cs\<rparr>))\<rparr>"

theorem read_response_reassembles_witness:
  "fst (read_response script_ops 0 100 (empty_world [encode ''{'', encode ''}'']))
     = Inr (JObj [])"
proof -
  have d: "delivers script_ops 0 [encode ''{'', encode ''}'']
      (empty_world [encode ''{'', encode ''}'']) (empty_world [])"
    by (simp add: script_ops_def ext_def empty_world_def encode_def)
  have l: "loads ''{}'' = Inr (JObj [])"
    by code_simp
  have s: "decode_strict (encode ''{'' @ encode ''}'') = Inr ''{}''"
    by code_simp
  show ?thesis
    using read_response_reassembles [OF d, of 100] l s by (simp add: encode_def)
qed

section \<open>Properties: waiting\<close>

text \<open>How the loop of the wait ends.\<close>

lemma wait_loop_outcome:
  "case wait_loop ops p bt deadline process err w of
     (Inr _, w') \<Rightarrow> \<exists>w1 g. w_clock w1 < deadline \<and> ping_guest ops p w1 = (Inr g, w')
   | (Inl e, w') \<Rightarrow> deadline \<le> w_clock w' \<or>
       (\<exists>w1. ping_guest ops p w1 = (Inl e, w') \<and> is_a e GuestVsockError = False) \<or>
       (\<exists>w1. after_failed_ping ops process w1 = (Inl e, w'))"
proof (induction ops p bt deadline process err w rule: wait_loop.induct)
  case (1 ops p bt deadline process err w)
  show ?case
  proof (cases "w_clock w < deadline")
    case False
    then show ?thesis by (subst wait_loop.simps) simp
  next
    case True
    obtain r w1 where p1: "ping_guest ops p w = (r, w1)" by (cases "ping_guest ops p w")
    show ?thesis
    proof (cases r)
      case (Inr g)
      then show ?thesis using True p1 by (subst wait_loop.simps) auto
    next
      case (Inl e)
      show ?thesis
      proof (cases "is_a e GuestVsockError")
        case False
        then show ?thesis using True p1 Inl by (subst wait_loop.simps) auto
      next
        case tr: True
        obtain q w2 where p2: "after_failed_ping ops process w1 = (q, w2)"
          by (cases "after_failed_ping ops process w1")
        show ?thesis
        proof (cases q)
          case (Inl e2)
          then show ?thesis using True p1 p2 \<open>r = Inl e\<close> tr by (subst wait_loop.simps) auto
        next
          case (Inr u)
          have step: "wait_loop ops p bt deadline process err w
              = wait_loop ops p bt deadline process (msg_of e) w2"
            using True p1 p2 \<open>r = Inl e\<close> tr Inr by (subst wait_loop.simps) simp
          have nn: "\<not> \<not> is_a e GuestVsockError" using tr by simp
          show ?thesis unfolding step
            using 1 [OF True p1 [symmetric] \<open>r = Inl e\<close> nn p2 [symmetric] Inr] .
        qed
      qed
    qed
  qed
qed


section \<open>Properties: files\<close>

text \<open>The output of the guest's \<^verbatim>\<open>base64\<close> command: lines of 76 characters.\<close>

function wrap76 :: "string \<Rightarrow> string" where
  "wrap76 s = (if s = [] then [] else take 76 s @ nl @ wrap76 (drop 76 s))"
  by pat_completeness auto
termination by (relation "measure length") auto

declare wrap76.simps [simp del]

lemma drop_spaces_wrap76: "drop_spaces (wrap76 s) = drop_spaces s"
proof (induction s rule: wrap76.induct)
  case (1 s)
  show ?case
  proof (cases "s = []")
    case False
    have "drop_spaces (wrap76 s) = drop_spaces (take 76 s) @ drop_spaces (drop 76 s)"
      using False 1 by (subst wrap76.simps) (simp add: drop_spaces_def nl_def py_space_def code_of_def)
    then show ?thesis by (metis append_take_drop_id drop_spaces_def filter_append)
  qed (simp add: wrap76.simps)
qed

lemma drop_spaces_plain: "list_all plain_char s \<Longrightarrow> drop_spaces s = s"
  by (induction s) (simp_all add: drop_spaces_def plain_char_def)

text \<open>
  C30: pulling a file gives its bytes: the guest's shell reads the command as \<^verbatim>\<open>base64\<close> and the
  very path, whatever characters it contains, and decoding the line-wrapped output yields the
  file; only an empty file cannot be pulled.
\<close>

theorem pull_roundtrip:
  "sh_words Between [] (pull_command guest_path) = Some [''base64'', guest_path] \<and>
   decode_pulled guest_path
     \<lparr>gcr_command = pull_command guest_path, gcr_exit_code = 0,
      gcr_stdout = wrap76 (b64encode b), gcr_stderr = err, gcr_duration_ms = d\<rparr> =
   (if b = [] then raise GuestVsockError (''Guest returned empty base64 for '' @ repr_str guest_path)
    else Inr b)"
proof
  have "shlex_quote ''base64'' = ''base64''"
    by (simp add: shlex_quote_def sh_safe_def py_alnum_def py_alpha_def py_digit_def code_of_def)
  then have "pull_command guest_path = shlex_join [''base64'', guest_path]"
    by (simp add: pull_command_def shlex_join_def)
  then show "sh_words Between [] (pull_command guest_path) = Some [''base64'', guest_path]"
    by (simp only: sh_words_join)
  have clean: "drop_spaces (wrap76 (b64encode b)) = b64encode b"
    using plain_b64encode [of b] by (simp add: drop_spaces_wrap76 drop_spaces_plain)
  have ascii: "list_all is_ascii (b64encode b)"
    using plain_b64encode [of b] by (simp add: list_all_iff is_ascii_def plain_char_def)
  have "b64encode b = [] \<longleftrightarrow> b = []" using length_b64encode [of b] by (cases b) auto
  then show "decode_pulled guest_path
     \<lparr>gcr_command = pull_command guest_path, gcr_exit_code = 0,
      gcr_stdout = wrap76 (b64encode b), gcr_stderr = err, gcr_duration_ms = d\<rparr> =
   (if b = [] then raise GuestVsockError (''Guest returned empty base64 for '' @ repr_str guest_path)
    else Inr b)"
    using ascii by (simp add: decode_pulled_def clean Let_def b64decode_encode)
qed

text \<open>
  A connection that breaks while the response is read is not reported as a transport error:
  whatever the receive raises, other than a timeout, leaves \<^verbatim>\<open>run_guest_command\<close> as it is, and
  the callers' \<^verbatim>\<open>except GuestVsockError\<close> clauses do not catch it.
\<close>

theorem broken_connection_escapes:
  assumes "ext (op_connect ops (vp_vsock_cid p) (vp_vsock_port p) t) w = (Inr sock, w1)"
    and "send_request ops sock (JObj [(''cmd'', JStr command)]) w1 = (Inr (), w2)"
    and "ext (op_recv ops sock) w2 = (raise ConnectionError s, w3)"
    and "ext (op_close ops sock) w3 = (Inr (), w4)"
  shows "run_guest_command ops p command (Some t) False w = (raise ConnectionError s, w4) \<and>
    is_a (Exc ConnectionError s) GuestVsockError = False"
proof -
  have n: "\<not> is_a (Exc ConnectionError s) TimeoutError"
    "\<not> is_a (Exc ConnectionError s) GuestVsockError" by (simp_all add: is_a_def)
  have "recv_loop ops sock m [] 0 w2 = (raise ConnectionError s, w3)" for m
    using assms(3) n by (subst recv_loop.simps) (simp add: recv_part_def itry_def)
  then have "read_response ops sock m w2 = (raise ConnectionError s, w3)" for m
    by (simp add: read_response_def ibind_def)
  then have "vsock_request ops p (JObj [(''cmd'', JStr command)]) t w = (raise ConnectionError s, w4)"
    using assms by (simp add: vsock_request_def vsock_connect_def ibind_def itry_def ifinally_def iseq_def)
  then show ?thesis
    using n by (simp add: run_guest_command_def iwhen_def iseq_def ibind_def now_def iget_def iret_def Let_def)
qed

theorem broken_connection_escapes_witness:
  "fst (run_guest_command (script_ops\<lparr>op_recv := (\<lambda>_. ithrow (Exc ConnectionError ''reset''))\<rparr>)
      (mk_profile ''g.efi'') ''id'' (Some 5) False (empty_world [])) = raise ConnectionError ''reset''"
proof -
  let ?ops = "script_ops\<lparr>op_recv := (\<lambda>_. ithrow (Exc ConnectionError ''reset''))\<rparr>"
  let ?w = "empty_world [] :: bytes list world"
  have a: "ext (op_connect ?ops (vp_vsock_cid (mk_profile ''g.efi''))
      (vp_vsock_port (mk_profile ''g.efi'')) 5) ?w = (Inr 0, ?w)"
    by (simp add: script_ops_def idle_ops_def ext_def empty_world_def)
  have b: "send_request ?ops 0 (JObj [(''cmd'', JStr ''id'')]) ?w = (Inr (), ?w)"
    by (simp add: send_request_def script_ops_def idle_ops_def ext_def empty_world_def)
  have c: "ext (op_recv ?ops 0) ?w = (raise ConnectionError ''reset'', ?w)"
    by (simp add: ext_def empty_world_def)
  have d: "ext (op_close ?ops 0) ?w = (Inr (), ?w)"
    by (simp add: script_ops_def idle_ops_def ext_def empty_world_def)
  show ?thesis using broken_connection_escapes [OF a b c d] by simp
qed

end
