(* ===== verification/Vm_Launch.thy ===== *)
theory Vm_Launch
  imports Guest_Vsock
begin

text \<open>
  \<^verbatim>\<open>VMProfile.vm_launch\<close> (\<^verbatim>\<open>sev_verify/vm_profile.py\<close>), with the defaults every caller uses:
  validate, build the command, prepare the logs, start QEMU, look at it after two seconds, and
  wait for the guest to boot.
\<close>

definition prepare_logs :: "vm_profile \<Rightarrow> ('e world, unit) io" where
  "prepare_logs p =
     iseq (mkdir_parents (path_parent (path_of (vp_guest_error_log p))))
    (iseq (iwhen (vp_debug p)
            (iseq (mkdir_parents (path_parent (path_of (vp_guest_boot_log p))))
                  (write_bytes (path_of (vp_guest_boot_log p)) [])))
          (write_bytes (path_of (vp_guest_error_log p)) []))"

text \<open>QEMU is gone: its standard error is the message.\<close>

definition launch_exited :: "vm_profile \<Rightarrow> int \<Rightarrow> ('e world, 'a) io" where
  "launch_exited p code =
     ibind (read_bytes (path_of (vp_guest_error_log p))) (\<lambda>data.
       let stderr_tail = strip (decode_replace data) in
       ithrow (Exc VMLaunchError (''QEMU exited immediately with code '' @ str_int code
         @ (if stderr_tail \<noteq> [] then '': '' @ stderr_tail else []))))"

text \<open>The message of a launch whose guest did not boot.\<close>

definition boot_failure :: "'e ops \<Rightarrow> vm_profile \<Rightarrow> int \<Rightarrow> string \<Rightarrow> ('e world, string) io" where
  "boot_failure ops p proc boot_error =
     (let message = ''Guest did not boot: '' @ boot_error in
      ibind (ext (op_poll ops proc)) (\<lambda>status.
        if status = None then iret message
        else ibind (read_guest_errors (vp_guest_error_log p)) (\<lambda>errors.
          iret (if strip errors \<noteq> [] then message @ nl @ ''QEMU stderr:'' @ nl @ strip errors
                else message))))"

definition vm_launch :: "'e ops \<Rightarrow> vm_profile \<Rightarrow> ('e world, launch_result) io" where
  "vm_launch ops p =
     iseq (iask (vp_validate p))
    (ibind (iask (build_qemu_command p)) (\<lambda>command.
     iseq (prepare_logs p)
    (ibind (ext (op_popen ops command (path_of (vp_guest_error_log p)))) (\<lambda>proc.
     iseq (sleep ops 2000000)
    (ibind (ext (op_poll ops proc)) (\<lambda>status.
       case status of
         Some code \<Rightarrow> launch_exited p code
       | None \<Rightarrow>
           ibind (check_guest_ready ops p None (Some proc)) (\<lambda>(booted, boot_error).
           ibind (if booted then iret ''VM launched and guest booted''
                  else boot_failure ops p proc boot_error) (\<lambda>message.
           ibind (if given (vp_guest_id p) then iret (the (vp_guest_id p)) else ext (op_uuid4 ops))
             (\<lambda>gid.
             iret \<lparr>lr_pid = proc, lr_command = command, lr_profile = p, lr_ok = booted,
                   lr_message = message, lr_guest_id = gid, lr_process = Some proc\<rparr>)))))))))"

section \<open>Properties\<close>

lemma wait_for_guest_keeps:
  assumes ping: "keeps I (ping_guest ops p)" and failed: "keeps I (after_failed_ping ops process)"
  shows "keeps I (wait_for_guest ops p timeout process)"
proof -
  have loop: "I w \<Longrightarrow> I (snd (wait_loop ops p bt deadline process err w))" for w bt deadline err
    using ping failed
  proof (induction ops p bt deadline process err w rule: wait_loop.induct)
    case (1 ops p bt deadline process err w)
    obtain r w1 where p1: "ping_guest ops p w = (r, w1)" by (cases "ping_guest ops p w")
    have c1: "I w1" using keeps_run [OF 1(3) p1 1(2)] .
    obtain q w2 where p2: "after_failed_ping ops process w1 = (q, w2)"
      by (cases "after_failed_ping ops process w1")
    have c2: "I w2" using keeps_run [OF 1(4) p2 c1] .
    show ?case
    proof (cases "w_clock w < deadline")
      case True
      show ?thesis
      proof (cases r)
        case (Inl e)
        show ?thesis
        proof (cases "is_a e GuestVsockError")
          case tr: True
          show ?thesis
          proof (cases q)
            case (Inr u)
            then show ?thesis
              using 1(1) [OF True p1 [symmetric] \<open>r = Inl e\<close> _ p2 [symmetric] Inr] tr c2 True p1 p2
                \<open>r = Inl e\<close> 1(3,4)
              by (subst wait_loop.simps) simp
          qed (use True p1 p2 Inl tr c2 in \<open>subst wait_loop.simps, simp\<close>)
        qed (use True p1 Inl c1 in \<open>subst wait_loop.simps, simp\<close>)
      qed (use True p1 c1 in \<open>subst wait_loop.simps, simp\<close>)
    qed (use 1(2) in \<open>subst wait_loop.simps, simp\<close>)
  qed
  show ?thesis unfolding keeps_def wait_for_guest_def Let_def using loop by blast
qed

context quiet_world
begin

lemma keeps_wait_for_guest: "keeps I (wait_for_guest ops p timeout process)"
  by (intro wait_for_guest_keeps keeps_ping keeps_after_failed_ping)

lemma keeps_check_guest_ready: "keeps I (check_guest_ready ops p timeout process)"
  unfolding check_guest_ready_def by (intro inv_intro keeps_wait_for_guest)

lemma keeps_read_guest_errors: "keeps I (read_guest_errors path)"
  unfolding read_guest_errors_def by (intro inv_intro)

lemma keeps_prepare_logs: "keeps I (prepare_logs p)"
  unfolding prepare_logs_def by (intro inv_intro)

lemma keeps_launch_exited: "keeps I (launch_exited p code)"
  unfolding launch_exited_def Let_def by (intro inv_intro)

lemma keeps_boot_failure: "keeps I (boot_failure ops p proc e)"
  unfolding boot_failure_def Let_def by (intro inv_intro keeps_read_guest_errors)

lemma keeps_run_guest_command: "keeps I (run_guest_command ops p c timeout b)"
  unfolding run_guest_command_def Let_def by (intro inv_intro keeps_wait_for_guest keeps_request)

lemma keeps_pull: "keeps I (pull_guest_file_to_host ops p g h timeout)"
  unfolding pull_guest_file_to_host_def fetch_guest_file_bytes_def
  by (intro inv_intro keeps_run_guest_command)

lemma keeps_stop_vm: "keeps I (stop_vm ops launch timeout)"
  unfolding stop_vm_def by (intro inv_intro)

end

context world_invariant
begin

lemma keeps_vm_launch: "keeps I (vm_launch ops p)"
  unfolding vm_launch_def
  by (intro inv_intro inv_popen keeps_prepare_logs keeps_launch_exited keeps_boot_failure
      keeps_check_guest_ready inv_sleep) simp

end

text \<open>What a launch that returns looks like.\<close>

lemma vm_launch_Inr:
  assumes "vm_launch ops p w = (Inr l, w')"
  shows "build_qemu_command p w = Inr (lr_command l)" "lr_profile l = p"
    "lr_process l = Some (lr_pid l)" "vp_validate p w = Inr ()"
    "given (vp_guest_id p) \<Longrightarrow> lr_guest_id l = the (vp_guest_id p)"
  using assms
  by (auto simp: vm_launch_def iseq_def ibind_eq_Inr launch_exited_def Let_def
      split: option.splits prod.splits if_splits)

text \<open>An invalid configuration is refused before anything is started or written.\<close>

lemma vm_launch_invalid:
  "vp_validate p w = Inl e \<Longrightarrow> vm_launch ops p w = (Inl e, w)"
  by (simp add: vm_launch_def iseq_def ibind_def)

text \<open>
  A guest whose QEMU dies at once is reported as \<^verbatim>\<open>VMLaunchError\<close> with the exit code and
  QEMU's own standard error, and an invalid configuration is refused with \<^verbatim>\<open>VMProfileError\<close>
  and leaves the machine as it was.
\<close>

theorem launch_refusals:
  "(case vp_validate p w of
      Inl e \<Rightarrow> vm_launch ops p w = (Inl e, w) \<and> class_of e = VMProfileError
    | Inr _ \<Rightarrow> build_qemu_command p w \<noteq> Inl e0) \<and>
   (case launch_exited p code w of
      (Inl e, w') \<Rightarrow> w' = w \<and>
        (case w_files w (path_of (vp_guest_error_log p)) of
           Some data \<Rightarrow> class_of e = VMLaunchError \<and> contains (strip (decode_replace data)) (msg_of e)
             \<and> contains (str_int code) (msg_of e)
         | None \<Rightarrow> is_a e OSError)
    | (Inr x, w') \<Rightarrow> False)"
proof
  show "case vp_validate p w of
      Inl e \<Rightarrow> vm_launch ops p w = (Inl e, w) \<and> class_of e = VMProfileError
    | Inr _ \<Rightarrow> build_qemu_command p w \<noteq> Inl e0"
  proof (cases "vp_validate p w")
    case (Inr u)
    then show ?thesis using build_qemu_total [of p w] by auto
  qed (simp add: vm_launch_invalid vp_validate_error)
  let ?f = "path_of (vp_guest_error_log p)"
  show "case launch_exited p code w of
      (Inl e, w') \<Rightarrow> w' = w \<and>
        (case w_files w ?f of
           Some data \<Rightarrow> class_of e = VMLaunchError \<and> contains (strip (decode_replace data)) (msg_of e)
             \<and> contains (str_int code) (msg_of e)
         | None \<Rightarrow> is_a e OSError)
    | (Inr x, w') \<Rightarrow> False"
  proof (cases "w_files w ?f")
    case None
    then show ?thesis
      by (simp add: launch_exited_def ibind_def read_bytes_def is_a_def)
  next
    case (Some data)
    let ?t = "strip (decode_replace data)"
    have "contains (str_int code) (''QEMU exited immediately with code '' @ str_int code @ m)" for m
      by (intro contains_append_left contains_append_right) simp
    moreover have "contains ?t (''QEMU exited immediately with code '' @ str_int code
        @ (if ?t \<noteq> [] then '': '' @ ?t else []))"
      by (cases "?t = []") (auto intro!: contains_append_left)
    ultimately show ?thesis using Some
      by (simp add: launch_exited_def ibind_def read_bytes_def Let_def)
  qed
qed

end
