(* ===== verification/Step_Log.thy ===== *)
theory Step_Log
  imports Models Vm_Launch
begin

text \<open>
  \<^verbatim>\<open>sev_verify/step_log.py\<close>: the debug log of a test, one main file and one per guest, and the
  guest context that decides which per-guest file a step also goes to.
\<close>

record step_logger =
  lg_artifact_dir :: path
  lg_current_guest_id :: "string option"
  lg_current_guest_dir :: "path option"
  lg_guest_log_path :: "path option"

definition mk_logger :: "path \<Rightarrow> step_logger" where
  "mk_logger dir =
     \<lparr>lg_artifact_dir = dir, lg_current_guest_id = None, lg_current_guest_dir = None,
      lg_guest_log_path = None\<rparr>"

definition lg_log_path :: "step_logger \<Rightarrow> path" where
  "lg_log_path lg = path_sub (lg_artifact_dir lg) ''steps.log''"

definition set_guest_context :: "step_logger \<Rightarrow> string option \<Rightarrow> ('e world, step_logger) io" where
  "set_guest_context lg gid =
     (if given gid \<and> gid \<noteq> lg_current_guest_id lg then
        let guest_dir = path_sub (lg_artifact_dir lg) (the gid) in
        iseq (mkdir_parents guest_dir)
          (iret (lg\<lparr>lg_current_guest_id := gid, lg_current_guest_dir := Some guest_dir,
                    lg_guest_log_path := Some (path_sub guest_dir ''steps.log'')\<rparr>))
      else if gid = None then
        iret (lg\<lparr>lg_current_guest_id := None, lg_current_guest_dir := None, lg_guest_log_path := None\<rparr>)
      else iret lg)"

definition id_text :: "string option \<Rightarrow> string" where
  "id_text gid = (case gid of None \<Rightarrow> ''None'' | Some s \<Rightarrow> s)"

definition write_qemu_command_log :: "'e ops \<Rightarrow> step_logger \<Rightarrow> string \<Rightarrow> ('e world, unit) io" where
  "write_qemu_command_log ops lg command =
     (case lg_current_guest_dir lg of
        None \<Rightarrow> iret ()
      | Some dir \<Rightarrow>
          ibind (ext (op_utcnow ops)) (\<lambda>ts.
            write_bytes (path_sub dir ''qemu-command.log'') (encode
              (''# QEMU command for guest '' @ id_text (lg_current_guest_id lg) @ nl
               @ ''# Timestamp: '' @ ts @ nl @ nl @ command @ nl))))"

definition ended_line :: "string \<Rightarrow> string" where
  "ended_line s = s @ (if endswith s nl then [] else nl)"

definition write_guest_journal_log :: "'e ops \<Rightarrow> step_logger \<Rightarrow> string option \<Rightarrow> ('e world, unit) io" where
  "write_guest_journal_log ops lg journal =
     (case lg_current_guest_dir lg of
        None \<Rightarrow> iret ()
      | Some dir \<Rightarrow>
          ibind (ext (op_utcnow ops)) (\<lambda>ts.
            write_bytes (path_sub dir ''guest-journal.log'') (encode
              (''# Guest journal log for guest '' @ id_text (lg_current_guest_id lg) @ nl
               @ ''# Timestamp: '' @ ts @ nl @ nl
               @ (if given journal then ended_line (the journal)
                  else ''(no journal output captured)'' @ nl)))))"

text \<open>A line of an entry that is written only when the value is there.\<close>

definition opt_line :: "string \<Rightarrow> string option \<Rightarrow> string" where
  "opt_line label v = (if given v then label @ the v @ nl else [])"

definition duration_text :: "int option \<Rightarrow> string" where
  "duration_text d = (case d of None \<Rightarrow> ''None'' | Some n \<Rightarrow> str_int n)"

text \<open>The lines particular to the kind of the step.\<close>

fun kind_lines :: "step_kind \<Rightarrow> base_step \<Rightarrow> step_result \<Rightarrow> string option \<Rightarrow> string option \<Rightarrow> int option \<Rightarrow> string"
where
  "kind_lines Host step r command gid pid = ''Command: '' @ step_command step @ nl"
| "kind_lines Guest step r command gid pid =
     opt_line ''Guest ID: '' gid @ ''Command: '' @ step_command step @ nl"
| "kind_lines Callable step r command gid pid =
     ''Handler: '' @ step_handler step @ nl @ opt_line ''Command: '' (sr_command r)"
| "kind_lines GuestPull step r command gid pid =
     opt_line ''Guest ID: '' gid
     @ ''Pull: '' @ step_guest_src step @ '' (guest) -> '' @ step_host_dest step @ '' (host)'' @ nl
     @ opt_line ''Command: '' (sr_command r)"
| "kind_lines VmLaunch step r command gid pid =
     opt_line ''Guest ID: '' gid @ opt_line ''Command: '' command"
| "kind_lines VmStop step r command gid pid =
     opt_line ''Guest ID: '' gid
     @ (case pid of None \<Rightarrow> [] | Some n \<Rightarrow> ''Process ID: '' @ str_int n @ nl)
     @ opt_line ''Process Command: '' command"
| "kind_lines (OtherKind k) step r command gid pid = []"

definition stream_lines :: "string \<Rightarrow> string option \<Rightarrow> string" where
  "stream_lines label v = (if given v then label @ nl @ ended_line (the v) else [])"

definition step_entry ::
  "string \<Rightarrow> base_step \<Rightarrow> step_result \<Rightarrow> string option \<Rightarrow> string option \<Rightarrow> int option \<Rightarrow> string"
where
  "step_entry ts step r command gid pid =
     ''Step: '' @ step_name step @ nl @ ''Kind: '' @ kind_str (step_kind step) @ nl
     @ ''Type: '' @ severity_str (step_type step) @ nl @ ''Timestamp: '' @ ts @ nl
     @ kind_lines (step_kind step) step r command gid pid
     @ ''Duration: '' @ duration_text (sr_duration_ms r) @ ''ms'' @ nl
     @ ''Status: '' @ map upper_char (outcome_str (sr_result r))
     @ (case sr_exit_code r of None \<Rightarrow> [] | Some n \<Rightarrow> '' (exit='' @ str_int n @ '')'') @ nl
     @ stream_lines ''[stdout]'' (sr_stdout r) @ stream_lines ''[stderr]'' (sr_stderr r)
     @ replicate 150 CHR ''-'' @ nl"

text \<open>\<^verbatim>\<open>with open(path, "a") as f: self._write_step_entry(f, ...)\<close>\<close>

definition append_entry ::
  "'e ops \<Rightarrow> path \<Rightarrow> base_step \<Rightarrow> step_result \<Rightarrow> string option \<Rightarrow> string option \<Rightarrow> int option
     \<Rightarrow> ('e world, unit) io" where
  "append_entry ops path step r command gid pid =
     ibind (ext (op_utcnow ops)) (\<lambda>ts.
       append_bytes path (encode (step_entry ts step r command gid pid)))"

text \<open>The context before the entry is written, with the files written on the way.\<close>

definition log_context ::
  "'e ops \<Rightarrow> step_logger \<Rightarrow> base_step \<Rightarrow> string option \<Rightarrow> string option \<Rightarrow> string option
     \<Rightarrow> ('e world, step_logger) io" where
  "log_context ops lg step command gid journal =
     (if step_kind step = VmLaunch \<and> given gid then
        ibind (set_guest_context lg gid) (\<lambda>lg1.
          iseq (iwhen (given command) (write_qemu_command_log ops lg1 (the command))) (iret lg1))
      else if (step_kind step = Guest \<or> step_kind step = GuestPull) \<and> given gid
              \<and> lg_current_guest_id lg \<noteq> gid then
        set_guest_context lg gid
      else if step_kind step = VmStop then
        iseq (iwhen (given journal) (write_guest_journal_log ops lg journal)) (iret lg)
      else iret lg)"

definition log_step ::
  "'e ops \<Rightarrow> step_logger \<Rightarrow> base_step \<Rightarrow> step_result \<Rightarrow> string option \<Rightarrow> string option
     \<Rightarrow> string option \<Rightarrow> int option \<Rightarrow> ('e world, step_logger) io" where
  "log_step ops lg step r command gid journal pid =
     ibind (log_context ops lg step command gid journal) (\<lambda>lg1.
     iseq (append_entry ops (lg_log_path lg1) step r command gid pid)
    (iseq (case lg_guest_log_path lg1 of None \<Rightarrow> iret ()
           | Some path \<Rightarrow> append_entry ops path step r command gid pid)
          (if step_kind step = VmStop then set_guest_context lg1 None else iret lg1)))"

section \<open>Properties\<close>

text \<open>The three context fields agree.\<close>

definition logger_ok :: "path \<Rightarrow> step_logger \<Rightarrow> bool" where
  "logger_ok dir lg \<longleftrightarrow>
     lg_artifact_dir lg = dir \<and>
     (case lg_current_guest_id lg of
        None \<Rightarrow> lg_current_guest_dir lg = None \<and> lg_guest_log_path lg = None
      | Some g \<Rightarrow> g \<noteq> [] \<and> lg_current_guest_dir lg = Some (path_sub dir g) \<and>
          lg_guest_log_path lg = Some (path_sub (path_sub dir g) ''steps.log''))"

lemma set_guest_context_ok:
  "set_guest_context lg gid w = (Inr lg', w') \<Longrightarrow> logger_ok dir lg \<Longrightarrow>
     logger_ok dir lg' \<and> (gid = None \<longrightarrow> lg_current_guest_id lg' = None) \<and>
     (given gid \<longrightarrow> lg_current_guest_id lg' = gid)"
  by (auto simp: set_guest_context_def logger_ok_def iseq_def ibind_eq_Inr Let_def given_def
      split: if_splits option.splits)

lemma log_context_ok:
  "log_context ops lg step command gid journal w = (Inr lg', w') \<Longrightarrow> logger_ok dir lg \<Longrightarrow>
     logger_ok dir lg' \<and>
     (step_kind step \<in> {VmLaunch, Guest, GuestPull} \<and> given gid \<longrightarrow> lg_current_guest_id lg' = gid)"
  by (auto simp: log_context_def iseq_def ibind_eq_Inr split: if_splits
      dest: set_guest_context_ok)

text \<open>
  The logger's context is consistent after every step: it names a guest, that guest's
  directory under the artifacts and its log file, or nothing at all; after a launch, a guest
  command or a pull of a known guest it is that guest, and after a \<^verbatim>\<open>vm_stop\<close> there is none.
\<close>

theorem log_step_context:
  assumes "log_step ops lg step r command gid journal pid w = (Inr lg', w')"
    and "logger_ok dir lg"
  shows "logger_ok dir lg' \<and>
    (step_kind step = VmStop \<longrightarrow> lg_current_guest_id lg' = None) \<and>
    (step_kind step \<in> {VmLaunch, Guest, GuestPull} \<and> given gid \<longrightarrow> lg_current_guest_id lg' = gid)"
proof -
  from assms(1) obtain lg1 w1 w2 where
    c: "log_context ops lg step command gid journal w = (Inr lg1, w1)"
    and e: "(if step_kind step = VmStop then set_guest_context lg1 None else iret lg1) w2 = (Inr lg', w')"
    by (auto simp: log_step_def iseq_def ibind_eq_Inr)
  from log_context_ok [OF c assms(2)] have ok: "logger_ok dir lg1"
    "step_kind step \<in> {VmLaunch, Guest, GuestPull} \<and> given gid \<longrightarrow> lg_current_guest_id lg1 = gid" by auto
  show ?thesis
  proof (cases "step_kind step = VmStop")
    case True
    with e set_guest_context_ok [of lg1 None w2 lg' w' dir] ok show ?thesis by simp
  next
    case False
    with e ok show ?thesis by simp
  qed
qed

definition log_demo_step :: base_step where
  "log_demo_step = (sf_common (mk_factory ''stop'' Info ''exit_code:0'' 60) VmStop)"

definition log_demo_world :: "unit world" where
  "log_demo_world = (empty_world ())\<lparr>w_dirs := (\<lambda>p. p = Path [] [''a''])\<rparr>"

theorem log_step_context_witness:
  "\<exists>lg' w'. log_step idle_ops (mk_logger (Path [] [''a''])) log_demo_step
      (mk_step_result log_demo_step Pass) None None None None log_demo_world = (Inr lg', w')
    \<and> lg_current_guest_id lg' = None"
proof -
  let ?lg = "mk_logger (Path [] [''a''])"
  have k: "step_kind log_demo_step = VmStop"
    by (simp add: log_demo_step_def sf_common_def mk_factory_def)
  have "split_on CHR ''/'' ''steps.log'' = [''steps.log'']" by (simp add: split_on_none)
  then have "lg_log_path ?lg = Path [] [''a'', ''steps.log'']"
    by (simp add: lg_log_path_def mk_logger_def path_sub_relative startswith_def path_of_def Let_def)
  then have e: "open_error (lg_log_path ?lg) log_demo_world = None"
    by (simp add: open_error_def log_demo_world_def path_parent_def)
  have a: "\<exists>w'. append_entry idle_ops (lg_log_path ?lg) log_demo_step r c g p log_demo_world = (Inr (), w')"
    for r c g p
    using e by (simp add: append_entry_def idle_ops_def ext_def ibind_def append_bytes_def log_demo_world_def
        empty_world_def)
  obtain w' where "append_entry idle_ops (lg_log_path ?lg) log_demo_step
      (mk_step_result log_demo_step Pass) None None None log_demo_world = (Inr (), w')"
    using a by blast
  then have r: "log_step idle_ops ?lg log_demo_step (mk_step_result log_demo_step Pass) None None None None
      log_demo_world = (Inr (?lg\<lparr>lg_current_guest_id := None, lg_current_guest_dir := None,
        lg_guest_log_path := None\<rparr>), w')"
    by (simp add: log_step_def log_context_def k iseq_def ibind_def iwhen_def given_def
        set_guest_context_def) (simp add: mk_logger_def)
  have "logger_ok (Path [] [''a'']) ?lg" by (simp add: logger_ok_def mk_logger_def)
  from log_step_context [OF r this] k r show ?thesis by blast
qed

end
