(* ===== verification/Runner.thy ===== *)
theory Runner
  imports Step_Log
begin

text \<open>
  \<^verbatim>\<open>sev_verify/runner.py\<close>: one executor per kind of step, the check of a step's expected result,
  the artifact directory of a test, the loading of test modules, and the merge of command line
  overrides into a profile.

  A test module is a value: its \<^verbatim>\<open>steps()\<close>, its \<^verbatim>\<open>vm_profile\<close> and its attributes. A handler is
  a computation over the step's context and the world, so a change of \<^verbatim>\<open>ctx.profile\<close> made before
  an exception stays. Step results do not raise: an exception becomes an \<^verbatim>\<open>error\<close> result exactly
  where the source catches it.
\<close>

section \<open>Expected results\<close>

definition check_expected_values :: "base_step \<Rightarrow> int \<Rightarrow> string \<Rightarrow> exc + bool" where
  "check_expected_values step exit_code out =
     (case partition_at CHR '':'' (step_expected_result step) of (kind, _, v) \<Rightarrow>
        if kind = ''exit_code'' then
          (case py_int v of
             Some n \<Rightarrow> Inr (exit_code = n)
           | None \<Rightarrow> raise ValueError (''invalid literal for int() with base 10: '' @ repr_str v))
        else if kind = ''stdout_contains'' then Inr (contains v out)
        else Inr False)"

definition pass_or :: "outcome \<Rightarrow> bool \<Rightarrow> outcome" where
  "pass_or other passed = (if passed then Pass else other)"

text \<open>An \<^verbatim>\<open>error\<close> result with a message on \<^verbatim>\<open>stderr\<close>.\<close>

definition error_result :: "base_step \<Rightarrow> string \<Rightarrow> int option \<Rightarrow> step_result" where
  "error_result step msg duration =
     (mk_step_result step Error)\<lparr>sr_stderr := Some msg, sr_duration_ms := duration\<rparr>"

definition error_now :: "base_step \<Rightarrow> string \<Rightarrow> int \<Rightarrow> ('e world, step_result) io" where
  "error_now step msg start =
     ibind (elapsed_ms start) (\<lambda>d. iret (error_result step msg (Some d)))"

section \<open>Test modules\<close>

type_synonym ctx = "(vm_profile, launch_result, path) step_context"

text \<open>
  A test module: \<^verbatim>\<open>steps()\<close> and, where it has one, \<^verbatim>\<open>vm_profile()\<close>, which may look at the machine,
  and its attributes by name. What a handler returns: a \<^verbatim>\<open>StepHandlerResult\<close>, or a value of another type.\<close>

datatype handler_value = HandlerResult handler_result | OtherValue string

datatype 'e attr = NotCallable | Fn "(ctx \<times> 'e world, handler_value) io"

record 'e test_mod =
  tm_steps :: "('e world, base_step list) io"
  tm_vm_profile :: "('e world, vm_profile option) io"
  tm_attrs :: "(string \<times> 'e attr) list"

text \<open>\<^verbatim>\<open>import_module("sev_verify." + name)\<close>\<close>

type_synonym 'e modules = "string \<Rightarrow> exc + 'e test_mod"

definition import_test_module :: "'e modules \<Rightarrow> test_definition \<Rightarrow> exc + 'e test_mod" where
  "import_test_module mods test = mods (''sev_verify.'' @ test_module test)"

definition load_test_execution_plan ::
  "'e modules \<Rightarrow> test_definition \<Rightarrow> ('e world, base_step list \<times> vm_profile option) io" where
  "load_test_execution_plan mods test =
     ibind (ilift (import_test_module mods test)) (\<lambda>m.
     ibind (tm_steps m) (\<lambda>steps.
     ibind (tm_vm_profile m) (\<lambda>declared. iret (steps, declared))))"

definition load_steps :: "'e modules \<Rightarrow> test_definition \<Rightarrow> ('e world, base_step list) io" where
  "load_steps mods test = ibind (load_test_execution_plan mods test) (\<lambda>plan. iret (fst plan))"

definition load_vm_profile :: "'e modules \<Rightarrow> test_definition \<Rightarrow> ('e world, vm_profile option) io" where
  "load_vm_profile mods test = ibind (load_test_execution_plan mods test) (\<lambda>plan. iret (snd plan))"

section \<open>Artifact directories\<close>

text \<open>Names are ASCII; a byte beyond it is kept, as a letter would be.\<close>

definition segment_char :: "char \<Rightarrow> char" where
  "segment_char c =
     (if py_alnum c \<or> \<not> is_ascii c \<or> List.member ''._-'' c then c else CHR ''_'')"

definition artifact_path_segment :: "string \<Rightarrow> string" where
  "artifact_path_segment segment =
     (let t = strip (if segment = [] then ''unknown'' else segment) in
      if t = [] then ''unknown'' else map segment_char t)"

definition test_artifact_dir :: "path \<Rightarrow> string option \<Rightarrow> test_definition \<Rightarrow> path" where
  "test_artifact_dir artifacts_root certification_version test =
     (let test_nm = artifact_path_segment (replace_char CHR ''-'' CHR ''_'' (test_name test)) in
      case certification_version of
        Some version \<Rightarrow>
          let cert = artifact_path_segment version;
              level = (if test_level test \<noteq> [] then artifact_path_segment (test_level test)
                       else ''no-level'')
          in path_sub (path_sub (path_sub artifacts_root cert) level) test_nm
      | None \<Rightarrow> path_sub (path_sub artifacts_root ''prereqs'') test_nm)"

section \<open>The executors\<close>

definition run_step :: "'e ops \<Rightarrow> base_step \<Rightarrow> path \<Rightarrow> path option \<Rightarrow> ('e world, step_result) io" where
  "run_step ops step guest_path artifact_dir =
     (let env = (''GUEST_PATH'', path_str guest_path)
                # (case artifact_dir of None \<Rightarrow> []
                   | Some d \<Rightarrow> [(''SEV_VERIFY_ARTIFACT_DIR'', path_str d)]);
          cmd_path = path_of (step_command step) in
      ibind (iget (is_file cmd_path)) (\<lambda>file.
      let args = (if file then Argv [path_str cmd_path, path_str guest_path]
                  else Shell (step_command step)) in
      ibind now (\<lambda>start.
      ibind (itry OSError
              (itry TimeoutExpired
                (ibind (ext (op_run ops args env (Some (step_timeout step)))) (\<lambda>proc. iret (Inr proc)))
                (\<lambda>_. ibind (error_now step
                        (''Timed out after '' @ str_int (step_timeout step) @ ''s'') start)
                      (\<lambda>r. iret (Inl r))))
              (\<lambda>e. ibind (error_now step (msg_of e) start) (\<lambda>r. iret (Inl r)))) (\<lambda>ran.
      case ran of
        Inl r \<Rightarrow> iret r
      | Inr proc \<Rightarrow>
          ibind (elapsed_ms start) (\<lambda>duration.
          ibind (ilift (check_expected_values step (cp_returncode proc) (cp_stdout proc))) (\<lambda>passed.
            iret \<lparr>sr_step = step, sr_result = pass_or Fail passed,
                  sr_exit_code = Some (cp_returncode proc), sr_stdout = Some (cp_stdout proc),
                  sr_stderr = Some (cp_stderr proc), sr_duration_ms = Some duration,
                  sr_command = None\<rparr>))))))"

definition run_vm_launch_step ::
  "'e ops \<Rightarrow> base_step \<Rightarrow> vm_profile \<Rightarrow> ('e world, step_result \<times> launch_result option) io" where
  "run_vm_launch_step ops step p =
     ibind now (\<lambda>start.
     ibind (iget (build_qemu_command p)) (\<lambda>built.
     let qemu_command_line = (case built of Inr cmd \<Rightarrow> Some (shlex_join cmd) | Inl _ \<Rightarrow> None) in
     ibind (itry VMProfileError
             (ibind (vm_launch ops p) (\<lambda>launch. iret (Inr launch)))
             (\<lambda>e. ibind (elapsed_ms start) (\<lambda>duration.
                  ibind (ilift (check_expected_values step 1 (msg_of e))) (\<lambda>passed.
                    iret (Inl \<lparr>sr_step = step, sr_result = pass_or Error passed,
                               sr_exit_code = Some 1, sr_stdout = None, sr_stderr = Some (msg_of e),
                               sr_duration_ms = Some duration, sr_command = qemu_command_line\<rparr>)))))
       (\<lambda>launched.
     case launched of
       Inl r \<Rightarrow> iret (r, None)
     | Inr launch \<Rightarrow>
         ibind (elapsed_ms start) (\<lambda>duration.
         let exit_code = (if lr_ok launch then 0 else 1) in
         ibind (ilift (check_expected_values step exit_code (lr_message launch))) (\<lambda>passed.
           iret (\<lparr>sr_step = step, sr_result = pass_or Fail passed, sr_exit_code = Some exit_code,
                  sr_stdout = (if lr_ok launch then Some (lr_message launch) else None),
                  sr_stderr = (if lr_ok launch then None else Some (lr_message launch)),
                  sr_duration_ms = Some duration, sr_command = Some (command_line launch)\<rparr>,
                 Some launch))))))"

definition stopped_message :: string where "stopped_message = ''Guest VM stopped''"

definition run_vm_stop_step :: "'e ops \<Rightarrow> base_step \<Rightarrow> launch_result \<Rightarrow> ('e world, step_result) io" where
  "run_vm_stop_step ops step launch =
     ibind now (\<lambda>start.
     ibind (itry OSError
             (iseq (stop_vm ops launch (step_timeout step)) (iret None))
             (\<lambda>e. ibind (error_now step (msg_of e) start) (\<lambda>r. iret (Some r)))) (\<lambda>failed.
     case failed of
       Some r \<Rightarrow> iret r
     | None \<Rightarrow>
         ibind (elapsed_ms start) (\<lambda>duration.
         ibind (ilift (check_expected_values step 0 stopped_message)) (\<lambda>passed.
           iret \<lparr>sr_step = step, sr_result = pass_or Fail passed,
                 sr_exit_code = Some (if passed then 0 else 1), sr_stdout = Some stopped_message,
                 sr_stderr = None, sr_duration_ms = Some duration, sr_command = None\<rparr>))))"

definition run_guest_step :: "'e ops \<Rightarrow> base_step \<Rightarrow> vm_profile \<Rightarrow> ('e world, step_result) io" where
  "run_guest_step ops step p =
     ibind now (\<lambda>start.
     ibind (itry GuestVsockError
             (ibind (run_guest_command ops p (step_command step) (Some (step_timeout step)) False)
                (\<lambda>gcr. iret (Inr gcr)))
             (\<lambda>e. ibind (error_now step (msg_of e) start) (\<lambda>r. iret (Inl r)))) (\<lambda>ran.
     case ran of
       Inl r \<Rightarrow> iret r
     | Inr gcr \<Rightarrow>
         ibind (ilift (check_expected_values step (gcr_exit_code gcr) (gcr_stdout gcr))) (\<lambda>passed.
           iret \<lparr>sr_step = step, sr_result = pass_or Fail passed,
                 sr_exit_code = Some (gcr_exit_code gcr), sr_stdout = Some (gcr_stdout gcr),
                 sr_stderr = Some (gcr_stderr gcr), sr_duration_ms = Some (gcr_duration_ms gcr),
                 sr_command = None\<rparr>)))"

definition run_guest_pull_step ::
  "'e ops \<Rightarrow> base_step \<Rightarrow> vm_profile \<Rightarrow> path option \<Rightarrow> ('e world, step_result) io" where
  "run_guest_pull_step ops step p artifact_dir =
     ibind now (\<lambda>start.
     let host_path = (case artifact_dir of
           Some d \<Rightarrow> if is_absolute (path_of (step_host_dest step)) then path_of (step_host_dest step)
                     else path_join d (path_of (step_host_dest step))
         | None \<Rightarrow> path_of (step_host_dest step)) in
     ibind (itry GuestVsockError
             (iseq (pull_guest_file_to_host ops p (step_guest_src step) host_path
                      (Some (step_timeout step))) (iret None))
             (\<lambda>e. ibind (error_now step (msg_of e) start) (\<lambda>r. iret (Some r)))) (\<lambda>failed.
     case failed of
       Some r \<Rightarrow> iret r
     | None \<Rightarrow>
         ibind (elapsed_ms start) (\<lambda>duration.
         ibind (ilift (check_expected_values step 0 [])) (\<lambda>passed.
           iret \<lparr>sr_step = step, sr_result = pass_or Fail passed, sr_exit_code = Some 0,
                 sr_stdout = Some (''Pulled '' @ step_guest_src step @ '' -> '' @ path_str host_path),
                 sr_stderr = None, sr_duration_ms = Some duration, sr_command = None\<rparr>))))"

text \<open>\<^verbatim>\<open>s or None\<close>\<close>

definition non_empty :: "string \<Rightarrow> string option" where
  "non_empty s = (if s = [] then None else Some s)"

text \<open>
  The thread pool of \<^verbatim>\<open>run_callable_step\<close>: the handler runs to its end in any case, since leaving
  the pool waits for it; past the timeout its outcome is dropped. A handler's own
  \<^verbatim>\<open>TimeoutError\<close> is the class the timeout of the future raises, and reads as one.
\<close>

datatype call_outcome = CallValue handler_value | CallRaised exc | CallTimedOut int

definition call_handler ::
  "(ctx \<times> 'e world, handler_value) io \<Rightarrow> int \<Rightarrow> ctx \<times> 'e world \<Rightarrow> call_outcome \<times> ctx \<times> 'e world"
where
  "call_handler fn timeout s =
     (case fn s of (r, (c, w)) \<Rightarrow>
        let w' = w\<lparr>w_clock := max (w_clock (snd s)) (w_clock w)\<rparr>;
            used = w_clock w' - w_clock (snd s) in
        (if used > timeout * 1000000 then CallTimedOut (timeout * 1000)
         else (case r of
             Inr v \<Rightarrow> CallValue v
           | Inl e \<Rightarrow> if is_a e TimeoutError then CallTimedOut (used div 1000) else CallRaised e),
         (c, w')))"

definition run_callable_step ::
  "'e test_mod \<Rightarrow> base_step \<Rightarrow> (ctx \<times> 'e world, step_result) io" where
  "run_callable_step m step s =
     (let start = w_clock (snd s); h = repr_str (step_handler step) in
      case map_of (tm_attrs m) (step_handler step) of
        None \<Rightarrow> (Inr (error_result step (''Test module has no attribute '' @ h) (Some 0)), s)
      | Some NotCallable \<Rightarrow>
          (Inr (error_result step (''Module attribute '' @ h @ '' is not callable'') (Some 0)), s)
      | Some (Fn fn) \<Rightarrow>
          (case call_handler fn (step_timeout step) s of (out, s') \<Rightarrow>
             let duration = (w_clock (snd s') - start) div 1000 in
             case out of
               CallTimedOut d \<Rightarrow>
                 (Inr (error_result step (''Callable '' @ h @ '' timed out after ''
                    @ str_int (step_timeout step) @ ''s'') (Some d)), s')
             | CallRaised e \<Rightarrow> (Inr (error_result step (msg_of e) (Some duration)), s')
             | CallValue (OtherValue ty) \<Rightarrow>
                 (Inr (error_result step (''Handler '' @ h @ '' must return StepHandlerResult, got ''
                    @ ty) (Some duration)), s')
             | CallValue (HandlerResult hr) \<Rightarrow>
                 (rbind (check_expected_values step (hr_exit_code hr) (hr_stdout hr)) (\<lambda>passed.
                    Inr \<lparr>sr_step = step, sr_result = pass_or Fail passed,
                         sr_exit_code = Some (hr_exit_code hr),
                         sr_stdout = non_empty (hr_stdout hr), sr_stderr = non_empty (hr_stderr hr),
                         sr_duration_ms = Some duration, sr_command = hr_command hr\<rparr>), s')))"

definition effective_vm_profile ::
  "vm_profile option \<Rightarrow> path \<Rightarrow> string option \<Rightarrow> string option \<Rightarrow> bool \<Rightarrow> vm_profile" where
  "effective_vm_profile declared guest_path qemu_binary ovmf_path debug =
     (let base = (case declared of
            None \<Rightarrow> mk_profile (path_str guest_path)
          | Some d \<Rightarrow> d\<lparr>vp_image_path := path_str guest_path\<rparr>);
          base1 = (case qemu_binary of None \<Rightarrow> base | Some q \<Rightarrow> base\<lparr>vp_qemu_binary := q\<rparr>);
          base2 = (case ovmf_path of None \<Rightarrow> base1 | Some _ \<Rightarrow> base1\<lparr>vp_ovmf_path := ovmf_path\<rparr>)
      in if debug then base2\<lparr>vp_debug := True\<rparr> else base2)"

section \<open>Properties: the verdict\<close>

lemma check_expected_wf:
  assumes "wf_step step"
  shows "\<exists>e. expectation_of (step_expected_result step) = Some e \<and>
    (\<forall>code out. check_expected_values step code out = Inr (holds e code out))"
  using assms
  by (auto simp: wf_step_def expectation_of_def check_expected_values_def split: prod.splits if_splits)

text \<open>
  A validated step always gets a verdict: the check of its expected result raises nothing,
  and says whether the expectation its text denotes holds of the exit code and the output.
\<close>

theorem check_expected_decides:
  assumes "base_step_post_init s = Inr step"
  shows "\<exists>e. expectation_of (step_expected_result step) = Some e \<and>
    check_expected_values step code out = Inr (holds e code out)"
  using check_expected_wf [of step] assms by (auto simp: post_init_wf)

theorem check_expected_decides_witness:
  "\<exists>s. for_host ''probe'' Required ''snphost ok'' ''exit_code: 0'' 10 = Inr s \<and>
     check_expected_values s 0 [] = Inr True"
proof -
  let ?s = "(sf_common (mk_factory ''probe'' Required ''exit_code: 0'' 10) Host)
              \<lparr>step_command := ''snphost ok''\<rparr>"
  have i: "py_int '' 0'' = Some 0" by code_simp
  have e: "expectation_of ''exit_code: 0'' = Some (ExitCode 0)"
    using i by (simp add: expectation_of_def partition_at_def)
  have s: "base_step_post_init ?s = Inr ?s"
    unfolding post_init_wf wf_step_eval all_step_fields
    by (simp add: sf_common_def mk_factory_def is_other_severity_def is_other_kind_def e)
  have "step_expected_result ?s = ''exit_code: 0''" by (simp add: sf_common_def mk_factory_def)
  with check_expected_decides [OF s, of 0 "[]"] e have "check_expected_values ?s 0 [] = Inr True"
    by simp
  with s show ?thesis by (auto simp: for_host_def sf_host_def)
qed

section \<open>Properties: callables\<close>

lemma pass_or_Pass [simp]: "pass_or Fail b = Pass \<longleftrightarrow> b" "pass_or Error b = Pass \<longleftrightarrow> b"
  by (simp_all add: pass_or_def)

lemma error_result_fields [simp]:
  "sr_step (error_result s m d) = s" "sr_result (error_result s m d) = Error"
  "sr_duration_ms (error_result s m d) = d" "sr_stderr (error_result s m d) = Some m"
  "sr_stdout (error_result s m d) = None"
  by (simp_all add: error_result_def mk_step_result_def)


definition raising_mod :: "unit test_mod" where
  "raising_mod =
     \<lparr>tm_steps = iret [], tm_vm_profile = iret None,
      tm_attrs = [(''boom'', Fn (\<lambda>s. (raise KeyError ''k'', s)))]\<rparr>"

definition call_boom :: base_step where
  "call_boom = (sf_common (mk_factory ''b'' Required ''stdout_contains:'' 10) Callable)
                 \<lparr>step_handler := ''boom''\<rparr>"


text \<open>
  A timeout of a callable step does not stop the handler: whatever outcome the runner
  reports, the context and the machine are those the handler left behind (but for the clock,
  which does not go back).
\<close>

theorem callable_effects_complete:
  assumes "map_of (tm_attrs m) (step_handler step) = Some (Fn fn)"
    and "fn (c, w) = (out, (c', w'))"
  shows "snd (run_callable_step m step (c, w))
       = (c', w'\<lparr>w_clock := max (w_clock w) (w_clock w')\<rparr>) \<and>
    (if w_clock w' - w_clock w > step_timeout step * 1000000 \<and> 0 < step_timeout step
     then fst (run_callable_step m step (c, w)) = Inr (error_result step
       (''Callable '' @ repr_str (step_handler step) @ '' timed out after ''
        @ str_int (step_timeout step) @ ''s'') (Some (step_timeout step * 1000)))
     else True)"
  using assms
  by (simp add: run_callable_step_def call_handler_def Let_def max_def
      split: sum.split handler_value.split)

definition slow_handler :: "(ctx \<times> unit world, handler_value) io" where
  "slow_handler s = (case s of (c, w) \<Rightarrow>
     (Inr (HandlerResult handler_default), (c\<lparr>ctx_allow_host_changes := True\<rparr>,
        w\<lparr>w_clock := w_clock w + 11000000\<rparr>)))"

theorem callable_effects_complete_witness:
  "\<forall>c. ctx_allow_host_changes (fst (snd (run_callable_step
     (raising_mod\<lparr>tm_attrs := [(''boom'', Fn slow_handler)]\<rparr>) call_boom (c, empty_world ())))) = True"
proof
  fix c
  show "ctx_allow_host_changes (fst (snd (run_callable_step
     (raising_mod\<lparr>tm_attrs := [(''boom'', Fn slow_handler)]\<rparr>) call_boom (c, empty_world ())))) = True"
  using callable_effects_complete [of "raising_mod\<lparr>tm_attrs := [(''boom'', Fn slow_handler)]\<rparr>" call_boom
      slow_handler c "empty_world ()" "Inr (HandlerResult handler_default)"
      "c\<lparr>ctx_allow_host_changes := True\<rparr>" "(empty_world ())\<lparr>w_clock := 11000000\<rparr>"]
  by (simp add: call_boom_def slow_handler_def empty_world_def)
qed

section \<open>Properties: launching and stopping\<close>

text \<open>
  A launch that is refused is a launch outcome: when \<^verbatim>\<open>vm_launch\<close> raises a
  \<^verbatim>\<open>VMProfileError\<close> (or \<^verbatim>\<open>VMLaunchError\<close>), the step passes if it expected exit code 1 or a text of
  the message, is an error otherwise, and leaves no guest.
\<close>

theorem launch_refusal_is_outcome:
  assumes "base_step_post_init s0 = Inr step"
    and "vm_launch ops p w = (Inl e, w')" and "is_a e VMProfileError"
  shows "\<exists>r ex. run_vm_launch_step ops step p w = (Inr (r, None), w') \<and>
    expectation_of (step_expected_result step) = Some ex \<and>
    sr_result r = (if holds ex 1 (msg_of e) then Pass else Error) \<and>
    sr_exit_code r = Some 1 \<and> sr_stderr r = Some (msg_of e)"
proof -
  from assms(1) have "wf_step step" by (simp add: post_init_wf)
  then obtain ex where ex: "expectation_of (step_expected_result step) = Some ex"
    "\<And>code out. check_expected_values step code out = Inr (holds ex code out)"
    using check_expected_wf by blast
  show ?thesis
    using assms(2,3) ex
    by (simp add: run_vm_launch_step_def now_def elapsed_ms_def Let_def ibind_def itry_def pass_or_def)
qed

definition refused_step :: base_step where
  "refused_step = (sf_common (mk_factory ''reject'' Required ''stdout_contains:not found'' 60) VmLaunch)"

theorem launch_refusal_is_outcome_witness:
  "\<exists>r. run_vm_launch_step idle_ops refused_step (mk_profile ''missing.efi'') (empty_world ())
         = (Inr (r, None), empty_world ()) \<and> sr_result r = Pass"
proof -
  have e: "expectation_of ''stdout_contains:not found'' = Some (StdoutContains ''not found'')"
    by (simp add: expectation_of_def partition_at_def)
  have s: "base_step_post_init refused_step = Inr refused_step"
    unfolding post_init_wf wf_step_eval all_step_fields
    by (simp add: refused_step_def sf_common_def mk_factory_def is_other_severity_def
        is_other_kind_def e)
  let ?m = "''Guest image not found: missing.efi''"
  have v: "vp_validate (mk_profile ''missing.efi'') (empty_world ()) = Inl (Exc VMProfileError ?m)"
    by (simp add: vp_validate_def mk_profile_def empty_world_def is_file_def guard_not_def)
  have l: "vm_launch idle_ops (mk_profile ''missing.efi'') (empty_world ())
      = (Inl (Exc VMProfileError ?m), empty_world ())"
    by (rule vm_launch_invalid [OF v])
  have c: "contains ''not found'' ?m" by code_simp
  have x: "step_expected_result refused_step = ''stdout_contains:not found''"
    by (simp add: refused_step_def sf_common_def mk_factory_def)
  from launch_refusal_is_outcome [OF s l is_a_refl] e x c show ?thesis by auto
qed

text \<open>
  A stopped guest always counts as exit code 0: a \<^verbatim>\<open>vm_stop\<close> step that expects another exit
  code fails although the guest is stopped, however it had to be stopped.
\<close>

theorem vm_stop_exit_code_zero:
  assumes "base_step_post_init s0 = Inr step"
    and "expectation_of (step_expected_result step) = Some (ExitCode n)"
    and "stop_vm ops launch (step_timeout step) w = (Inr (), w')"
  shows "\<exists>r. run_vm_stop_step ops step launch w = (Inr r, w') \<and>
    sr_result r = (if n = 0 then Pass else Fail)"
proof -
  from assms(1) have "wf_step step" by (simp add: post_init_wf)
  then have "check_expected_values step 0 out = Inr (n = 0)" for out
    using check_expected_wf [of step] assms(2) by auto
  then show ?thesis
    using assms(3)
    by (simp add: run_vm_stop_step_def now_def elapsed_ms_def ibind_def itry_def iseq_def pass_or_def)
qed

definition sample_launch :: launch_result where
  "sample_launch = \<lparr>lr_pid = 4242, lr_command = [''qemu''], lr_profile = mk_profile ''g.efi'',
     lr_ok = True, lr_message = ''VM launched and guest booted'', lr_guest_id = ''g'',
     lr_process = Some 4242\<rparr>"

theorem vm_stop_exit_code_zero_witness:
  "\<exists>r. run_vm_stop_step idle_ops (sf_common (mk_factory ''stop'' Info ''exit_code:1'' 60) VmStop)
        sample_launch (empty_world ()) = (Inr r, empty_world ()) \<and> sr_result r = Fail"
proof -
  let ?s = "sf_common (mk_factory ''stop'' Info ''exit_code:1'' 60) VmStop"
  have i: "py_int ''1'' = Some 1" by code_simp
  have e: "expectation_of (step_expected_result ?s) = Some (ExitCode 1)"
    using i by (simp add: sf_common_def mk_factory_def expectation_of_def partition_at_def)
  have s: "base_step_post_init ?s = Inr ?s"
    unfolding post_init_wf wf_step_eval all_step_fields e
    by (simp add: sf_common_def mk_factory_def is_other_severity_def is_other_kind_def)
  have st: "stop_vm idle_ops sample_launch (step_timeout ?s) (empty_world ()) = (Inr (), empty_world ())"
    by (simp add: stop_vm_def sample_launch_def idle_ops_def ext_def empty_world_def iseq_def
        ibind_def itry_def)
  from vm_stop_exit_code_zero [OF s e st] show ?thesis by simp
qed

section \<open>Properties: artifact names\<close>

text \<open>
  A name becomes one path component of letters, digits, dots, underscores and hyphens; but
  the two names that consist of dots only are kept, and so name a directory above.
\<close>

theorem artifact_segment_chars:
  "artifact_path_segment s \<noteq> [] \<and>
   list_all (\<lambda>c. py_alnum c \<or> is_ascii c = False \<or> c \<in> {CHR ''.'', CHR ''_'', CHR ''-''})
     (artifact_path_segment s) \<and>
   artifact_path_segment ''..'' = ''..'' \<and>
   artifact_path_segment ''a/b'' = ''a_b''"
proof -
  have seg: "py_alnum (segment_char c) \<or> is_ascii (segment_char c) = False
      \<or> segment_char c \<in> {CHR ''.'', CHR ''_'', CHR ''-''}" for c
    by (auto simp: segment_char_def)
  have unknown: "list_all py_alnum ''unknown''"
    by (simp add: py_alnum_def py_alpha_def py_digit_def code_of_def)
  have "strip ''..'' = ''..''" "strip ''a/b'' = ''a/b''"
    by (simp_all add: strip_id py_space_def code_of_def)
  then have "artifact_path_segment ''..'' = ''..''" "artifact_path_segment ''a/b'' = ''a_b''"
    by (simp_all add: artifact_path_segment_def segment_char_def py_alnum_def py_alpha_def
        py_digit_def is_ascii_def code_of_def Let_def)
  then show ?thesis
    using seg unknown by (auto simp: artifact_path_segment_def Let_def list_all_iff)
qed

text \<open>
  The guest image always comes from the command line, the command line's QEMU and OVMF win
  over the test's, debug mode is only ever switched on, and every SEV-SNP setting is the test's.
\<close>

theorem effective_profile_merge:
  "(let p = effective_vm_profile (Some d) g q f dbg in
     vp_image_path p = path_str g \<and>
     vp_qemu_binary p = (case q of None \<Rightarrow> vp_qemu_binary d | Some b \<Rightarrow> b) \<and>
     vp_ovmf_path p = (case f of None \<Rightarrow> vp_ovmf_path d | Some _ \<Rightarrow> f) \<and>
     vp_debug p = (dbg \<or> vp_debug d) \<and>
     (vp_host_data p, vp_policy p, vp_auth_key_enabled p, vp_kernel_hashes p, vp_id_block p, vp_id_auth p)
       = (vp_host_data d, vp_policy d, vp_auth_key_enabled d, vp_kernel_hashes d, vp_id_block d, vp_id_auth d)) \<and>
   effective_vm_profile None g q f dbg = effective_vm_profile (Some (mk_profile (path_str g))) g q f dbg"
  by (auto simp: effective_vm_profile_def mk_profile_def Let_def split: option.splits)

section \<open>What every executor returns\<close>

definition good_result :: "base_step \<Rightarrow> step_result \<Rightarrow> bool" where
  "good_result step r \<longleftrightarrow> sr_step r = step \<and> sr_result r \<in> {Pass, Fail, Error}"

definition good_or :: "base_step \<Rightarrow> step_result + 'a \<Rightarrow> bool" where
  "good_or step v = (case v of Inl r \<Rightarrow> good_result step r | Inr _ \<Rightarrow> True)"

lemma good_error_result [simp]: "good_result step (error_result step msg d)"
  by (simp add: good_result_def)

lemma good_passed [simp]:
  "sr_step r = step \<Longrightarrow> sr_result r = pass_or x b \<Longrightarrow> x \<in> {Fail, Error} \<Longrightarrow> good_result step r"
  by (auto simp: good_result_def pass_or_def)

lemma returns_error_now: "returns (good_result step) (error_now step msg start)"
  unfolding error_now_def by (intro returns_intro) simp

lemma returns_error_Inl:
  "returns (good_or step) (ibind (error_now step m start) (\<lambda>r. iret (Inl r)))"
  by (rule returns_ibind_via [OF returns_error_now]) (simp add: good_or_def returns_iret)

lemma returns_error_Some:
  "returns (\<lambda>v. case v of None \<Rightarrow> True | Some r \<Rightarrow> good_result step r)
     (ibind (error_now step m start) (\<lambda>r. iret (Some r)))"
  by (rule returns_ibind_via [OF returns_error_now]) (simp add: returns_iret)

text \<open>The shape the executors share: start, attempt, then the outcome of the attempt.\<close>

lemma returns_attempt:
  assumes "\<And>x. returns P (attempt x)" and "\<And>x y. P y \<Longrightarrow> returns Q (rest x y)"
  shows "returns Q (ibind now (\<lambda>x. ibind (attempt x) (rest x)))"
  using assms by (intro returns_ibind returns_ibind_via [where P = P])

definition good_option :: "base_step \<Rightarrow> step_result option \<Rightarrow> bool" where
  "good_option step v = (case v of None \<Rightarrow> True | Some r \<Rightarrow> good_result step r)"

lemma returns_error_option:
  "returns (good_option step) (ibind (error_now step m start) (\<lambda>r. iret (Some r)))"
  using returns_error_Some by (simp add: good_option_def [abs_def])

lemma good_simps [simp]:
  "good_or step (Inl r) = good_result step r" "good_or step (Inr x)"
  "good_option step None" "good_option step (Some r) = good_result step r"
  by (simp_all add: good_or_def good_option_def)

lemma returns_run_step: "returns (good_result step) (run_step ops step g a)"
  unfolding run_step_def Let_def
  apply (rule returns_ibind)
  apply (rule returns_attempt [where P = "good_or step"])
   apply (intro returns_itry returns_error_Inl)
   apply (intro returns_intro, simp)
  subgoal for there start ran
    by (cases ran) (auto intro!: returns_intro)
  done

lemma returns_vm_launch_step:
  "returns (\<lambda>(r, l). good_result step r) (run_vm_launch_step ops step p)"
  unfolding run_vm_launch_step_def Let_def
  apply (rule returns_ibind)
  apply (rule returns_ibind)
  apply (rule returns_ibind_via [where P = "good_or step"])
   apply (intro returns_intro; simp)
  subgoal for start built launched
    by (cases launched) (auto intro!: returns_intro)
  done

lemma returns_vm_stop_step: "returns (good_result step) (run_vm_stop_step ops step launch)"
  unfolding run_vm_stop_step_def
  apply (rule returns_attempt [where P = "good_option step"])
   apply (intro returns_itry returns_error_option)
   apply (intro returns_intro, simp)
  subgoal for start failed
    by (cases failed) (auto intro!: returns_intro)
  done

lemma returns_guest_step: "returns (good_result step) (run_guest_step ops step p)"
  unfolding run_guest_step_def
  apply (rule returns_attempt [where P = "good_or step"])
   apply (intro returns_itry returns_error_Inl)
   apply (intro returns_intro, simp)
  subgoal for start ran
    by (cases ran) (auto intro!: returns_intro)
  done

lemma returns_guest_pull_step: "returns (good_result step) (run_guest_pull_step ops step p a)"
  unfolding run_guest_pull_step_def Let_def
  apply (rule returns_attempt [where P = "good_option step"])
   apply (intro returns_itry returns_error_option)
   apply (intro returns_intro, simp)
  subgoal for start failed
    by (cases failed) (auto intro!: returns_intro)
  done

lemma returns_callable_step: "returns (good_result step) (run_callable_step m step)"
  unfolding returns_def run_callable_step_def Let_def
  by (auto simp: rbind_eq_Inr split: option.splits attr.splits prod.splits call_outcome.splits
      handler_value.splits)

lemmas returns_executors =
  returns_run_step returns_vm_launch_step returns_vm_stop_step returns_guest_step
  returns_guest_pull_step returns_callable_step

end
