(* ===== verification/Os_Info.thy ===== *)
theory Os_Info
  imports Vm_Launch
begin

text \<open>
  \<^verbatim>\<open>sev_verify/os_info.py\<close>: the parser of os-release files, the host's and the guest's OS, and
  the update of the shared environment dictionary (\<open>w_environment\<close> of the world).
\<close>

section \<open>os-release\<close>

text \<open>One line of the loop of \<^verbatim>\<open>_parse_os_release\<close>.\<close>

definition os_release_line :: "string \<Rightarrow> (string \<times> string) list \<Rightarrow> (string \<times> string) list" where
  "os_release_line raw result =
     (let line = strip raw in
      if line = [] \<or> startswith line ''#'' then result
      else if \<not> contains ''='' line then result
      else (case partition_at CHR ''='' line of (key, _, v) \<Rightarrow>
        dict_set key (strip_char CHR 0x27 (strip_char CHR 0x22 v)) result))"

definition parse_os_release :: "string \<Rightarrow> (string \<times> string) list" where
  "parse_os_release content = fold os_release_line (splitlines content) []"

record os_info =
  os_name :: "string option"
  os_release :: "string option"
  os_pretty_name :: "string option"
  os_id :: "string option"

definition no_os_info :: os_info where
  "no_os_info = \<lparr>os_name = None, os_release = None, os_pretty_name = None, os_id = None\<rparr>"

definition os_info_of :: "string \<Rightarrow> os_info" where
  "os_info_of content =
     (let data = parse_os_release content in
      \<lparr>os_name = map_of data ''NAME'', os_release = map_of data ''VERSION'',
       os_pretty_name = map_of data ''PRETTY_NAME'', os_id = map_of data ''ID''\<rparr>)"

text \<open>\<^verbatim>\<open>except (OSError, UnicodeError)\<close>: reading text raises nothing else.\<close>

definition get_host_os_info :: "string \<Rightarrow> ('e world, os_info) io" where
  "get_host_os_info os_release_path =
     itry OSError
       (itry UnicodeDecodeError
         (ibind (read_bytes (path_of os_release_path)) (\<lambda>b. ilift (rbind (decode_strict b) (\<lambda>content. Inr (os_info_of content)))))
         (\<lambda>_. iret no_os_info))
       (\<lambda>_. iret no_os_info)"

definition get_guest_os_info :: "'e ops \<Rightarrow> vm_profile \<Rightarrow> ('e world, os_info) io" where
  "get_guest_os_info ops p =
     itry GuestVsockError
       (ibind (run_guest_command ops p ''cat /etc/os-release'' (Some 10) False) (\<lambda>result.
          if gcr_exit_code result \<noteq> 0 then iret no_os_info
          else iret (os_info_of (gcr_stdout result))))
       (\<lambda>_. iret no_os_info)"

text \<open>The host's entry of a value wins over the guest's.\<close>

definition or_else :: "string option \<Rightarrow> string option \<Rightarrow> string option" where
  "or_else a b = (if given a then a else b)"

definition format_os_info :: "os_info \<Rightarrow> os_info \<Rightarrow> string option" where
  "format_os_info host guest =
     (let pretty = or_else (os_pretty_name host) (os_pretty_name guest) in
      if given pretty then pretty
      else
        let name = or_else (os_name host) (os_name guest);
            release = or_else (os_release host) (os_release guest) in
        if given name \<and> given release then Some (the name @ '' '' @ the release)
        else if given name then name
        else if given release then release
        else None)"

section \<open>The shared environment\<close>

definition guest_keys :: "string list" where
  "guest_keys = [''guest_os_name'', ''guest_os_release'', ''guest_os_pretty_name'', ''guest_os_id'']"

text \<open>
  \<^verbatim>\<open>update_environment_with_guest_os(environment, profile)\<close> on the dictionary of the world; without
  one, the callers skip it (\<^verbatim>\<open>environment is not None\<close>).
\<close>

definition with_guest_info :: "os_info \<Rightarrow> (string \<times> string option) list \<Rightarrow> (string \<times> string option) list" where
  "with_guest_info info env =
     dict_set ''guest_os_id'' (os_id info)
      (dict_set ''guest_os_pretty_name'' (os_pretty_name info)
       (dict_set ''guest_os_release'' (os_release info)
        (dict_set ''guest_os_name'' (os_name info) env)))"

definition update_environment_with_guest_os :: "'e ops \<Rightarrow> vm_profile \<Rightarrow> ('e world, unit) io" where
  "update_environment_with_guest_os ops p =
     ibind (iget w_environment) (\<lambda>env.
       case env of
         None \<Rightarrow> iret ()
       | Some d \<Rightarrow>
           if map_of d ''guest_os_pretty_name'' \<noteq> None then iret ()
           else ibind (get_guest_os_info ops p) (\<lambda>info.
             imodify (\<lambda>w. w\<lparr>w_environment := map_option (with_guest_info info) (w_environment w)\<rparr>)))"

section \<open>Properties\<close>

context quiet_world
begin

lemma keeps_update_environment: "keeps I (update_environment_with_guest_os ops p)"
  unfolding update_environment_with_guest_os_def get_guest_os_info_def
  by (intro inv_intro keeps_run_guest_command) (simp add: inv_environment)

end

text \<open>The keys of a parsed file are distinct, and no comment or line without \<^verbatim>\<open>=\<close> contributes.\<close>

lemma distinct_parse_os_release: "distinct (map fst (parse_os_release content))"
proof -
  have "distinct (map fst (fold os_release_line ls d))" if "distinct (map fst d)" for ls d
    using that
  proof (induction ls arbitrary: d)
    case (Cons l ls)
    have "distinct (map fst (os_release_line l d))"
      using Cons.prems by (simp add: os_release_line_def Let_def distinct_dict_set split: prod.split)
    then show ?case using Cons.IH by simp
  qed simp
  then show ?thesis by (simp add: parse_os_release_def)
qed

text \<open>
  Once the guest's OS has been recorded, whether or not the guest could be asked, the
  environment is not asked for or changed again.
\<close>

theorem guest_os_recorded_once:
  assumes "update_environment_with_guest_os ops p w = (Inr (), w1)"
    and "w_environment w1 = Some d"
  shows "map_of d ''guest_os_pretty_name'' \<noteq> None \<and>
    update_environment_with_guest_os ops q w1 = (Inr (), w1)"
proof -
  have key: "map_of (with_guest_info info e) ''guest_os_pretty_name'' \<noteq> None" for info e
    by (simp add: with_guest_info_def map_of_dict_set)
  have "map_of d ''guest_os_pretty_name'' \<noteq> None"
  proof (cases "w_environment w")
    case None
    with assms show ?thesis by (simp add: update_environment_with_guest_os_def)
  next
    case (Some e)
    show ?thesis
    proof (cases "map_of e ''guest_os_pretty_name''")
      case None
      with assms Some key show ?thesis
        by (auto simp: update_environment_with_guest_os_def ibind_eq_Inr)
    qed (use assms Some in \<open>simp add: update_environment_with_guest_os_def\<close>)
  qed
  then show ?thesis using assms(2) by (simp add: update_environment_with_guest_os_def)
qed

theorem guest_os_recorded_once_witness:
  "\<exists>w1. update_environment_with_guest_os script_ops (mk_profile ''g'')
      ((empty_world [])\<lparr>w_environment := Some []\<rparr>) = (Inr (), w1)
     \<and> update_environment_with_guest_os script_ops (mk_profile ''g'') w1 = (Inr (), w1)"
proof -
  let ?w = "(empty_world ([] :: bytes list))\<lparr>w_environment := Some []\<rparr>"
  let ?p = "mk_profile ''g''"
  have recv: "ext (op_recv script_ops sock) ?w = (Inr [], ?w)" for sock
    by (simp add: script_ops_def ext_def empty_world_def)
  have resp: "read_response script_ops sock m ?w
      = (raise GuestVsockError ''Guest vsock agent closed without a response'', ?w)" for sock m
    using recv by (simp add: read_response_def ibind_def recv_loop.simps [of _ _ _ _ _ ?w]
        recv_part_def itry_def)
  have req: "vsock_request script_ops ?p (JObj [(''cmd'', JStr c)]) t ?w
      = (raise GuestVsockError ''Guest vsock agent closed without a response'', ?w)" for c t
    using resp
    by (simp add: vsock_request_def vsock_connect_def send_request_def ibind_def itry_def
        ifinally_def iseq_def script_ops_def idle_ops_def ext_def empty_world_def)
  have get: "get_guest_os_info script_ops ?p ?w = (Inr no_os_info, ?w)"
    using req by (simp add: get_guest_os_info_def run_guest_command_def iwhen_def iseq_def
        ibind_def itry_def now_def)
  have step: "update_environment_with_guest_os script_ops ?p ?w
      = (Inr (), ?w\<lparr>w_environment := Some (with_guest_info no_os_info [])\<rparr>)"
    using get by (simp add: update_environment_with_guest_os_def ibind_def)
  from guest_os_recorded_once [OF step] step show ?thesis by auto
qed

end
