(* ===== verification/Execute.thy ===== *)
theory Execute
  imports Runner Os_Info
begin

text \<open>
  \<^verbatim>\<open>execute_test\<close> of \<^verbatim>\<open>sev_verify/cli.py\<close>: the loop over the steps of one test, its state
  (the results, the running guest, the context shared with the handlers, the logger, the
  verdict) and its output.

  The loop is a computation over \<open>exec_state\<close>, which contains the world, so that the
  \<^verbatim>\<open>finally\<close> clause finds the guest that was running when an exception left the loop. The
  handlers read \<^verbatim>\<open>ctx.step_results\<close>, they do not change it.
\<close>

section \<open>Output\<close>

definition line_width :: nat where "line_width = 80"

text \<open>The box-drawing characters, a middle dot, a dash and a bullet, in UTF-8.\<close>

definition hbar :: string where "hbar = [CHR 0xE2, CHR 0x94, CHR 0x80]"
definition corner :: string where "corner = [CHR 0xE2, CHR 0x94, CHR 0x94] @ hbar"
definition tee :: string where "tee = [CHR 0xE2, CHR 0x94, CHR 0x9C] @ hbar"
definition vbar :: string where "vbar = [CHR 0xE2, CHR 0x94, CHR 0x82]"
definition mid_dot :: string where "mid_dot = [CHR 0xC2, CHR 0xB7]"
definition em_dash :: string where "em_dash = [CHR 0xE2, CHR 0x80, CHR 0x94]"

definition times :: "nat \<Rightarrow> string \<Rightarrow> string" where
  "times n s = concat (replicate n s)"

text \<open>\<^verbatim>\<open>max(avail, 2)\<close> where \<^verbatim>\<open>avail = _LINE_WIDTH - len(a) - len(b)\<close>\<close>

definition gap :: "string \<Rightarrow> string \<Rightarrow> nat" where
  "gap a b = max (line_width - len_chars a - len_chars b) 2"

definition padded :: "string \<Rightarrow> string \<Rightarrow> string" where
  "padded a b = a @ times (gap a b) '' '' @ b"

fun result_label :: "outcome \<Rightarrow> string" where
  "result_label Pass = ''PASS''"
| "result_label Fail = ''FAIL''"
| "result_label Error = ''ERR!''"
| "result_label Skip = ''SKIP''"
| "result_label (OtherOutcome _) = ''????''"

text \<open>
  \<^verbatim>\<open>f"{ms / 1000:.1f}s"\<close>: the quotient is the nearest double, which is then rounded to one
  decimal; both roundings are half-to-even.
\<close>

definition div_even :: "nat \<Rightarrow> nat \<Rightarrow> nat" where
  "div_even a b = (let q = a div b; r = a mod b in
     if 2 * r < b \<or> (2 * r = b \<and> even q) then q else Suc q)"

fun ilog2 :: "nat \<Rightarrow> nat" where
  "ilog2 n = (if n < 2 then 0 else Suc (ilog2 (n div 2)))"

definition seconds_text :: "nat \<Rightarrow> string" where
  "seconds_text ms =
     (let e = 52 - ilog2 (ms div 1000);
          mantissa = div_even (ms * 2 ^ e) 1000;
          tenths = div_even (mantissa * 10) (2 ^ e)
      in nat_str 10 (tenths div 10) @ ''.'' @ nat_str 10 (tenths mod 10) @ ''s'')"

definition fmt_duration :: "int option \<Rightarrow> string" where
  "fmt_duration d =
     (case d of
        None \<Rightarrow> []
      | Some ms \<Rightarrow> if ms \<ge> 1000 then seconds_text (nat ms) else str_int ms @ ''ms'')"

definition step_result_line :: "step_result \<Rightarrow> bool \<Rightarrow> string" where
  "step_result_line sr is_last =
     (let connector = (if is_last then corner else tee);
          icon = result_label (sr_result sr);
          duration = fmt_duration (sr_duration_ms sr);
          suffix = (if duration \<noteq> [] then '' '' @ duration @ '' ['' @ icon @ '']''
                    else '' ['' @ icon @ '']'');
          name_part = ''   '' @ connector @ '' '' @ step_name (sr_step sr) @ '' ''
      in name_part @ times (gap name_part suffix) mid_dot @ suffix)"

section \<open>The state of a test run\<close>

record run_config =
  rc_guest_path :: path
  rc_artifacts_root :: path
  rc_qemu_binary :: "string option"
  rc_ovmf_path :: "string option"
  rc_allow_host_changes :: bool
  rc_debug :: bool

record 'e exec_state =
  es_results :: "step_result list"
  es_launch :: "launch_result option"
  es_ctx :: ctx
  es_logger :: "step_logger option"
  es_overall :: outcome
  es_world :: "'e world"

text \<open>A computation over the world, and one over a handler's context and the world.\<close>

definition in_world :: "('e world, 'a) io \<Rightarrow> ('e exec_state, 'a) io" where
  "in_world m s = (case m (es_world s) of (r, w) \<Rightarrow> (r, s\<lparr>es_world := w\<rparr>))"

definition in_ctx :: "(ctx \<times> 'e world, 'a) io \<Rightarrow> ('e exec_state, 'a) io" where
  "in_ctx m s =
     (case m (es_ctx s, es_world s) of (r, (c, w)) \<Rightarrow> (r, s\<lparr>es_ctx := c, es_world := w\<rparr>))"

definition set_launch :: "launch_result option \<Rightarrow> ('e exec_state, unit) io" where
  "set_launch l = imodify (\<lambda>s. s\<lparr>es_launch := l\<rparr>)"

definition set_ctx_profile :: "vm_profile \<Rightarrow> ('e exec_state, unit) io" where
  "set_ctx_profile p = imodify (\<lambda>s. s\<lparr>es_ctx := es_ctx s\<lparr>ctx_profile := Some p\<rparr>\<rparr>)"

section \<open>One branch per kind of step\<close>

definition no_duration_error :: "base_step \<Rightarrow> string \<Rightarrow> step_result" where
  "no_duration_error step msg = error_result step msg None"

text \<open>\<^verbatim>\<open>step.guest_id or profile.guest_id or str(uuid.uuid4())\<close>\<close>

definition effective_guest_id :: "'e ops \<Rightarrow> base_step \<Rightarrow> vm_profile \<Rightarrow> ('e world, string) io" where
  "effective_guest_id ops step p =
     (if step_guest_id step \<noteq> [] then iret (step_guest_id step)
      else if given (vp_guest_id p) then iret (the (vp_guest_id p))
      else ext (op_uuid4 ops))"

definition debug_profile :: "path \<Rightarrow> string \<Rightarrow> vm_profile \<Rightarrow> vm_profile" where
  "debug_profile artifact_dir gid p =
     (let dir = path_sub artifact_dir gid in
      p\<lparr>vp_guest_id := Some gid,
        vp_guest_error_log := path_str (path_sub dir ''qemu-error.log''),
        vp_guest_boot_log := path_str (path_sub dir ''qemu-boot.log'')\<rparr>)"

definition exec_vm_launch ::
  "'e ops \<Rightarrow> bool \<Rightarrow> path \<Rightarrow> base_step \<Rightarrow> ('e exec_state, step_result) io" where
  "exec_vm_launch ops debug artifact_dir step =
     ibind (iget (\<lambda>s. (ctx_profile (es_ctx s), es_launch s))) (\<lambda>(profile, launch).
     case profile of
       None \<Rightarrow> iret (no_duration_error step ''vm_launch step requires guest image / VM profile context'')
     | Some p \<Rightarrow>
         if launch \<noteq> None then
           iret (error_result step ''Duplicate vm_launch step (guest is already running)'' (Some 0))
         else
           ibind (in_world (effective_guest_id ops step p)) (\<lambda>gid.
           ibind (if debug then
                    iseq (in_world (mkdir_parents (path_sub artifact_dir gid)))
                   (iseq (set_ctx_profile (debug_profile artifact_dir gid p))
                         (iret (debug_profile artifact_dir gid p)))
                  else iret p) (\<lambda>p1.
           ibind (in_world (run_vm_launch_step ops step p1)) (\<lambda>(sr, new_launch).
           iseq (set_launch new_launch)
          (iseq (case new_launch of
                   Some l \<Rightarrow> iwhen (lr_ok l)
                     (in_world (update_environment_with_guest_os ops (lr_profile l)))
                 | None \<Rightarrow> iret ())
                (iret sr))))))"

text \<open>The result, the guest that was stopped, and its journal (in debug mode).\<close>

definition exec_vm_stop ::
  "'e ops \<Rightarrow> bool \<Rightarrow> base_step
     \<Rightarrow> ('e exec_state, step_result \<times> launch_result option \<times> string option) io" where
  "exec_vm_stop ops debug step =
     ibind (iget es_launch) (\<lambda>launch.
     case launch of
       None \<Rightarrow> iret (error_result step
         ''vm_stop: no running guest (run vm_launch or a guest step first)'' (Some 0), None, None)
     | Some l \<Rightarrow>
         ibind (if debug then
                  in_world (itry GuestVsockError
                    (ibind (fetch_guest_journal ops (lr_profile l) None)
                       (\<lambda>g. iret (Some (gcr_stdout g))))
                    (\<lambda>_. iret None))
                else iret None) (\<lambda>journal.
         ibind (in_world (run_vm_stop_step ops step l)) (\<lambda>sr.
           if sr_result sr \<noteq> Error then iseq (set_launch None) (iret (sr, Some l, journal))
           else iret (sr, None, journal))))"

text \<open>The guest is started on the first guest step when no \<^verbatim>\<open>vm_launch\<close> step did it.\<close>

definition auto_launch :: "'e ops \<Rightarrow> base_step \<Rightarrow> vm_profile \<Rightarrow> ('e exec_state, step_result option) io" where
  "auto_launch ops step p =
     ibind (iget es_launch) (\<lambda>launch.
     if launch \<noteq> None then iret None
     else itry VMProfileError
       (ibind (in_world (vm_launch ops p)) (\<lambda>l.
        iseq (set_launch (Some l))
       (iseq (iwhen (lr_ok l) (in_world (update_environment_with_guest_os ops (lr_profile l))))
             (iret None))))
       (\<lambda>e. iret (Some (error_result step (msg_of e) (Some 0)))))"

definition exec_guest ::
  "'e ops \<Rightarrow> path \<Rightarrow> base_step \<Rightarrow> ('e exec_state, step_result) io" where
  "exec_guest ops artifact_dir step =
     ibind (iget (\<lambda>s. ctx_profile (es_ctx s))) (\<lambda>profile.
     case profile of
       None \<Rightarrow> iret (no_duration_error step ''Guest steps require a guest image path and VM profile'')
     | Some p \<Rightarrow>
         ibind (auto_launch ops step p) (\<lambda>failed.
         ibind (iget es_launch) (\<lambda>launch.
         case launch of
           None \<Rightarrow> (case failed of Some sr \<Rightarrow> iret sr
                    | None \<Rightarrow> ithrow (Exc UnboundLocalError ''sr''))
         | Some l \<Rightarrow>
             if \<not> lr_ok l then iret (error_result step (lr_message l) (Some 0))
             else if step_kind step = Guest then in_world (run_guest_step ops step (lr_profile l))
             else in_world (run_guest_pull_step ops step (lr_profile l) (Some artifact_dir)))))"

definition exec_kind ::
  "'e ops \<Rightarrow> 'e test_mod \<Rightarrow> bool \<Rightarrow> path \<Rightarrow> path \<Rightarrow> base_step
     \<Rightarrow> ('e exec_state, step_result \<times> launch_result option \<times> string option) io" where
  "exec_kind ops m debug guest_path artifact_dir step =
     (let plain = (\<lambda>run. ibind run (\<lambda>sr. iret (sr, None, None))) in
      case step_kind step of
        VmLaunch \<Rightarrow> plain (exec_vm_launch ops debug artifact_dir step)
      | VmStop \<Rightarrow> exec_vm_stop ops debug step
      | Host \<Rightarrow> plain (in_world (run_step ops step guest_path (Some artifact_dir)))
      | Guest \<Rightarrow> plain (exec_guest ops artifact_dir step)
      | GuestPull \<Rightarrow> plain (exec_guest ops artifact_dir step)
      | Callable \<Rightarrow> plain (in_ctx (run_callable_step m step))
      | OtherKind k \<Rightarrow> plain (iret (no_duration_error step
          (''Unsupported step kind '' @ repr_str k))))"

section \<open>After a step\<close>

definition log_exec ::
  "'e ops \<Rightarrow> base_step \<Rightarrow> step_result \<Rightarrow> launch_result option \<Rightarrow> string option
     \<Rightarrow> ('e exec_state, unit) io" where
  "log_exec ops step sr stopped journal =
     ibind (iget (\<lambda>s. (es_logger s, es_launch s))) (\<lambda>(logger, launch).
     case logger of
       None \<Rightarrow> iret ()
     | Some lg \<Rightarrow>
         (let active = (if step_kind step = VmStop \<and> stopped \<noteq> None then stopped else launch);
              cmd0 = map_option command_line active;
              cmd = (if step_kind step = VmLaunch \<and> cmd0 = None \<and> given (sr_command sr)
                     then sr_command sr else cmd0);
              gid0 = map_option lr_guest_id active;
              gid = (if step_kind step = VmLaunch \<and> gid0 = None \<and> step_guest_id step \<noteq> []
                     then Some (step_guest_id step) else gid0);
              jrnl = (if step_kind step = VmStop then journal else None);
              pid = (if step_kind step = VmStop then map_option lr_pid active else None)
          in ibind (in_world (log_step ops lg step sr cmd gid jrnl pid))
               (\<lambda>lg'. imodify (\<lambda>s. s\<lparr>es_logger := Some lg'\<rparr>))))"

definition gutter :: "bool \<Rightarrow> string" where
  "gutter is_last = (if is_last then ''   '' else vbar @ ''  '')"

definition opt_text :: "string option \<Rightarrow> string" where
  "opt_text v = (case v of None \<Rightarrow> [] | Some s \<Rightarrow> s)"

text \<open>The first hint whose pattern occurs in the output.\<close>

definition first_hint :: "(string \<times> string) list \<Rightarrow> string \<Rightarrow> string option" where
  "first_hint hints combined = map_option snd (find (\<lambda>h. contains (fst h) combined) hints)"

definition print_failure :: "base_step \<Rightarrow> step_result \<Rightarrow> bool \<Rightarrow> ('e world, unit) io" where
  "print_failure step sr is_last =
     iseq (iwhen (given (sr_stderr sr))
            (iforeach (take 5 (splitlines (strip (the (sr_stderr sr)))))
               (\<lambda>line. flush_line (''   '' @ gutter is_last @ ''   '' @ line))))
          (case first_hint (step_hints step) (opt_text (sr_stderr sr) @ opt_text (sr_stdout sr)) of
             None \<Rightarrow> iret ()
           | Some hint_msg \<Rightarrow> flush_line (''   '' @ gutter is_last @ ''   [Hint] '' @ hint_msg))"

definition failed_result :: "step_result \<Rightarrow> bool" where
  "failed_result sr = (sr_result sr = Fail \<or> sr_result sr = Error)"

text \<open>The loop that marks the rest as skipped.\<close>

fun skip_rest :: "base_step list \<Rightarrow> ('e exec_state, unit) io" where
  "skip_rest [] = iret ()"
| "skip_rest (step # rest) =
     (let skip = mk_step_result step Skip in
      iseq (imodify (\<lambda>s. s\<lparr>es_results := es_results s @ [skip]\<rparr>))
     (iseq (in_world (flush_line (step_result_line skip (rest = []))))
           (skip_rest rest)))"

definition set_overall :: "outcome \<Rightarrow> ('e exec_state, unit) io" where
  "set_overall v = imodify (\<lambda>s. s\<lparr>es_overall := v\<rparr>)"

text \<open>\<^verbatim>\<open>ctx.launch = launch\<close>; the results are shared with the context.\<close>

definition refresh_ctx :: "('e exec_state, unit) io" where
  "refresh_ctx = imodify (\<lambda>s. s\<lparr>es_ctx := es_ctx s
     \<lparr>ctx_launch := es_launch s, ctx_step_results := es_results s\<rparr>\<rparr>)"

text \<open>What a round does before the step is run (the progress line of a terminal), and after.\<close>

definition begin_step :: "'e ops \<Rightarrow> base_step \<Rightarrow> base_step list \<Rightarrow> ('e exec_state, unit) io" where
  "begin_step ops step rest =
     iseq refresh_ctx
       (iwhen (op_is_tty ops) (in_world (flush_end
          (''   '' @ (if rest = [] then corner else tee) @ '' '' @ step_name step @ '' ...'')
          [CHR 0x0D])))"

definition after_step ::
  "'e ops \<Rightarrow> base_step \<Rightarrow> base_step list \<Rightarrow> step_result \<Rightarrow> launch_result option \<Rightarrow> string option
     \<Rightarrow> ('e exec_state, bool) io" where
  "after_step ops step rest sr stopped journal =
     (let is_last = (rest = []) in
      iseq (imodify (\<lambda>s. s\<lparr>es_results := es_results s @ [sr]\<rparr>))
     (iseq (log_exec ops step sr stopped journal)
     (iseq (in_world (flush_line (step_result_line sr is_last)))
           (if failed_result sr then
              iseq (in_world (print_failure step sr is_last))
                (if step_type step = Setup then
                   iseq (set_overall Fail) (iseq (skip_rest rest) (iret False))
                 else if step_type step = Required then
                   iseq (set_overall Fail) (iret True)
                 else iret True)
            else iret True))))"

text \<open>One round of the loop; the answer says whether the loop goes on.\<close>

definition exec_step ::
  "'e ops \<Rightarrow> 'e test_mod \<Rightarrow> bool \<Rightarrow> path \<Rightarrow> path \<Rightarrow> base_step \<Rightarrow> base_step list
     \<Rightarrow> ('e exec_state, bool) io" where
  "exec_step ops m debug guest_path artifact_dir step rest =
     iseq (begin_step ops step rest)
    (ibind (exec_kind ops m debug guest_path artifact_dir step)
       (\<lambda>(sr, stopped, journal). after_step ops step rest sr stopped journal))"

fun exec_steps ::
  "'e ops \<Rightarrow> 'e test_mod \<Rightarrow> bool \<Rightarrow> path \<Rightarrow> path \<Rightarrow> base_step list \<Rightarrow> ('e exec_state, unit) io"
where
  "exec_steps ops m debug guest_path artifact_dir [] = iret ()"
| "exec_steps ops m debug guest_path artifact_dir (step # rest) =
     ibind (exec_step ops m debug guest_path artifact_dir step rest) (\<lambda>go_on.
       if go_on then exec_steps ops m debug guest_path artifact_dir rest else iret ())"

section \<open>A whole test\<close>

definition count_results :: "(step_result \<Rightarrow> bool) \<Rightarrow> step_result list \<Rightarrow> nat" where
  "count_results P rs = length (filter P rs)"

definition summary_line :: "outcome \<Rightarrow> step_result list \<Rightarrow> nat \<Rightarrow> string" where
  "summary_line overall rs total_steps =
     (let passed = count_results (\<lambda>r. sr_result r = Pass) rs;
          failed = count_results failed_result rs;
          counts = (if failed = 0 then nat_str 10 passed @ ''/'' @ nat_str 10 total_steps @ '' passed''
                    else nat_str 10 failed @ ''/'' @ nat_str 10 total_steps @ '' failed'')
      in padded ''   result:'' ('' '' @ counts @ '' ['' @ result_label overall @ '']''))"

definition initial_state ::
  "run_config \<Rightarrow> test_definition \<Rightarrow> path \<Rightarrow> vm_profile option \<Rightarrow> 'e world \<Rightarrow> 'e exec_state" where
  "initial_state cfg test artifact_dir declared w =
     \<lparr>es_results = [], es_launch = None,
      es_ctx = \<lparr>ctx_test = test, ctx_guest_path = rc_guest_path cfg, ctx_step_results = [],
                ctx_artifact_dir = artifact_dir,
                ctx_profile = (if requires_vm test
                  then Some (effective_vm_profile declared (rc_guest_path cfg) (rc_qemu_binary cfg)
                               (rc_ovmf_path cfg) (rc_debug cfg))
                  else None),
                ctx_launch = None, ctx_cli_qemu_binary = rc_qemu_binary cfg,
                ctx_cli_ovmf_path = rc_ovmf_path cfg,
                ctx_allow_host_changes = rc_allow_host_changes cfg\<rparr>,
      es_logger = (if rc_debug cfg then Some (mk_logger artifact_dir) else None),
      es_overall = Pass, es_world = w\<rparr>"

definition finish_test ::
  "'e ops \<Rightarrow> test_definition \<Rightarrow> string \<Rightarrow> nat \<Rightarrow> ('e exec_state, test_result) io" where
  "finish_test ops test started total_steps =
     ibind (iget (\<lambda>s. (es_overall s, es_results s))) (\<lambda>(overall, rs).
     iseq (in_world (flush_line (summary_line overall rs total_steps)))
    (ibind (in_world (ext (op_utcnow ops))) (\<lambda>completed.
       iret \<lparr>tr_test = test, tr_result = overall, tr_step_results = rs,
             tr_started_at = Some started, tr_completed_at = Some completed\<rparr>)))"

text \<open>\<^verbatim>\<open>finally: if launch is not None: stop_vm(launch)\<close>\<close>

definition stop_leftover :: "'e ops \<Rightarrow> ('e exec_state, unit) io" where
  "stop_leftover ops =
     ibind (iget es_launch) (\<lambda>launch.
       case launch of None \<Rightarrow> iret () | Some l \<Rightarrow> in_world (stop_vm ops l 10))"

definition run_steps ::
  "'e ops \<Rightarrow> 'e test_mod \<Rightarrow> run_config \<Rightarrow> test_definition \<Rightarrow> path \<Rightarrow> string \<Rightarrow> base_step list
     \<Rightarrow> ('e exec_state, test_result) io" where
  "run_steps ops m cfg test artifact_dir started steps =
     ifinally
       (iseq (exec_steps ops m (rc_debug cfg) (rc_guest_path cfg) artifact_dir steps)
             (finish_test ops test started (length steps)))
       (stop_leftover ops)"

definition print_test_heading :: "test_definition \<Rightarrow> ('e world, unit) io" where
  "print_test_heading test =
     flush_line
       (if test_description test \<noteq> []
        then padded (''   '' @ test_name test @ '' '') ('' '' @ test_description test)
        else ''   '' @ test_name test)"

definition execute_test ::
  "'e ops \<Rightarrow> 'e modules \<Rightarrow> run_config \<Rightarrow> string option \<Rightarrow> test_definition \<Rightarrow> ('e world, test_result) io"
where
  "execute_test ops mods cfg certification_version test =
     ibind (ext (op_utcnow ops)) (\<lambda>started.
     iseq (print_test_heading test)
    (ibind (itry_any (ibind (load_test_execution_plan mods test) (\<lambda>plan. iret (Inr plan)))
                     (\<lambda>e. iret (Inl e))) (\<lambda>loaded.
       case loaded of
          Inl e \<Rightarrow>
            iseq (flush_line (''   [ERR!] '' @ em_dash @ '' failed to load module: '' @ msg_of e))
           (ibind (ext (op_utcnow ops)) (\<lambda>completed.
              iret \<lparr>tr_test = test, tr_result = Error, tr_step_results = [],
                    tr_started_at = Some started, tr_completed_at = Some completed\<rparr>))
        | Inr (steps, declared) \<Rightarrow>
            let artifact_dir = test_artifact_dir (rc_artifacts_root cfg) certification_version test in
            iseq (mkdir_parents artifact_dir)
           (iseq (flush_line (''   Artifacts: '' @ path_str artifact_dir))
           (ibind (ilift (import_test_module mods test)) (\<lambda>m. \<lambda>w.
              case run_steps ops m cfg test artifact_dir started steps
                     (initial_state cfg test artifact_dir declared w)
              of (r, s) \<Rightarrow> (r, es_world s)))))))"

section \<open>The loop keeps the books\<close>

text \<open>The results recorded and the verdict so far.\<close>

definition books :: "step_result list \<Rightarrow> outcome \<Rightarrow> 'e exec_state \<Rightarrow> bool" where
  "books rs v s \<longleftrightarrow> es_results s = rs \<and> es_overall s = v"

lemma books_in_world: "keeps (books rs v) (in_world m)"
  by (auto simp: keeps_def books_def in_world_def split: prod.splits)

lemma books_in_ctx: "keeps (books rs v) (in_ctx m)"
  by (auto simp: keeps_def books_def in_ctx_def split: prod.splits)

lemma books_set_launch: "keeps (books rs v) (set_launch l)"
  by (simp add: keeps_def books_def set_launch_def)

lemma books_set_ctx_profile: "keeps (books rs v) (set_ctx_profile p)"
  by (simp add: keeps_def books_def set_ctx_profile_def)

lemma books_refresh: "keeps (books rs v) refresh_ctx"
  by (simp add: keeps_def books_def refresh_ctx_def)

lemmas books_intro = keeps_intro books_in_world books_in_ctx books_set_launch
  books_set_ctx_profile books_refresh

lemma books_auto_launch: "keeps (books rs v) (auto_launch ops step p)"
  unfolding auto_launch_def by (intro books_intro)

lemma books_exec_kind: "keeps (books rs v) (exec_kind ops m debug g a step)"
proof (cases "step_kind step")
  case VmLaunch
  then show ?thesis unfolding exec_kind_def Let_def
    by (simp add: exec_vm_launch_def) (intro books_intro)
next
  case VmStop
  then show ?thesis unfolding exec_kind_def Let_def
    by (simp add: exec_vm_stop_def) (intro books_intro)
next
  case Guest
  then show ?thesis unfolding exec_kind_def Let_def
    by (simp add: exec_guest_def) (intro books_intro books_auto_launch)
next
  case GuestPull
  then show ?thesis unfolding exec_kind_def Let_def
    by (simp add: exec_guest_def) (intro books_intro books_auto_launch)
qed (simp_all add: exec_kind_def Let_def keeps_ibind books_in_world books_in_ctx keeps_pure)

lemma books_log: "keeps (books rs v) (log_exec ops step sr stopped journal)"
proof -
  show ?thesis unfolding log_exec_def Let_def by (intro books_intro) (simp add: books_def)
qed

lemma returns_in_world: "returns Q m \<Longrightarrow> returns Q (in_world m)"
  by (auto simp: returns_def in_world_def split: prod.splits)

lemma returns_in_ctx: "returns Q m \<Longrightarrow> returns Q (in_ctx m)"
  unfolding returns_def in_ctx_def by (auto split: prod.splits) (metis prod.collapse)

lemma returns_exec_vm_launch: "returns (good_result step) (exec_vm_launch ops debug a step)"
  unfolding exec_vm_launch_def no_duration_error_def
  apply (rule returns_ibind, rule returns_prod, rule returns_option)
   apply (simp add: returns_iret)
  apply (rule returns_if)
   apply (simp add: returns_iret)
  apply (rule returns_ibind, rule returns_ibind)
  apply (rule returns_ibind_via [OF returns_in_world [OF returns_vm_launch_step]])
  apply (auto intro!: returns_iseq returns_iret)
  done

lemma returns_auto_launch: "returns (good_option step) (auto_launch ops step p)"
  unfolding auto_launch_def by (intro returns_intro) simp_all

lemma returns_exec_guest: "returns (good_result step) (exec_guest ops a step)"
  unfolding exec_guest_def no_duration_error_def
  apply (rule returns_ibind, rule returns_option)
   apply (simp add: returns_iret)
  apply (rule returns_ibind_via [OF returns_auto_launch])
  apply (rule returns_ibind)
  subgoal for profile p failed launch
    by (cases failed; cases launch)
      (auto intro!: returns_intro returns_in_world returns_guest_step returns_guest_pull_step)
  done

lemma returns_exec_kind:
  "returns (\<lambda>(sr, stopped, journal). good_result step sr) (exec_kind ops m debug g a step)"
proof -
  have plain: "returns (\<lambda>(sr, stopped, journal). good_result step sr)
      (ibind run (\<lambda>sr. iret (sr, None, None)))"
    if "returns (good_result step) run" for run :: "('a exec_state, step_result) io"
    by (rule returns_ibind_via [OF that]) (simp add: returns_iret)
  have stop: "returns (\<lambda>(sr, stopped, journal). good_result step sr) (exec_vm_stop ops debug step)"
    unfolding exec_vm_stop_def
    apply (rule returns_ibind, rule returns_option)
     apply (simp add: returns_iret)
    apply (rule returns_ibind)
    apply (rule returns_ibind_via [OF returns_in_world [OF returns_vm_stop_step]])
    apply (auto intro!: returns_iseq returns_iret)
    done
  show ?thesis
    by (cases "step_kind step")
      (simp_all add: exec_kind_def Let_def stop plain returns_exec_vm_launch returns_exec_guest
        returns_in_world returns_in_ctx returns_run_step returns_callable_step returns_iret
        no_duration_error_def)
qed

section \<open>What a run of the steps amounts to\<close>

text \<open>
  The specification of a run: the results follow the steps one for one; each is the result of
  its step; after a failed setup step every remaining step is skipped, and no other step is.
\<close>

definition is_fatal :: "base_step \<Rightarrow> step_result \<Rightarrow> bool" where
  "is_fatal step r = (failed_result r \<and> step_type step = Setup)"

fun follows :: "base_step list \<Rightarrow> step_result list \<Rightarrow> bool" where
  "follows [] rs = (rs = [])"
| "follows (step # steps) [] = False"
| "follows (step # steps) (r # rs) =
     (good_result step r \<and>
      (if is_fatal step r then rs = map (\<lambda>t. mk_step_result t Skip) steps else follows steps rs))"

definition counts_against :: "step_result \<Rightarrow> bool" where
  "counts_against r = (failed_result r \<and> step_type (sr_step r) \<in> {Setup, Required})"

definition verdict :: "outcome \<Rightarrow> step_result list \<Rightarrow> outcome" where
  "verdict v rs = (if list_ex counts_against rs then Fail else v)"

lemma verdict_simps [simp]:
  "verdict v [] = v"
  "verdict v (r # rs) = verdict (if counts_against r then Fail else v) rs"
  by (simp_all add: verdict_def)

lemma skipped_not_counted: "verdict v (map (\<lambda>t. mk_step_result t Skip) steps) = v"
  by (simp add: verdict_def list_ex_iff counts_against_def failed_result_def mk_step_result_def)

lemma skip_rest_run:
  "\<exists>w. skip_rest steps s = (Inr (), s\<lparr>es_results := es_results s @ map (\<lambda>t. mk_step_result t Skip) steps,
      es_world := w\<rparr>) \<and> (\<exists>out. w = es_world s\<lparr>w_out := out\<rparr>)"
proof (induction steps arbitrary: s)
  case Nil
  show ?case by (intro exI [of _ "es_world s"]) (auto intro: exI [of _ "w_out (es_world s)"])
next
  case (Cons t steps)
  let ?line = "step_result_line (mk_step_result t Skip) (steps = []) @ nl"
  let ?s1 = "s\<lparr>es_results := es_results s @ [mk_step_result t Skip],
      es_world := es_world s\<lparr>w_out := w_out (es_world s) @ [?line]\<rparr>\<rparr>"
  have one: "skip_rest (t # steps) s = skip_rest steps ?s1"
    by (simp add: Let_def iseq_def ibind_def in_world_def flush_line_def flush_end_def)
  obtain w out where "skip_rest steps ?s1 = (Inr (), ?s1\<lparr>es_results := es_results ?s1 @
      map (\<lambda>t. mk_step_result t Skip) steps, es_world := w\<rparr>)" "w = es_world ?s1\<lparr>w_out := out\<rparr>"
    using Cons.IH [of ?s1] by blast
  then show ?case unfolding one by (intro exI [of _ w]) auto
qed

text \<open>The three parts of a round that returns.\<close>

lemma exec_step_cases:
  assumes "exec_step ops m debug g a step rest s = (Inr go, s')"
  obtains s1 sr stopped journal s2 where "begin_step ops step rest s = (Inr (), s1)"
    "exec_kind ops m debug g a step s1 = (Inr (sr, stopped, journal), s2)"
    "after_step ops step rest sr stopped journal s2 = (Inr go, s')"
  using assms by (auto simp: exec_step_def iseq_def ibind_eq_Inr)

text \<open>
  A fact about the state of a run that does not concern the books survives what a round does
  around the executor, if it survives output and logging.
\<close>

locale round_invariant =
  fixes I :: "'e exec_state \<Rightarrow> bool" and ops :: "'e ops"
  assumes ri_results: "I s \<Longrightarrow> I (s\<lparr>es_results := rs\<rparr>)"
    and ri_overall: "I s \<Longrightarrow> I (s\<lparr>es_overall := v\<rparr>)"
    and ri_logger: "I s \<Longrightarrow> I (s\<lparr>es_logger := Some lg\<rparr>)"
    and ri_ctx: "I s \<Longrightarrow> I (s\<lparr>es_ctx := es_ctx s\<lparr>ctx_launch := es_launch s, ctx_step_results := rs\<rparr>\<rparr>)"
    and ri_flush: "keeps I (in_world (flush_end a b))"
    and ri_log: "keeps I (in_world (log_step ops lg step sr c g j p))"
begin

lemma keeps_refresh: "keeps I refresh_ctx"
  by (simp add: keeps_def refresh_ctx_def ri_ctx)

lemma keeps_overall: "keeps I (set_overall v)"
  by (simp add: keeps_def set_overall_def ri_overall)

lemma keeps_line: "keeps I (in_world (flush_line a))"
  unfolding flush_line_def by (rule ri_flush)

lemma keeps_lines: "keeps I (in_world (iforeach ls (\<lambda>l. flush_line (f l))))"
proof (induction ls)
  case Nil
  show ?case by (simp add: keeps_def in_world_def)
next
  case (Cons l ls)
  have line: "in_world (iforeach (l # ls) (\<lambda>l. flush_line (f l))) = iseq (in_world (flush_line (f l)))
      (in_world (iforeach ls (\<lambda>l. flush_line (f l))))"
    by (rule ext) (simp add: in_world_def iseq_def ibind_def split: prod.splits sum.splits)
  show ?case unfolding line by (intro keeps_iseq keeps_line Cons)
qed

lemma keeps_print_failure: "keeps I (in_world (print_failure step sr b))"
proof -
  have seq: "in_world (iseq m n) = iseq (in_world m) (in_world n)" for m n
    by (rule ext) (auto simp: in_world_def iseq_def ibind_def split: prod.splits sum.splits)
  have unit: "keeps I (in_world (iret ()))" by (simp add: keeps_def in_world_def)
  have guarded: "keeps I (in_world m) \<Longrightarrow> keeps I (in_world (iwhen c m))" for c m
    using unit by (simp add: iwhen_def)
  show ?thesis unfolding print_failure_def seq
    by (intro keeps_iseq guarded keeps_lines) (simp add: unit keeps_line split: option.splits)
qed

lemma keeps_begin: "keeps I (begin_step ops step rest)"
  unfolding begin_step_def by (intro keeps_iseq keeps_iwhen keeps_refresh ri_flush)

lemma keeps_skip_rest: "keeps I (skip_rest steps)"
proof (induction steps)
  case Nil
  show ?case by (simp only: skip_rest.simps keeps_pure)
next
  case (Cons step steps)
  then show ?case unfolding skip_rest.simps Let_def
    by (intro keeps_iseq keeps_line keeps_imodify ri_results)
qed

lemma keeps_log_exec: "keeps I (log_exec ops step sr stopped journal)"
  unfolding log_exec_def Let_def
  by (intro keeps_pure keeps_ibind keeps_prod keeps_option keeps_imodify ri_log ri_logger)

lemma keeps_after: "keeps I (after_step ops step rest sr stopped journal)"
  unfolding after_step_def Let_def
  by (intro keeps_iseq keeps_if keeps_pure keeps_imodify keeps_overall keeps_line keeps_skip_rest
      keeps_log_exec keeps_print_failure ri_results)

end

text \<open>One round: the books before and after.\<close>

lemma exec_step_books:
  assumes "exec_step ops m debug g a step rest s = (Inr go, s')"
  obtains r where "good_result step r"
    "go = (\<not> is_fatal step r)"
    "es_results s' = es_results s @ r # (if is_fatal step r then map (\<lambda>t. mk_step_result t Skip) rest else [])"
    "es_overall s' = (if counts_against r then Fail else es_overall s)"
proof -
  let ?R = "es_results s" and ?v = "es_overall s"
  obtain s1 sr stopped journal s2 where s1: "begin_step ops step rest s = (Inr (), s1)"
    and k: "exec_kind ops m debug g a step s1 = (Inr (sr, stopped, journal), s2)"
    and post: "after_step ops step rest sr stopped journal s2 = (Inr go, s')"
    using assms by (rule exec_step_cases)
  from post obtain s3 s4 where
    l: "log_exec ops step sr stopped journal (s2\<lparr>es_results := es_results s2 @ [sr]\<rparr>) = (Inr (), s3)"
    and p: "in_world (flush_line (step_result_line sr (rest = []))) s3 = (Inr (), s4)"
    and e: "(if failed_result sr then
              iseq (in_world (print_failure step sr (rest = [])))
                (if step_type step = Setup then
                   iseq (set_overall Fail) (iseq (skip_rest rest) (iret False))
                 else if step_type step = Required then
                   iseq (set_overall Fail) (iret True)
                 else iret True)
            else iret True) s4 = (Inr go, s')"
    by (auto simp: after_step_def Let_def iseq_def ibind_eq_Inr)
  have b0: "books ?R ?v s" by (simp add: books_def)
  have "keeps (books ?R ?v) (begin_step ops step rest)"
    unfolding begin_step_def by (intro books_intro)
  from keeps_run [OF this s1 b0] have "books ?R ?v s1" .
  from keeps_run [OF books_exec_kind k this] have "books (?R @ [sr]) ?v (s2\<lparr>es_results := es_results s2 @ [sr]\<rparr>)"
    by (simp add: books_def)
  from keeps_run [OF books_log l this] have "books (?R @ [sr]) ?v s3" .
  from keeps_run [OF books_in_world p this] have b4: "books (?R @ [sr]) ?v s4" .
  have good: "good_result step sr" using returnsD [OF returns_exec_kind k] by simp
  then have st: "sr_step sr = step" by (simp add: good_result_def)
  show thesis
  proof (cases "failed_result sr")
    case False
    then show thesis using that [OF good] e b4 st
      by (auto simp: is_fatal_def counts_against_def books_def)
  next
    case True
    with e obtain s5 where pf: "in_world (print_failure step sr (rest = [])) s4 = (Inr (), s5)"
      and e5: "(if step_type step = Setup then
                   iseq (set_overall Fail) (iseq (skip_rest rest) (iret False))
                 else if step_type step = Required then
                   iseq (set_overall Fail) (iret True)
                 else iret True) s5 = (Inr go, s')"
      by (auto simp: iseq_def ibind_eq_Inr)
    from keeps_run [OF books_in_world pf b4] have b5: "books (?R @ [sr]) ?v s5" .
    consider "step_type step = Setup" | "step_type step = Required"
      | "step_type step \<noteq> Setup" "step_type step \<noteq> Required" by blast
    then show thesis
    proof cases
      case 1
      obtain w where "skip_rest rest (s5\<lparr>es_overall := Fail\<rparr>) = (Inr (), s5\<lparr>es_overall := Fail,
          es_results := es_results s5 @ map (\<lambda>t. mk_step_result t Skip) rest, es_world := w\<rparr>)"
        using skip_rest_run [of rest "s5\<lparr>es_overall := Fail\<rparr>"] by auto
      then have "go = False" "s' = s5\<lparr>es_overall := Fail,
          es_results := es_results s5 @ map (\<lambda>t. mk_step_result t Skip) rest, es_world := w\<rparr>"
        using e5 1 by (auto simp: iseq_def ibind_def set_overall_def)
      then show thesis using that [OF good] True 1 b5 st
        by (simp add: is_fatal_def counts_against_def books_def)
    next
      case 2
      then show thesis using that [OF good] e5 True b5 st
        by (auto simp: is_fatal_def counts_against_def books_def set_overall_def)
    next
      case 3
      then show thesis using that [OF good] e5 True b5 st
        by (auto simp: is_fatal_def counts_against_def books_def)
    qed
  qed
qed

lemma exec_steps_books:
  assumes "exec_steps ops m debug g a steps s = (Inr u, s')"
  shows "\<exists>rs. es_results s' = es_results s @ rs \<and> follows steps rs \<and>
    es_overall s' = verdict (es_overall s) rs"
  using assms
proof (induction steps arbitrary: s)
  case Nil
  then show ?case by simp
next
  case (Cons step rest)
  from Cons.prems obtain go s1 where
    one: "exec_step ops m debug g a step rest s = (Inr go, s1)"
    and more: "(if go then exec_steps ops m debug g a rest else iret ()) s1 = (Inr u, s')"
    by (auto simp: ibind_eq_Inr)
  from one obtain r where r: "good_result step r" "go = (\<not> is_fatal step r)"
    "es_results s1 = es_results s @ r # (if is_fatal step r then map (\<lambda>t. mk_step_result t Skip) rest else [])"
    "es_overall s1 = (if counts_against r then Fail else es_overall s)"
    by (rule exec_step_books)
  show ?case
  proof (cases "is_fatal step r")
    case True
    then have "s' = s1" using more r(2) by simp
    then show ?thesis using r True
      by (intro exI [of _ "r # map (\<lambda>t. mk_step_result t Skip) rest"]) (simp add: skipped_not_counted)
  next
    case False
    then have "exec_steps ops m debug g a rest s1 = (Inr u, s')" using more r(2) by simp
    from Cons.IH [OF this] obtain rs where "es_results s' = es_results s1 @ rs" "follows rest rs"
      "es_overall s' = verdict (es_overall s1) rs" by blast
    then show ?thesis using r False by (intro exI [of _ "r # rs"]) simp
  qed
qed

text \<open>The specification, read off a list of results.\<close>

lemma follows_steps: "follows steps rs \<Longrightarrow> map sr_step rs = steps"
proof (induction steps rs rule: follows.induct)
  case (3 step steps r rs)
  then show ?case
    by (auto simp: good_result_def mk_step_result_def comp_def split: if_splits)
qed simp_all

definition until_fatal :: "step_result list \<Rightarrow> step_result list" where
  "until_fatal rs = takeWhile (\<lambda>r. \<not> is_fatal (sr_step r) r) rs"

lemma follows_skips:
  "follows steps rs \<Longrightarrow>
     (\<forall>i < length rs. (sr_result (rs ! i) = Skip) = (length (until_fatal rs) < i))"
proof (induction steps rs rule: follows.induct)
  case (3 step steps r rs)
  then have g: "sr_step r = step" "sr_result r \<noteq> Skip" by (auto simp: good_result_def)
  show ?case
  proof (cases "is_fatal step r")
    case True
    then have "until_fatal (r # rs) = []" using g by (simp add: until_fatal_def)
    moreover have "sr_result (rs ! j) = Skip" if "j < length rs" for j
      using 3(2) True that by (simp add: mk_step_result_def)
    ultimately show ?thesis using g by (auto simp: nth_Cons split: nat.split)
  next
    case False
    then have "until_fatal (r # rs) = r # until_fatal rs" using g by (simp add: until_fatal_def)
    then show ?thesis using 3 False g by (auto simp: nth_Cons split: nat.split)
  qed
qed simp_all

section \<open>The verdict of a test\<close>

lemma run_steps_Inr:
  assumes "run_steps ops m cfg test a started steps s = (Inr tr, s')" and "es_results s = []"
  shows "tr_test tr = test \<and> follows steps (tr_step_results tr) \<and>
    tr_result tr = verdict (es_overall s) (tr_step_results tr)"
proof -
  from assms(1) obtain s1 where
    "iseq (exec_steps ops m (rc_debug cfg) (rc_guest_path cfg) a steps)
          (finish_test ops test started (length steps)) s = (Inr tr, s1)"
    by (auto simp: run_steps_def ifinally_def split: prod.splits sum.splits)
  then obtain s2 where x: "exec_steps ops m (rc_debug cfg) (rc_guest_path cfg) a steps s = (Inr (), s2)"
    and f: "finish_test ops test started (length steps) s2 = (Inr tr, s1)"
    by (auto simp: iseq_def ibind_eq_Inr)
  from exec_steps_books [OF x] assms(2) have "follows steps (es_results s2)"
    "es_overall s2 = verdict (es_overall s) (es_results s2)" by auto
  moreover from f have "tr_test tr = test" "tr_step_results tr = es_results s2" "tr_result tr = es_overall s2"
    by (auto simp: finish_test_def iseq_def ibind_eq_Inr)
  ultimately show ?thesis by simp
qed

text \<open>The world in which the test's module is loaded.\<close>

definition loading_world :: "'e ops \<Rightarrow> test_definition \<Rightarrow> 'e world \<Rightarrow> 'e world" where
  "loading_world ops test w = snd (print_test_heading test (snd (ext (op_utcnow ops) w)))"

lemma execute_test_begins:
  assumes "execute_test ops mods cfg v test w = (Inr tr, w')"
  obtains started where "(ibind (itry_any (ibind (load_test_execution_plan mods test) (\<lambda>plan. iret (Inr plan)))
                     (\<lambda>e. iret (Inl e))) (\<lambda>loaded.
       case loaded of
          Inl e \<Rightarrow>
            iseq (flush_line (''   [ERR!] '' @ em_dash @ '' failed to load module: '' @ msg_of e))
           (ibind (ext (op_utcnow ops)) (\<lambda>completed.
              iret \<lparr>tr_test = test, tr_result = Error, tr_step_results = [],
                    tr_started_at = Some started, tr_completed_at = Some completed\<rparr>))
        | Inr (steps, declared) \<Rightarrow>
            let artifact_dir = test_artifact_dir (rc_artifacts_root cfg) v test in
            iseq (mkdir_parents artifact_dir)
           (iseq (flush_line (''   Artifacts: '' @ path_str artifact_dir))
           (ibind (ilift (import_test_module mods test)) (\<lambda>m. \<lambda>w.
              case run_steps ops m cfg test artifact_dir started steps
                     (initial_state cfg test artifact_dir declared w)
              of (r, s) \<Rightarrow> (r, es_world s)))))) (loading_world ops test w) = (Inr tr, w')"
proof -
  obtain started w0 where t: "ext (op_utcnow ops) w = (Inr started, w0)"
    using assms unfolding execute_test_def ibind_eq_Inr by blast
  obtain w1 where h: "print_test_heading test w0 = (Inr (), w1)"
    by (simp add: print_test_heading_def flush_run)
  have "loading_world ops test w = w1" by (simp add: loading_world_def t h)
  then show thesis
    using that assms [unfolded execute_test_def ibind_simps(1) [where m = "ext (op_utcnow ops)", OF t]
        iseq_def ibind_simps(1) [where m = "print_test_heading test", OF h], folded iseq_def]
    by (simp only:)
qed

lemma execute_test_Inr:
  assumes "execute_test ops mods cfg v test w = (Inr tr, w')"
    and "load_test_execution_plan mods test (loading_world ops test w) = (Inr (steps, declared), w1)"
  shows "tr_test tr = test \<and> follows steps (tr_step_results tr) \<and>
    tr_result tr = verdict Pass (tr_step_results tr)"
proof -
  from assms(2) obtain m where m: "import_test_module mods test = Inr m"
    by (cases "import_test_module mods test") (auto simp: load_test_execution_plan_def)
  let ?a = "test_artifact_dir (rc_artifacts_root cfg) v test"
  let ?load = "itry_any (ibind (load_test_execution_plan mods test) (\<lambda>plan. iret (Inr plan)))
      (\<lambda>e. iret (Inl e))"
  have l: "?load (loading_world ops test w) = (Inr (Inr (steps, declared)), w1)"
    by (simp add: itry_any_def ibind_def assms(2))
  from assms(1) obtain started w2 where
    "(case run_steps ops m cfg test ?a started steps (initial_state cfg test ?a declared w2)
      of (r, s) \<Rightarrow> (r, es_world s)) = (Inr tr, w')"
    by (rule execute_test_begins) (auto simp: ibind_simps(1) [where m = ?load, OF l] Let_def iseq_def ibind_eq_Inr m)
  then obtain s' where
    "run_steps ops m cfg test ?a started steps (initial_state cfg test ?a declared w2) = (Inr tr, s')"
    by (cases "run_steps ops m cfg test ?a started steps (initial_state cfg test ?a declared w2)") auto
  from run_steps_Inr [OF this] show ?thesis by (simp add: initial_state_def)
qed

text \<open>A module that does not load makes the test an error, with no step run.\<close>

lemma execute_test_unloaded:
  assumes "execute_test ops mods cfg v test w = (Inr tr, w')"
    and "load_test_execution_plan mods test (loading_world ops test w) = (Inl e, w1)"
  shows "tr_test tr = test \<and> tr_result tr = Error \<and> tr_step_results tr = []"
proof -
  let ?load = "itry_any (ibind (load_test_execution_plan mods test) (\<lambda>plan. iret (Inr plan)))
      (\<lambda>e. iret (Inl e))"
  have l: "?load (loading_world ops test w) = (Inr (Inl e), w1)"
    by (simp add: itry_any_def ibind_def assms(2))
  from assms(1) show ?thesis
    by (rule execute_test_begins) (auto simp: ibind_simps(1) [where m = ?load, OF l] iseq_def ibind_eq_Inr)
qed

text \<open>
  C1: the result of a test: one result per step, in the order of the steps; the steps after the
  first failed setup step are skipped and no others; and the test passes exactly when no setup
  or required step failed or ended in error (an info step never counts).
\<close>

theorem execute_test_verdict:
  assumes "execute_test ops mods cfg v test w = (Inr tr, w')"
    and "load_test_execution_plan mods test (loading_world ops test w) = (Inr (steps, declared), w1)"
  shows "map sr_step (tr_step_results tr) = steps \<and>
    (\<forall>i \<in> {..<length steps}. (sr_result (tr_step_results tr ! i) = Skip) =
       (length (takeWhile (\<lambda>r. \<not> (failed_result r \<and> step_type (sr_step r) = Setup))
                  (tr_step_results tr)) < i)) \<and>
    tr_result tr =
      (if \<exists>r \<in> set (tr_step_results tr). failed_result r \<and> step_type (sr_step r) \<in> {Setup, Required}
       then Fail else Pass)"
proof -
  from execute_test_Inr [OF assms] have f: "follows steps (tr_step_results tr)"
    "tr_result tr = verdict Pass (tr_step_results tr)" by auto
  from follows_steps [OF f(1)] have m: "map sr_step (tr_step_results tr) = steps" .
  then have "length (tr_step_results tr) = length steps" by auto
  with m f follows_skips [OF f(1)] show ?thesis
    by (auto simp: until_fatal_def is_fatal_def verdict_def list_ex_iff counts_against_def)
qed

text \<open>Printing never fails, so a step without a logger whose executor returns is completed.\<close>

lemma print_failure_returns: "\<exists>out. print_failure step r b w = (Inr (), w\<lparr>w_out := out\<rparr>)"
proof -
  have lines: "\<exists>out. iforeach ls (\<lambda>l. flush_line (f l)) w = (Inr (), w\<lparr>w_out := out\<rparr>)" for ls f w
  proof (induction ls arbitrary: w)
    case Nil
    show ?case by (auto intro: exI [of _ "w_out w"])
  next
    case (Cons l ls)
    obtain out where "iforeach ls (\<lambda>l. flush_line (f l)) (w\<lparr>w_out := w_out w @ [f l @ nl]\<rparr>)
        = (Inr (), w\<lparr>w_out := out\<rparr>)"
      using Cons [of "w\<lparr>w_out := w_out w @ [f l @ nl]\<rparr>"] by auto
    then show ?case by (auto simp: iseq_def ibind_simps(1) [OF flush_run(2)])
  qed
  have first: "\<exists>out. iwhen c (iforeach ls (\<lambda>l. flush_line (f l))) w = (Inr (), w\<lparr>w_out := out\<rparr>)" for c ls f
    using lines [of ls f w] by (cases c) (auto simp: iwhen_def intro: exI [of _ "w_out w"])
  let ?m = "iwhen (given (sr_stderr r)) (iforeach (take 5 (splitlines (strip (the (sr_stderr r)))))
               (\<lambda>line. flush_line (''   '' @ gutter b @ ''   '' @ line)))"
  let ?h = "first_hint (step_hints step) (opt_text (sr_stderr r) @ opt_text (sr_stdout r))"
  obtain out1 where 1: "?m w = (Inr (), w\<lparr>w_out := out1\<rparr>)"
    using first [of "given (sr_stderr r)" "take 5 (splitlines (strip (the (sr_stderr r))))"
        "\<lambda>line. ''   '' @ gutter b @ ''   '' @ line"] by blast
  obtain out2 where "(case ?h of None \<Rightarrow> iret () | Some m \<Rightarrow> flush_line (''   '' @ gutter b @ ''   [Hint] '' @ m))
      (w\<lparr>w_out := out1\<rparr>) = (Inr (), w\<lparr>w_out := out1\<rparr>\<lparr>w_out := out2\<rparr>)"
    by (cases ?h) (auto simp: flush_run intro: exI [of _ out1])
  with 1 show ?thesis unfolding print_failure_def iseq_def ibind_def by auto
qed

lemma exec_step_returns:
  assumes k: "exec_kind ops m debug g a step (snd (refresh_ctx s)) = (Inr (r, stopped, j), s2)"
    and "es_logger s2 = None" and "op_is_tty ops = False"
  shows "\<exists>go s'. exec_step ops m debug g a step rest s = (Inr go, s') \<and>
    es_logger s' = None \<and> es_launch s' = es_launch s2 \<and> es_ctx s' = es_ctx s2 \<and>
    w_files (es_world s') = w_files (es_world s2)"
proof -
  let ?s3 = "s2\<lparr>es_results := es_results s2 @ [r]\<rparr>"
  obtain w4 where w4: "in_world (flush_line (step_result_line r (rest = []))) ?s3
      = (Inr (), ?s3\<lparr>es_world := w4\<rparr>)" and f4: "w_files w4 = w_files (es_world s2)"
    by (simp add: in_world_def flush_run)
  obtain w5 where w5: "in_world (print_failure step r (rest = [])) (?s3\<lparr>es_world := w4\<rparr>)
      = (Inr (), ?s3\<lparr>es_world := w5\<rparr>)" and f5: "w_files w5 = w_files w4"
    using print_failure_returns [of step r "rest = []" w4] by (auto simp: in_world_def)
  let ?s5 = "?s3\<lparr>es_world := w5\<rparr>"
  obtain w6 where w6: "skip_rest rest (?s5\<lparr>es_overall := Fail\<rparr>) = (Inr (), ?s5\<lparr>es_overall := Fail,
      es_results := es_results ?s5 @ map (\<lambda>t. mk_step_result t Skip) rest, es_world := w6\<rparr>)" and f6: "w_files w6 = w_files w5"
    using skip_rest_run [of rest "?s5\<lparr>es_overall := Fail\<rparr>"] by auto
  have pre: "begin_step ops step rest s = (Inr (), snd (refresh_ctx s))"
    using assms(3) by (simp add: begin_step_def refresh_ctx_def iwhen_def)
  have l: "log_exec ops step r stopped j ?s3 = (Inr (), ?s3)"
    using assms(2) by (simp add: log_exec_def)
  have "exec_step ops m debug g a step rest s =
      (if failed_result r then
         (if step_type step = Setup then iseq (set_overall Fail) (iseq (skip_rest rest) (iret False))
          else if step_type step = Required then iseq (set_overall Fail) (iret True) else iret True) ?s5
       else (Inr True, ?s3\<lparr>es_world := w4\<rparr>))"
    unfolding exec_step_def
    using pre k l w4 w5 by (simp add: after_step_def Let_def iseq_def ibind_def)
  with w6 assms(2) f4 f5 f6 show ?thesis by (auto simp: iseq_def ibind_def set_overall_def)
qed

definition demo_step :: "severity \<Rightarrow> base_step" where
  "demo_step sev = (sf_common (mk_factory ''call'' sev ''exit_code:0'' 10) Callable)
                     \<lparr>step_handler := ''missing''\<rparr>"

definition demo_mod :: "unit test_mod" where
  "demo_mod = \<lparr>tm_steps = iret [demo_step Info, demo_step Setup, demo_step Required],
                tm_vm_profile = iret None, tm_attrs = []\<rparr>"

definition demo_test :: test_definition where
  "demo_test = \<lparr>test_name = ''demo'', test_module = ''m'', test_scope = HostScope,
                 test_description = [], test_level = [], test_host_changes = False\<rparr>"

definition demo_config :: run_config where
  "demo_config = \<lparr>rc_guest_path = Path [] [''g.efi''], rc_artifacts_root = Path [] [''artifacts''],
                   rc_qemu_binary = None, rc_ovmf_path = None, rc_allow_host_changes = False,
                   rc_debug = False\<rparr>"

lemma demo_plan: "load_test_execution_plan (\<lambda>_. Inr demo_mod) demo_test w
    = (Inr ([demo_step Info, demo_step Setup, demo_step Required], None), w)"
  by (simp add: load_test_execution_plan_def import_test_module_def demo_mod_def)

lemma run_steps_returns:
  assumes "exec_steps ops m (rc_debug cfg) (rc_guest_path cfg) a steps s = (Inr (), s1)"
    and "es_launch s1 = None" and "\<And>w. \<exists>t. ext (op_utcnow ops) w = (Inr t, w)"
  shows "\<exists>tr s2. run_steps ops m cfg test a started steps s = (Inr tr, s2)"
proof -
  obtain w4 where w4: "flush_line (summary_line (es_overall s1) (es_results s1) (length steps)) (es_world s1)
      = (Inr (), w4)"
    by (simp only: flush_run)
  obtain t1 where t1: "ext (op_utcnow ops) w4 = (Inr t1, w4)" using assms(3) by blast
  show ?thesis
    using assms(1,2) w4 t1
    by (simp add: run_steps_def ifinally_def iseq_def ibind_def finish_test_def in_world_def
        stop_leftover_def)
qed

lemma execute_test_returns:
  assumes "\<And>w. load_test_execution_plan mods test w = (Inr (steps, declared), w)"
    and "import_test_module mods test = Inr m"
    and "\<exists>t. ext (op_utcnow ops) w = (Inr t, w)"
    and "\<And>a. \<exists>w'. mkdir_parents a (snd (print_test_heading test w)) = (Inr (), w')"
    and "\<And>a started w'. \<exists>tr s2. run_steps ops m cfg test a started steps
        (initial_state cfg test a declared w') = (Inr tr, s2)"
  shows "\<exists>tr w'. execute_test ops mods cfg v test w = (Inr tr, w')"
proof -
  let ?a = "test_artifact_dir (rc_artifacts_root cfg) v test"
  obtain t where t: "ext (op_utcnow ops) w = (Inr t, w)" using assms(3) by blast
  obtain w1 where w1: "print_test_heading test w = (Inr (), w1)"
    by (simp add: print_test_heading_def flush_run)
  obtain w2 where w2: "mkdir_parents ?a w1 = (Inr (), w2)" using assms(4) w1 by auto
  obtain w3 where w3: "flush_line (''   Artifacts: '' @ path_str ?a) w2 = (Inr (), w3)"
    by (simp only: flush_run)
  obtain tr s2 where r: "run_steps ops m cfg test ?a t steps (initial_state cfg test ?a declared w3) = (Inr tr, s2)"
    using assms(5) by blast
  have "execute_test ops mods cfg v test w = (Inr tr, es_world s2)"
    unfolding execute_test_def Let_def iseq_def
    by (simp only: ibind_def ilift_def itry_any_def iret_def t w1 w2 w3 r assms(1,2) prod.case sum.case)
  then show ?thesis by blast
qed

lemma demo_plan_map: "load_test_execution_plan (\<lambda>_. Inr demo_mod) demo_test w
    = (Inr (map demo_step [Info, Setup, Required], None), w)"
  by (simp add: demo_plan)

lemma demo_runs:
  assumes "w_files w0 = (\<lambda>_. None)"
  shows "\<exists>tr w'. execute_test idle_ops (\<lambda>_. Inr demo_mod) demo_config v demo_test w0 = (Inr tr, w')"
proof -
  have tty: "op_is_tty idle_ops = False" by (simp add: idle_ops_def)
  have utc: "\<exists>t. ext (op_utcnow idle_ops) w = (Inr t, w)" for w :: "unit world"
    by (simp add: idle_ops_def ext_def)
  have kind: "\<exists>r. exec_kind idle_ops demo_mod False g a (demo_step sev) s = (Inr (r, None, None), s)"
    for sev g a and s :: "unit exec_state"
    by (simp add: exec_kind_def demo_step_def sf_common_def mk_factory_def Let_def in_ctx_def
        ibind_def run_callable_step_def demo_mod_def)
  have steps: "\<exists>s'. exec_steps idle_ops demo_mod False g a (map demo_step sevs) s = (Inr (), s')
      \<and> es_launch s' = None"
    if "es_logger s = None" "es_launch s = None" for sevs g a and s :: "unit exec_state"
    using that
  proof (induction sevs arbitrary: s)
    case (Cons sev sevs)
    let ?s1 = "snd (refresh_ctx s)"
    have s1: "es_logger ?s1 = None" "es_launch ?s1 = None" using Cons.prems by (simp_all add: refresh_ctx_def)
    obtain r where "exec_kind idle_ops demo_mod False g a (demo_step sev) ?s1 = (Inr (r, None, None), ?s1)"
      using kind by blast
    from exec_step_returns [OF this s1(1) tty] s1(2) obtain go s2 where
      one: "exec_step idle_ops demo_mod False g a (demo_step sev) (map demo_step sevs) s = (Inr go, s2)"
        "es_logger s2 = None" "es_launch s2 = None"
      by metis
    then show ?case using Cons.IH [OF one(2,3)] by (cases go) (simp_all add: ibind_def)
  qed simp
  have utc': "\<exists>t. ext (op_utcnow idle_ops) w = (Inr t, w)" for w :: "unit world" by (rule utc)
  have runs: "\<exists>tr s2. run_steps idle_ops demo_mod demo_config demo_test a started
      (map demo_step sevs) (initial_state demo_config demo_test a None w) = (Inr tr, s2)"
    for started a sevs w
  proof -
    let ?s = "initial_state demo_config demo_test a None w"
    have i: "es_logger ?s = None" "es_launch ?s = None" and d: "rc_debug demo_config = False"
      by (simp_all add: initial_state_def demo_config_def)
    obtain s1 where s1: "exec_steps idle_ops demo_mod (rc_debug demo_config) (rc_guest_path demo_config) a
        (map demo_step sevs) ?s = (Inr (), s1)" "es_launch s1 = None"
      using steps [OF i] d by metis
    show ?thesis by (rule run_steps_returns [OF s1 utc'])
  qed
  have mk: "\<exists>w'. mkdir_parents a (snd (print_test_heading demo_test w0)) = (Inr (), w')" for a
    using assms by (simp add: print_test_heading_def flush_run mkdir_parents_def list_ex_iff)
  have imp: "import_test_module (\<lambda>_. Inr demo_mod) demo_test = Inr demo_mod"
    by (simp add: import_test_module_def)
  show ?thesis by (rule execute_test_returns [OF demo_plan_map imp utc mk runs])
qed

theorem execute_test_verdict_witness:
  "\<exists>tr w'. execute_test idle_ops (\<lambda>_. Inr demo_mod) demo_config None demo_test (empty_world ()) = (Inr tr, w')
     \<and> map sr_step (tr_step_results tr) = [demo_step Info, demo_step Setup, demo_step Required]"
proof -
  have f: "w_files (empty_world ()) = (\<lambda>_. None)" by (simp add: empty_world_def)
  obtain tr w' where r: "execute_test idle_ops (\<lambda>_. Inr demo_mod) demo_config None demo_test (empty_world ())
      = (Inr tr, w')"
    using demo_runs [OF f] by blast
  from execute_test_verdict [OF r demo_plan]
  have "map sr_step (tr_step_results tr) = [demo_step Info, demo_step Setup, demo_step Required]" by (rule conjunct1)
  with r show ?thesis by (intro exI conjI)
qed

end
