(* ===== verification/Grouping.thy ===== *)
theory Grouping
  imports Prelude
begin

text \<open>
  Grouping by key: the \<^verbatim>\<open>d.setdefault(k, []).append(v)\<close> idiom the program uses for filters per
  manifest, results per level and tests per group. The laws are a locale over the operations a
  client calls; the dictionary in insertion order is its interpretation.
\<close>

locale multimap =
  fixes lookup :: "'d \<Rightarrow> 'k \<Rightarrow> 'v list"
    and add :: "'k \<Rightarrow> 'v \<Rightarrow> 'd \<Rightarrow> 'd"
    and keys :: "'d \<Rightarrow> 'k list"
    and empty :: 'd
  assumes lookup_empty: "lookup empty k = []"
    and lookup_add: "lookup (add k v d) k' = (if k' = k then lookup d k @ [v] else lookup d k')"
    and keys_empty: "keys empty = []"
    and keys_add: "keys (add k v d) = (if List.member (keys d) k then keys d else keys d @ [k])"
begin

definition add_all :: "('k \<times> 'v) list \<Rightarrow> 'd \<Rightarrow> 'd" where
  "add_all kvs d = fold (\<lambda>(k, v). add k v) kvs d"

lemma lookup_add_all: "lookup (add_all kvs d) k = lookup d k @ map snd (filter (\<lambda>kv. fst kv = k) kvs)"
proof (induction kvs arbitrary: d)
  case (Cons kv kvs)
  then show ?case by (cases kv) (auto simp: add_all_def lookup_add)
qed (simp add: add_all_def)

text \<open>A group holds exactly the values of its key, in order.\<close>

lemma lookup_grouped: "lookup (add_all kvs empty) k = map snd (filter (\<lambda>kv. fst kv = k) kvs)"
  by (simp add: lookup_add_all lookup_empty)

lemma keys_add_all: "keys (add_all kvs d) = keys d @ dedup_from (rev (keys d)) (map fst kvs)"
proof (induction kvs arbitrary: d)
  case (Cons kv kvs)
  obtain k v where kv: "kv = (k, v)" by (cases kv)
  have step: "add_all (kv # kvs) d = add_all kvs (add k v d)" by (simp add: add_all_def kv)
  show ?case unfolding step Cons.IH by (simp add: keys_add kv)
qed (simp add: add_all_def)

lemma keys_grouped: "keys (add_all kvs empty) = dedup (map fst kvs)"
  by (simp add: keys_add_all keys_empty dedup_def)

end

section \<open>The dictionary of lists\<close>

fun group_add :: "'k \<Rightarrow> 'v \<Rightarrow> ('k \<times> 'v list) list \<Rightarrow> ('k \<times> 'v list) list" where
  "group_add k v [] = [(k, [v])]"
| "group_add k v ((k', vs) # d) = (if k = k' then (k', vs @ [v]) # d else (k', vs) # group_add k v d)"

text \<open>\<^verbatim>\<open>d.get(k, [])\<close>\<close>

definition group_get :: "('k \<times> 'v list) list \<Rightarrow> 'k \<Rightarrow> 'v list" where
  "group_get d k = (case map_of d k of None \<Rightarrow> [] | Some vs \<Rightarrow> vs)"

interpretation dict: multimap group_get group_add "map fst" "[]"
proof
  show "group_get [] k = []" for k :: 'a by (simp add: group_get_def)
  show "group_get (group_add k v d) k' = (if k' = k then group_get d k @ [v] else group_get d k')"
    for k k' :: 'a and v :: 'b and d
    by (induction k v d rule: group_add.induct) (auto simp: group_get_def)
  show "map fst [] = []" by simp
  show "map fst (group_add k v d) = (if List.member (map fst d) k then map fst d else map fst d @ [k])"
    for k :: 'a and v :: 'b and d
    by (induction k v d rule: group_add.induct) auto
qed

text \<open>The loop \<^verbatim>\<open>for x in xs: if keep(x): d.setdefault(key(x), []).append(val(x))\<close>\<close>

definition group_by :: "('x \<Rightarrow> bool) \<Rightarrow> ('x \<Rightarrow> 'k) \<Rightarrow> ('x \<Rightarrow> 'v) \<Rightarrow> 'x list \<Rightarrow> ('k \<times> 'v list) list" where
  "group_by keep key val xs = foldl (\<lambda>d x. if keep x then group_add (key x) (val x) d else d) [] xs"

lemma group_by_add_all:
  "group_by keep key val xs = dict.add_all (map (\<lambda>x. (key x, val x)) (filter keep xs)) []"
proof -
  have "foldl (\<lambda>d x. if keep x then group_add (key x) (val x) d else d) d xs
      = dict.add_all (map (\<lambda>x. (key x, val x)) (filter keep xs)) d" for d
    by (induction xs arbitrary: d) (simp_all add: dict.add_all_def)
  then show ?thesis by (simp add: group_by_def)
qed

lemma group_get_by: "group_get (group_by keep key val xs) k = map val (filter (\<lambda>x. keep x \<and> key x = k) xs)"
  unfolding group_by_add_all dict.lookup_grouped by (induction xs) auto

lemma keys_group_by: "map fst (group_by keep key val xs) = dedup (map key (filter keep xs))"
  unfolding group_by_add_all dict.keys_grouped by (simp add: comp_def)

end
