(* ===== verification/Certify.thy ===== *)
theory Certify
  imports Execute Grouping
begin

text \<open>
  Certifications, \<^verbatim>\<open>sev_verify/cli.py\<close>: the run of all tests of a certification, the fold of
  their results into one, and the highest certified level.
\<close>

section \<open>Which result is worse\<close>

text \<open>\<^verbatim>\<open>_RESULT_SEVERITY\<close>; an unknown state ranks above every known one.\<close>

fun result_severity :: "outcome \<Rightarrow> nat" where
  "result_severity Pass = 0"
| "result_severity Skip = 1"
| "result_severity Fail = 2"
| "result_severity Error = 3"
| "result_severity (OtherOutcome _) = 4"

instantiation outcome :: preorder
begin

definition less_eq_outcome :: "outcome \<Rightarrow> outcome \<Rightarrow> bool" where
  "less_eq_outcome a b = (result_severity a \<le> result_severity b)"

definition less_outcome :: "outcome \<Rightarrow> outcome \<Rightarrow> bool" where
  "less_outcome a b = (result_severity a < result_severity b)"

instance by standard (auto simp: less_eq_outcome_def less_outcome_def)

end

definition worse_result :: "outcome \<Rightarrow> outcome \<Rightarrow> outcome" where
  "worse_result current candidate = (if candidate > current then candidate else current)"

text \<open>
  What folding with a "worse of two" does, whatever the order: the fold is one of the elements
  and none is worse.
\<close>

locale worst_fold =
  fixes worse :: "'a :: preorder \<Rightarrow> 'a \<Rightarrow> 'a"
  assumes worse_choice: "worse a b = a \<or> worse a b = b"
    and worse_upper: "a \<le> worse a b" "b \<le> worse a b"
begin

lemma fold_choice: "foldl worse a xs \<in> insert a (set xs)"
proof (induction xs arbitrary: a)
  case (Cons x xs)
  have "foldl worse (worse a x) xs \<in> insert (worse a x) (set xs)" by (rule Cons.IH)
  then show ?case using worse_choice [of a x] by auto
qed simp

lemma fold_upper: "x \<in> insert a (set xs) \<Longrightarrow> x \<le> foldl worse a xs"
proof (induction xs arbitrary: a x)
  case (Cons y ys)
  have "worse a y \<le> foldl worse (worse a y) ys" using Cons.IH [of "worse a y" "worse a y"] by simp
  then show ?case
    using Cons worse_upper order_trans [of _ "worse a y" "foldl worse (worse a y) ys"] by auto
qed simp

end

interpretation worst: worst_fold worse_result
  by unfold_locales (auto simp: worse_result_def less_eq_outcome_def less_outcome_def)

section \<open>Running a certification\<close>

definition section_line :: "string \<Rightarrow> string" where
  "section_line label =
     (let prefix = hbar @ hbar @ '' '' @ label @ '' '' in
      prefix @ times (line_width - len_chars prefix) hbar)"

text \<open>The loop over the tests: the level printed last, the results, the verdict so far.\<close>

fun run_tests ::
  "'e ops \<Rightarrow> 'e modules \<Rightarrow> run_config \<Rightarrow> string \<Rightarrow> string option \<Rightarrow> test_result list \<Rightarrow> outcome
     \<Rightarrow> test_definition list \<Rightarrow> ('e world, test_result list \<times> outcome) io" where
  "run_tests ops mods cfg version current_level results overall [] = iret (results, overall)"
| "run_tests ops mods cfg version current_level results overall (test # tests) =
     iseq (iwhen (Some (test_level test) \<noteq> current_level \<and> test_level test \<noteq> [])
             (flush_line (''   '' @ hbar @ hbar @ '' '' @ test_level test @ '' '' @ hbar @ hbar)))
    (ibind (execute_test ops mods cfg (Some version) test) (\<lambda>tr.
     iseq (flush_line [])
          (run_tests ops mods cfg version (Some (test_level test)) (results @ [tr])
             (worse_result overall (tr_result tr)) tests)))"

definition count_passed :: "test_result list \<Rightarrow> nat" where
  "count_passed trs = length (filter (\<lambda>t. tr_result t = Pass) trs)"

definition execute_certification ::
  "'e ops \<Rightarrow> 'e modules \<Rightarrow> run_config \<Rightarrow> certification \<Rightarrow> ('e world, certification_result) io" where
  "execute_certification ops mods cfg cert =
     ibind (ext (op_utcnow ops)) (\<lambda>started.
     iseq (flush_line (section_line (''Certification '' @ cert_version cert)))
    (iseq (flush_line (''   '' @ cert_description cert))
    (iseq (iwhen (given (cert_max_level cert))
             (flush_line (''   Max certification level: '' @ the (cert_max_level cert))))
    (iseq (flush_line [])
    (ibind (run_tests ops mods cfg (cert_version cert) None [] Pass (cert_tests cert))
       (\<lambda>(results, overall).
     iseq (flush_line (padded (''   Certification '' @ cert_version cert @ '':'')
             ('' '' @ nat_str 10 (count_passed results) @ ''/'' @ nat_str 10 (length results)
              @ '' passed ['' @ result_label overall @ '']'')))
    (iseq (flush_line [])
    (ibind (ext (op_utcnow ops)) (\<lambda>completed.
       iret \<lparr>cr_certification = cert, cr_result = overall, cr_test_results = results,
             cr_started_at = Some started, cr_completed_at = Some completed\<rparr>)))))))))"

section \<open>The highest certified level\<close>

definition results_by_level :: "certification_result \<Rightarrow> (string \<times> outcome list) list" where
  "results_by_level cr =
     group_by (\<lambda>tr. test_level (tr_test tr) \<noteq> []) (\<lambda>tr. test_level (tr_test tr)) tr_result
       (cr_test_results cr)"

fun level_chain :: "(string \<times> outcome list) list \<Rightarrow> string option \<Rightarrow> string list \<Rightarrow> string option" where
  "level_chain by_level highest [] = highest"
| "level_chain by_level highest (level # levels) =
     (let level_results = group_get by_level level in
      if level_results = [] then highest
      else if list_ex (\<lambda>r. r \<noteq> Pass) level_results then highest
      else level_chain by_level (Some level) levels)"

text \<open>\<^verbatim>\<open>xs.index(x)\<close>\<close>

fun list_index :: "string list \<Rightarrow> string \<Rightarrow> exc + nat" where
  "list_index [] x = raise ValueError (repr_str x @ '' is not in list'')"
| "list_index (y # ys) x =
     (if y = x then Inr 0 else rbind (list_index ys x) (\<lambda>n. Inr (Suc n)))"

definition highest_certified_level :: "certification_result \<Rightarrow> exc + string option" where
  "highest_certified_level cr =
     (let all_levels = cert_all_levels (cr_certification cr);
          highest = level_chain (results_by_level cr) None all_levels in
      case (highest, cert_max_level (cr_certification cr)) of
        (Some h, Some cap) \<Rightarrow>
          rbind (list_index all_levels cap) (\<lambda>i.
          rbind (list_index all_levels h) (\<lambda>j.
            Inr (if i < j then Some cap else highest)))
      | _ \<Rightarrow> Inr highest)"

section \<open>Properties: the run\<close>

lemma run_tests_Inr:
  assumes "run_tests ops mods cfg v lvl results overall tests w = (Inr (rs, o'), w')"
  shows "\<exists>new. rs = results @ new \<and> o' = foldl worse_result overall (map tr_result new) \<and>
    list_all2 (\<lambda>t tr. \<exists>w1 w2. execute_test ops mods cfg (Some v) t w1 = (Inr tr, w2)) tests new"
  using assms
proof (induction tests arbitrary: lvl results overall w)
  case Nil
  then show ?case by simp
next
  case (Cons t ts)
  from Cons.prems obtain w1 tr w2 w3 where
    t: "execute_test ops mods cfg (Some v) t w1 = (Inr tr, w2)"
    and more: "run_tests ops mods cfg v (Some (test_level t)) (results @ [tr])
        (worse_result overall (tr_result tr)) ts w3 = (Inr (rs, o'), w')"
    by (auto simp: iseq_def ibind_eq_Inr)
  from Cons.IH [OF more] obtain new where "rs = (results @ [tr]) @ new"
    "o' = foldl worse_result (worse_result overall (tr_result tr)) (map tr_result new)"
    "list_all2 (\<lambda>t tr. \<exists>w1 w2. execute_test ops mods cfg (Some v) t w1 = (Inr tr, w2)) ts new"
    by blast
  then show ?case using t by (intro exI [of _ "tr # new"]) auto
qed

lemma execute_test_test:
  "execute_test ops mods cfg v test w = (Inr tr, w') \<Longrightarrow> tr_test tr = test"
proof -
  assume run: "execute_test ops mods cfg v test w = (Inr tr, w')"
  obtain r w1 where l: "load_test_execution_plan mods test (loading_world ops test w) = (r, w1)"
    by (cases "load_test_execution_plan mods test (loading_world ops test w)")
  show ?thesis
  proof (cases r)
    case (Inl e)
    then show ?thesis using execute_test_unloaded [OF run] l by simp
  next
    case (Inr plan)
    then show ?thesis using execute_test_Inr [OF run] l by (cases plan) simp
  qed
qed

lemma severity_pass: "(a :: outcome) \<le> Pass \<longleftrightarrow> a = Pass"
  by (cases a) (simp_all add: less_eq_outcome_def)

text \<open>What a certification that returns has done.\<close>

lemma execute_certification_Inr:
  assumes "execute_certification ops mods cfg cert w = (Inr cr, w')"
  shows "cr_certification cr = cert" "map tr_test (cr_test_results cr) = cert_tests cert"
    "cr_result cr = foldl worse_result Pass (map tr_result (cr_test_results cr))"
    "list_all2 (\<lambda>t tr. \<exists>w1 w2. execute_test ops mods cfg (Some (cert_version cert)) t w1 = (Inr tr, w2))
       (cert_tests cert) (cr_test_results cr)"
proof -
  from assms obtain w1 w2 where c: "cr_certification cr = cert" and
    "run_tests ops mods cfg (cert_version cert) None [] Pass (cert_tests cert) w1
       = (Inr (cr_test_results cr, cr_result cr), w2)"
    by (auto simp: execute_certification_def iseq_def ibind_eq_Inr)
  from run_tests_Inr [OF this(2)] have
    o: "cr_result cr = foldl worse_result Pass (map tr_result (cr_test_results cr))"
    and all: "list_all2 (\<lambda>t tr. \<exists>w1 w2. execute_test ops mods cfg (Some (cert_version cert)) t w1 = (Inr tr, w2))
        (cert_tests cert) (cr_test_results cr)" by auto
  from all have "map tr_test (cr_test_results cr) = cert_tests cert"
    by (induction rule: list_all2_induct) (auto dest: execute_test_test)
  with c o all show "cr_certification cr = cert" "map tr_test (cr_test_results cr) = cert_tests cert"
    "cr_result cr = foldl worse_result Pass (map tr_result (cr_test_results cr))"
    "list_all2 (\<lambda>t tr. \<exists>w1 w2. execute_test ops mods cfg (Some (cert_version cert)) t w1 = (Inr tr, w2))
       (cert_tests cert) (cr_test_results cr)" by blast+
qed

lemma worst_is_pass: "foldl worse_result Pass rs = Pass \<longleftrightarrow> (\<forall>r \<in> set rs. r = Pass)"
  using worst.fold_choice [of Pass rs] worst.fold_upper [of _ Pass rs] severity_pass by force

text \<open>
  C25: a certification runs its tests in order, one result each; its result is the worst of
  theirs: one of them (or a pass when there are none), and none is worse. It passes exactly
  when every test passes.
\<close>

theorem certification_result_is_worst:
  assumes "execute_certification ops mods cfg cert w = (Inr cr, w')"
  shows "map tr_test (cr_test_results cr) = cert_tests cert \<and>
    cr_result cr \<in> insert Pass (tr_result ` set (cr_test_results cr)) \<and>
    (\<forall>tr \<in> set (cr_test_results cr). tr_result tr \<le> cr_result cr) \<and>
    (cr_result cr = Pass) = (\<forall>tr \<in> set (cr_test_results cr). tr_result tr = Pass)"
proof -
  note runs = execute_certification_Inr [OF assms]
  have "cr_result cr \<in> insert Pass (tr_result ` set (cr_test_results cr))"
    "\<forall>tr \<in> set (cr_test_results cr). tr_result tr \<le> cr_result cr"
    using worst.fold_choice [of Pass "map tr_result (cr_test_results cr)"]
      worst.fold_upper [of _ Pass "map tr_result (cr_test_results cr)"] runs(3) by auto
  moreover have "(cr_result cr = Pass) = (\<forall>tr \<in> set (cr_test_results cr). tr_result tr = Pass)"
    unfolding runs(3) worst_is_pass by simp
  ultimately show ?thesis using runs(2) by blast
qed

section \<open>Properties: the level\<close>

text \<open>The levels all of whose tests ran and passed, up to the first that is not so.\<close>

definition level_passed :: "certification_result \<Rightarrow> string \<Rightarrow> bool" where
  "level_passed cr level \<longleftrightarrow>
     level \<noteq> [] \<and> (\<exists>tr \<in> set (cr_test_results cr). test_level (tr_test tr) = level) \<and>
     (\<forall>tr \<in> set (cr_test_results cr). test_level (tr_test tr) = level \<longrightarrow> tr_result tr = Pass)"

definition achieved :: "certification_result \<Rightarrow> string list" where
  "achieved cr = takeWhile (level_passed cr) (cert_all_levels (cr_certification cr))"

lemma level_results:
  "group_get (results_by_level cr) level =
     (if level = [] then []
      else map tr_result (filter (\<lambda>tr. test_level (tr_test tr) = level) (cr_test_results cr)))"
proof (cases "level = []")
  case False
  have "filter (\<lambda>tr. test_level (tr_test tr) \<noteq> [] \<and> test_level (tr_test tr) = level) xs
      = filter (\<lambda>tr. test_level (tr_test tr) = level) xs" for xs :: "test_result list"
    using False by (induction xs) auto
  then show ?thesis using False by (simp add: results_by_level_def group_get_by)
qed (simp add: results_by_level_def group_get_by)

lemma level_passed_group:
  "level_passed cr level \<longleftrightarrow>
     group_get (results_by_level cr) level \<noteq> [] \<and>
     \<not> list_ex (\<lambda>r. r \<noteq> Pass) (group_get (results_by_level cr) level)"
  by (auto simp: level_passed_def level_results list_ex_iff filter_empty_conv)

lemma level_chain_last:
  "level_chain (results_by_level cr) h levels =
     (let ok = takeWhile (level_passed cr) levels in if ok = [] then h else Some (last ok))"
proof (induction levels arbitrary: h)
  case (Cons level levels)
  then show ?case
    by (cases "level_passed cr level") (auto simp: Let_def level_passed_group)
qed simp

lemma list_index_Inr: "x \<in> set xs \<Longrightarrow> \<exists>n. list_index xs x = Inr n \<and> n < length xs \<and> xs ! n = x"
proof (induction xs)
  case (Cons y ys)
  then show ?case by (cases "y = x") auto
qed simp

lemma list_index_nth: "distinct xs \<Longrightarrow> i < length xs \<Longrightarrow> list_index xs (xs ! i) = Inr i"
  by (induction xs arbitrary: i) (auto simp: nth_Cons split: nat.splits)

text \<open>
  C2: the certified level never exceeds what was shown: over the manifest's distinct levels, with
  a cap that is one of them, the answer is the last level of the longest run of levels from the
  first on, each of which was tested and passed every test, lowered to the cap when it lies
  beyond it; nothing is raised, and there is no answer exactly when the first level did not
  pass.
\<close>

theorem certified_level_exact:
  assumes "distinct (cert_all_levels (cr_certification cr))"
    and "\<forall>cap \<in> set_option (cert_max_level (cr_certification cr)).
           cap \<in> set (cert_all_levels (cr_certification cr)) \<or> achieved cr = []"
  shows "highest_certified_level cr = Inr
    (if achieved cr = [] then None
     else case cert_max_level (cr_certification cr) of
        None \<Rightarrow> Some (last (achieved cr))
      | Some cap \<Rightarrow> Some (if cap \<in> set (achieved cr) then cap else last (achieved cr)))"
proof -
  let ?L = "cert_all_levels (cr_certification cr)" and ?A = "achieved cr"
  have h: "level_chain (results_by_level cr) None ?L = (if ?A = [] then None else Some (last ?A))"
    by (simp add: level_chain_last achieved_def Let_def)
  show ?thesis
  proof (cases "?A = []")
    case True
    then show ?thesis using h by (simp add: highest_certified_level_def Let_def)
  next
    case False
    show ?thesis
    proof (cases "cert_max_level (cr_certification cr)")
      case None
      then show ?thesis using h False by (simp add: highest_certified_level_def Let_def)
    next
      case (Some cap)
      with assms(2) False have "cap \<in> set ?L" by simp
      then obtain i where i: "list_index ?L cap = Inr i" "i < length ?L" "?L ! i = cap"
        using list_index_Inr by blast
      have len: "length ?A \<le> length ?L" unfolding achieved_def by (rule length_takeWhile_le)
      have pre: "k < length ?A \<Longrightarrow> ?A ! k = ?L ! k" for k
        unfolding achieved_def by (rule takeWhile_nth)
      let ?j = "length ?A - 1"
      have j: "?j < length ?A" using False by simp
      have "last ?A = ?L ! ?j" using False pre [OF j] by (simp add: last_conv_nth)
      moreover have "list_index ?L (?L ! ?j) = Inr ?j"
        using list_index_nth [OF assms(1)] j len by simp
      moreover have "cap \<in> set ?A \<longleftrightarrow> i \<le> ?j"
      proof
        assume "cap \<in> set ?A"
        then obtain k where k: "k < length ?A" "?A ! k = cap" by (auto simp: in_set_conv_nth)
        then have "?L ! k = ?L ! i" using pre i(3) by simp
        then have "k = i" using nth_eq_iff_index_eq [OF assms(1)] k len i(2) by simp
        then show "i \<le> ?j" using k by simp
      next
        assume "i \<le> ?j"
        then have "i < length ?A" using j by simp
        then show "cap \<in> set ?A" using pre i(3) by (metis nth_mem)
      qed
      moreover have "?L ! ?j = cap" if "i = ?j" using that i(3) by simp
      ultimately show ?thesis using h False Some i
        by (auto simp: highest_certified_level_def Let_def)
    qed
  qed
qed

section \<open>Concrete instances\<close>

definition demo_cert :: certification where
  "demo_cert = \<lparr>cert_version = ''3.0'', cert_description = ''d'', cert_tests = [demo_test],
                 cert_all_levels = [], cert_max_level = None\<rparr>"

lemma execute_certification_returns:
  assumes utc: "\<And>w. \<exists>t. ext (op_utcnow ops) w = (Inr t, w)"
    and run: "\<And>w. w_files w = w_files w0 \<Longrightarrow> \<exists>rs o' w'. run_tests ops mods cfg (cert_version cert)
        None [] Pass (cert_tests cert) w = (Inr (rs, o'), w')"
  shows "\<exists>cr w'. execute_certification ops mods cfg cert w0 = (Inr cr, w')"
proof -
  obtain t0 where t0: "ext (op_utcnow ops) w0 = (Inr t0, w0)" using utc by blast
  obtain w1 where w1: "flush_line (section_line (''Certification '' @ cert_version cert)) w0 = (Inr (), w1)"
    "w_files w1 = w_files w0" by (simp add: flush_run)
  obtain w2 where w2: "flush_line (''   '' @ cert_description cert) w1 = (Inr (), w2)" "w_files w2 = w_files w0"
    using w1(2) by (simp add: flush_run)
  obtain w3 where w3: "iwhen (given (cert_max_level cert))
      (flush_line (''   Max certification level: '' @ the (cert_max_level cert))) w2 = (Inr (), w3)"
    "w_files w3 = w_files w0"
    using w2(2) by (cases "given (cert_max_level cert)") (simp_all add: iwhen_def flush_run)
  obtain w4 where w4: "flush_line [] w3 = (Inr (), w4)" "w_files w4 = w_files w0"
    using w3(2) by (simp add: flush_run)
  obtain rs o' w5 where w5: "run_tests ops mods cfg (cert_version cert) None [] Pass (cert_tests cert) w4
      = (Inr (rs, o'), w5)" using run [OF w4(2)] by blast
  obtain w6 where w6: "flush_line (padded (''   Certification '' @ cert_version cert @ '':'')
      ('' '' @ nat_str 10 (count_passed rs) @ ''/'' @ nat_str 10 (length rs)
        @ '' passed ['' @ result_label o' @ '']'')) w5 = (Inr (), w6)"
    by (simp only: flush_run)
  obtain w7 where w7: "flush_line [] w6 = (Inr (), w7)" by (simp only: flush_run)
  obtain t7 where t7: "ext (op_utcnow ops) w7 = (Inr t7, w7)" using utc by blast
  show ?thesis
    unfolding execute_certification_def iseq_def
    by (simp only: ibind_def t0 w1(1) w2(1) w3(1) w4(1) w5 w6 w7 t7 iret_def prod.case sum.case) simp
qed

theorem certification_result_is_worst_witness:
  "\<exists>cr w'. execute_certification idle_ops (\<lambda>_. Inr demo_mod) demo_config demo_cert (empty_world ())
       = (Inr cr, w') \<and> map tr_test (cr_test_results cr) = [demo_test]"
proof -
  have utc: "\<exists>t. ext (op_utcnow idle_ops) w = (Inr t, w)" for w :: "unit world"
    by (simp add: idle_ops_def ext_def)
  have "\<exists>rs o' w'. run_tests idle_ops (\<lambda>_. Inr demo_mod) demo_config (cert_version demo_cert)
      None [] Pass (cert_tests demo_cert) w = (Inr (rs, o'), w')"
    if "w_files w = w_files (empty_world ())" for w
  proof -
    from that have "w_files w = (\<lambda>_. None)" by (simp add: empty_world_def)
    then obtain tr w' where "execute_test idle_ops (\<lambda>_. Inr demo_mod) demo_config (Some ''3.0'') demo_test w
        = (Inr tr, w')" using demo_runs by blast
    then show ?thesis
      by (simp add: demo_cert_def demo_test_def iwhen_def iseq_def ibind_def flush_run)
  qed
  from execute_certification_returns [OF utc this] obtain cr w' where
    c: "execute_certification idle_ops (\<lambda>_. Inr demo_mod) demo_config demo_cert (empty_world ()) = (Inr cr, w')"
    by blast
  from certification_result_is_worst [OF c] have "map tr_test (cr_test_results cr) = [demo_test]"
    by (simp add: demo_cert_def)
  with c show ?thesis by (intro exI conjI)
qed

definition level_result :: "string \<Rightarrow> outcome \<Rightarrow> test_result" where
  "level_result level r =
     \<lparr>tr_test = demo_test\<lparr>test_level := level\<rparr>, tr_result = r, tr_step_results = [],
      tr_started_at = None, tr_completed_at = None\<rparr>"

definition capped_result :: certification_result where
  "capped_result =
     \<lparr>cr_certification = demo_cert\<lparr>cert_all_levels := [''3.0.0-0'', ''3.0.0-1'', ''3.0.0-2''],
        cert_max_level := Some ''3.0.0-0''\<rparr>,
      cr_result = Fail,
      cr_test_results = [level_result ''3.0.0-0'' Pass, level_result ''3.0.0-1'' Pass,
        level_result ''3.0.0-1'' Pass, level_result ''3.0.0-2'' Fail],
      cr_started_at = None, cr_completed_at = None\<rparr>"

theorem certified_level_exact_witness:
  "highest_certified_level capped_result = Inr (Some ''3.0.0-0'') \<and>
   achieved capped_result = [''3.0.0-0'', ''3.0.0-1'']"
proof -
  have a: "achieved capped_result = [''3.0.0-0'', ''3.0.0-1'']"
    by (simp add: achieved_def level_passed_def capped_result_def level_result_def demo_test_def)
  have d: "distinct (cert_all_levels (cr_certification capped_result))"
    by (simp add: capped_result_def)
  have m: "\<forall>cap \<in> set_option (cert_max_level (cr_certification capped_result)).
      cap \<in> set (cert_all_levels (cr_certification capped_result)) \<or> achieved capped_result = []"
    by (simp add: capped_result_def)
  have "cert_max_level (cr_certification capped_result) = Some ''3.0.0-0''"
    by (simp add: capped_result_def)
  with certified_level_exact [OF d m] a show ?thesis by simp
qed

end
