(* ===== verification/Lifecycle.thy ===== *)
theory Lifecycle
  imports Certify
begin

text \<open>
  The life of the guest of a test: who owns the QEMU process between \<^verbatim>\<open>vm_launch\<close> and
  \<^verbatim>\<open>stop_vm\<close>. The processes that run are a fact about the machine outside the repository: a
  function \<open>R\<close> of its state gives those started through \<^verbatim>\<open>subprocess.Popen\<close> that have not ended.
  \<open>tracks\<close> states what the operating system promises about them, \<open>foreign\<close> that the libraries
  raise none of the repository's own launch errors.
\<close>

section \<open>What the machine promises\<close>

definition shrinks :: "('e \<Rightarrow> int set) \<Rightarrow> ('e world, 'a) io \<Rightarrow> bool" where
  "shrinks R m \<longleftrightarrow> (\<forall>w. R (w_ext (snd (m w))) \<subseteq> R (w_ext w))"

text \<open>
  Only \<^verbatim>\<open>Popen\<close> starts a process, the one it returns; a process whose \<^verbatim>\<open>wait\<close> returned or whose
  \<^verbatim>\<open>poll\<close> gave an exit code has ended.
\<close>

definition tracks :: "('e \<Rightarrow> int set) \<Rightarrow> 'e ops \<Rightarrow> bool" where
  "tracks R ops \<longleftrightarrow>
     (\<forall>a b c. shrinks R (op_run ops a b c)) \<and> (\<forall>i. shrinks R (op_poll ops i)) \<and>
     (\<forall>i. shrinks R (op_terminate ops i)) \<and> (\<forall>i. shrinks R (op_kill ops i)) \<and>
     (\<forall>i j. shrinks R (op_wait ops i j)) \<and> (\<forall>i j. shrinks R (op_os_kill ops i j)) \<and>
     (\<forall>i j k. shrinks R (op_connect ops i j k)) \<and> (\<forall>n b. shrinks R (op_sendall ops n b)) \<and>
     (\<forall>n. shrinks R (op_recv ops n)) \<and> (\<forall>n. shrinks R (op_close ops n)) \<and>
     shrinks R (op_uuid4 ops) \<and> shrinks R (op_utcnow ops) \<and> (\<forall>t. shrinks R (op_sleep ops t)) \<and>
     (\<forall>a p w r w'. op_popen ops a p w = (r, w') \<longrightarrow>
        R (w_ext w') \<subseteq> R (w_ext w) \<union> (case r of Inr i \<Rightarrow> {i} | Inl _ \<Rightarrow> {})) \<and>
     (\<forall>i t w u w'. op_wait ops i t w = (Inr u, w') \<longrightarrow> i \<notin> R (w_ext w')) \<and>
     (\<forall>i w c w'. op_poll ops i w = (Inr (Some c), w') \<longrightarrow> i \<notin> R (w_ext w'))"

text \<open>\<^verbatim>\<open>VMProfileError\<close> is a class of this repository: only its own code raises it.\<close>

definition foreign :: "'e ops \<Rightarrow> bool" where
  "foreign ops \<longleftrightarrow>
     (\<forall>i. never VMProfileError (op_poll ops i)) \<and>
     (\<forall>i j k. never VMProfileError (op_connect ops i j k)) \<and>
     (\<forall>n b. never VMProfileError (op_sendall ops n b)) \<and>
     (\<forall>n. never VMProfileError (op_recv ops n)) \<and> (\<forall>n. never VMProfileError (op_close ops n)) \<and>
     never VMProfileError (op_uuid4 ops) \<and> (\<forall>t. never VMProfileError (op_sleep ops t)) \<and>
     (\<forall>t e. op_float_int ops t = Inl e \<longrightarrow> \<not> is_a e VMProfileError)"

text \<open>The code of a test module stops the guests it starts itself.\<close>

definition tidy_handlers :: "('e \<Rightarrow> int set) \<Rightarrow> 'e test_mod \<Rightarrow> bool" where
  "tidy_handlers R m \<longleftrightarrow>
     (\<forall>name fn. map_of (tm_attrs m) name = Some (Fn fn) \<longrightarrow>
        (\<forall>c w. R (w_ext (snd (snd (fn (c, w))))) \<subseteq> R (w_ext w))) \<and>
     shrinks R (tm_steps m) \<and> shrinks R (tm_vm_profile m)"

definition running_in :: "('e \<Rightarrow> int set) \<Rightarrow> int set \<Rightarrow> 'e world \<Rightarrow> bool" where
  "running_in R S w \<longleftrightarrow> R (w_ext w) \<subseteq> S"

lemma shrinks_keeps: "shrinks R m \<Longrightarrow> keeps (running_in R S) (ext m)"
  unfolding shrinks_def keeps_def running_in_def ext_def
  by (auto split: prod.splits) (metis snd_conv subset_iff)

lemma shrinks_sleep: "shrinks R (op_sleep ops t) \<Longrightarrow> keeps (running_in R S) (sleep ops t)"
  unfolding shrinks_def keeps_def running_in_def sleep_def
  by (auto split: prod.splits) (metis snd_conv subset_iff)

lemma tracks_quiet: "tracks R ops \<Longrightarrow> quiet_world (running_in R S) ops"
  by unfold_locales (auto simp: tracks_def shrinks_keeps shrinks_sleep, auto simp: running_in_def)

lemma tracks_popen:
  assumes "tracks R ops" "ext (op_popen ops a p) w = (r, w')"
  shows "R (w_ext w') \<subseteq> R (w_ext w) \<union> (case r of Inr i \<Rightarrow> {i} | Inl _ \<Rightarrow> {})"
proof -
  obtain w1 where p: "op_popen ops a p w = (r, w1)" "w' = w1\<lparr>w_clock := max (w_clock w) (w_clock w1)\<rparr>"
    using assms(2) by (auto simp: ext_def split: prod.splits)
  then show ?thesis using assms(1) unfolding tracks_def by simp
qed

lemma tracks_wait:
  "tracks R ops \<Longrightarrow> ext (op_wait ops i t) w = (Inr u, w') \<Longrightarrow> i \<notin> R (w_ext w')"
  unfolding tracks_def ext_def by (auto split: prod.splits)

lemma tracks_poll:
  "tracks R ops \<Longrightarrow> ext (op_poll ops i) w = (Inr (Some c), w') \<Longrightarrow> i \<notin> R (w_ext w')"
  unfolding tracks_def ext_def by (auto split: prod.splits)

section \<open>The executors start no process\<close>

context quiet_world
begin

lemma keeps_run_step: "keeps I (run_step ops step g a)"
  unfolding run_step_def Let_def error_now_def by (intro inv_intro inv_elapsed)

lemma keeps_guest_step: "keeps I (run_guest_step ops step p)"
  unfolding run_guest_step_def error_now_def by (intro inv_intro keeps_run_guest_command)

lemma keeps_guest_pull_step: "keeps I (run_guest_pull_step ops step p a)"
  unfolding run_guest_pull_step_def Let_def error_now_def by (intro inv_intro keeps_pull)

lemma keeps_journal: "keeps I (fetch_guest_journal ops p t)"
  unfolding fetch_guest_journal_def by (intro keeps_run_guest_command)

lemma keeps_log_step: "keeps I (log_step ops lg step sr c g j pid)"
  unfolding log_step_def log_context_def set_guest_context_def write_qemu_command_log_def
    write_guest_journal_log_def append_entry_def Let_def
  by (intro inv_intro)

end

section \<open>No library call raises a launch error\<close>

lemma never_ext [never_intro]: "never c m \<Longrightarrow> never c (ext m)"
  unfolding never_def ext_def by (auto split: prod.splits)

lemma never_sleep: "never c (op_sleep ops t) \<Longrightarrow> never c (sleep ops t)"
  unfolding never_def sleep_def by (auto split: prod.splits)

lemma never_now [never_intro]: "never c now" "never c (elapsed_ms t)"
  by (simp_all add: now_def elapsed_ms_def never_pure)

lemma never_read [never_intro]:
  "\<not> is_a (Exc OSError []) c \<Longrightarrow> \<not> is_a (Exc FileNotFoundError []) c \<Longrightarrow> never c (read_bytes p)"
  by (auto simp: never_def read_bytes_def is_a_def split: option.splits if_splits)

lemma not_profile_error:
  assumes "class_of e \<in> {GuestVsockError, UnicodeDecodeError, JSONDecodeError, ValueError, TypeError,
    AttributeError, OSError, FileNotFoundError}"
  shows "\<not> is_a e VMProfileError"
  using assms by (auto simp: is_a_def)

lemma recv_loop_never:
  "never c (recv_part ops sock) \<Longrightarrow> \<not> is_a (Exc GuestVsockError []) c \<Longrightarrow>
   never c (recv_loop ops sock m chunks got)"
proof -
  assume r: "never c (recv_part ops sock)" and v: "\<not> is_a (Exc GuestVsockError []) c"
  have "fst (recv_loop ops sock m chunks got w) = Inl e \<Longrightarrow> \<not> is_a e c" for w e
    using r v
  proof (induction ops sock m chunks got w rule: recv_loop.induct)
    case (1 ops sock m chunks got w)
    obtain q w' where q: "recv_part ops sock w = (q, w')" by (cases "recv_part ops sock w")
    show ?case
    proof (cases q)
      case (Inl e')
      then show ?thesis using 1(2) q neverD [OF 1(3), of w e' w']
        by (simp add: recv_loop.simps [of ops sock m chunks got w])
    next
      case (Inr part)
      then show ?thesis using 1(1) [OF q [symmetric] Inr] 1(2,3,4) q
        by (auto simp: recv_loop.simps [of ops sock m chunks got w] is_a_def split: if_splits)
    qed
  qed
  then show ?thesis unfolding never_def by (metis fst_conv)
qed

lemma never_request:
  assumes "foreign ops"
  shows "never VMProfileError (vsock_request ops p payload t)"
proof -
  have o: "never VMProfileError (op_connect ops i j k)" "never VMProfileError (op_sendall ops n b)"
    "never VMProfileError (op_recv ops n)" "never VMProfileError (op_close ops n)" for i j k n b
    using assms by (simp_all add: foreign_def)
  have part: "never VMProfileError (recv_part ops s)" for s
    unfolding recv_part_def by (intro never_intro o not_profile_error) simp
  have dec: "\<not> is_a e VMProfileError" if "rbind (decode_strict bs) (\<lambda>tx.
      catch JSONDecodeError (loads tx) (\<lambda>_. raise GuestVsockError msg)) = Inl e" for bs e msg
  proof -
    have "catch JSONDecodeError (loads tx) (\<lambda>_. raise GuestVsockError msg) = Inl e \<Longrightarrow>
        class_of e = GuestVsockError" for tx
      using loads_error [of tx] by (cases "loads tx") (auto simp: catch_def is_a_def)
    then show ?thesis using that decode_strict_error [of bs]
      by (intro not_profile_error) (auto simp: rbind_eq_Inl)
  qed
  have loop: "never VMProfileError (recv_loop ops s m cs g)" for s m cs g
    by (rule recv_loop_never [OF part]) (simp add: is_a_def)
  have read: "never VMProfileError (read_response ops s m)" for s m
    unfolding read_response_def
    by (intro never_intro loop) (auto simp: is_a_def dest: dec [unfolded is_a_def])
  show ?thesis unfolding vsock_request_def vsock_connect_def send_request_def
    by (intro never_intro o read not_profile_error) simp
qed

lemma never_ping:
  assumes "foreign ops"
  shows "never VMProfileError (ping_guest ops p)"
proof -
  have int: "json_int (op_float_int ops) v = Inl e \<Longrightarrow> \<not> is_a e VMProfileError" for v e
    using assms
    by (cases v) (auto simp: foreign_def is_a_def split: option.splits)
  have "parse_command_response ops c v d = Inl e \<Longrightarrow> \<not> is_a e VMProfileError" for c v d e
    by (cases v) (auto simp: rbind_eq_Inl is_a_def dest: int split: option.splits if_splits)
  then show ?thesis unfolding ping_guest_def
    by (intro never_intro never_request assms) auto
qed

lemma never_after_failed_ping:
  assumes "foreign ops"
  shows "never VMProfileError (after_failed_ping ops process)"
proof -
  have o: "never VMProfileError (op_poll ops i)" "never VMProfileError (op_sleep ops t)" for i t
    using assms by (simp_all add: foreign_def)
  show ?thesis unfolding after_failed_ping_def poll_process_def
    by (intro never_intro o never_sleep not_profile_error) simp
qed

lemma never_check_guest_ready:
  assumes "foreign ops"
  shows "never VMProfileError (check_guest_ready ops p timeout process)"
proof -
  have "fst (wait_loop ops p bt deadline process err w) = Inl e \<Longrightarrow> \<not> is_a e VMProfileError"
    for bt deadline err w e
    using assms
  proof (induction ops p bt deadline process err w rule: wait_loop.induct)
    case (1 ops p bt deadline process err w)
    obtain r w1 where p1: "ping_guest ops p w = (r, w1)" by (cases "ping_guest ops p w")
    obtain q w2 where p2: "after_failed_ping ops process w1 = (q, w2)"
      by (cases "after_failed_ping ops process w1")
    show ?case
      using 1(1) [OF _ p1 [symmetric] _ _ p2 [symmetric]] 1(2) p1 p2
        neverD [OF never_ping [OF 1(3)], of p w _ w1]
        neverD [OF never_after_failed_ping [OF 1(3)], of process w1 _ w2] 1(3)
      by (auto simp: wait_loop.simps [of ops p bt deadline process err w] is_a_def
          split: if_splits sum.splits)
  qed
  then have "never VMProfileError (wait_for_guest ops p timeout process)"
    unfolding never_def wait_for_guest_def Let_def by (metis fst_conv)
  then show ?thesis unfolding check_guest_ready_def by (intro never_intro)
qed

lemma never_boot_failure:
  assumes "foreign ops"
  shows "never VMProfileError (boot_failure ops p proc e)"
proof -
  have o: "never VMProfileError (op_poll ops i)" for i using assms by (simp add: foreign_def)
  show ?thesis unfolding boot_failure_def read_guest_errors_def Let_def
    by (intro never_intro o not_profile_error) simp_all
qed

section \<open>A launch either hands over its process or leaves none\<close>

text \<open>What follows once QEMU runs: it keeps its process and raises no launch error of its own.\<close>

definition launched ::
  "'e ops \<Rightarrow> vm_profile \<Rightarrow> string list \<Rightarrow> int \<Rightarrow> ('e world, launch_result) io" where
  "launched ops p command proc =
     ibind (check_guest_ready ops p None (Some proc)) (\<lambda>(booted, boot_error).
     ibind (if booted then iret ''VM launched and guest booted''
            else boot_failure ops p proc boot_error) (\<lambda>message.
     ibind (if given (vp_guest_id p) then iret (the (vp_guest_id p)) else ext (op_uuid4 ops))
       (\<lambda>gid.
       iret \<lparr>lr_pid = proc, lr_command = command, lr_profile = p, lr_ok = booted,
             lr_message = message, lr_guest_id = gid, lr_process = Some proc\<rparr>)))"

lemma vm_launch_unfold:
  "vm_launch ops p =
     iseq (iask (vp_validate p))
    (ibind (iask (build_qemu_command p)) (\<lambda>command.
     iseq (prepare_logs p)
    (ibind (ext (op_popen ops command (path_of (vp_guest_error_log p)))) (\<lambda>proc.
     iseq (sleep ops 2000000)
    (ibind (ext (op_poll ops proc)) (\<lambda>status.
       case status of Some code \<Rightarrow> launch_exited p code | None \<Rightarrow> launched ops p command proc))))))"
  unfolding vm_launch_def launched_def by (rule refl)

lemma launched_never:
  assumes "foreign ops"
  shows "never VMProfileError (launched ops p command proc)"
proof -
  have o: "never VMProfileError (op_uuid4 ops)" using assms by (simp add: foreign_def)
  show ?thesis unfolding launched_def
    by (intro never_intro o never_check_guest_ready never_boot_failure assms)
qed

lemma launched_keeps: "quiet_world I ops \<Longrightarrow> keeps I (launched ops p command proc)"
  unfolding launched_def
  by (intro keeps_intro quiet_world.keeps_check_guest_ready quiet_world.keeps_boot_failure
      quiet_world.inv_uuid4)

text \<open>\<open>ends P m Q E\<close>: from \<open>P\<close>, \<open>m\<close> returns with \<open>Q\<close> or raises with \<open>E\<close>.\<close>

definition ends ::
  "('s \<Rightarrow> bool) \<Rightarrow> ('s, 'a) io \<Rightarrow> ('a \<Rightarrow> 's \<Rightarrow> bool) \<Rightarrow> (exc \<Rightarrow> 's \<Rightarrow> bool) \<Rightarrow> bool" where
  "ends P m Q E \<longleftrightarrow> (\<forall>s. P s \<longrightarrow> (case m s of (Inr x, s') \<Rightarrow> Q x s' | (Inl e, s') \<Rightarrow> E e s'))"

lemma endsD: "ends P m Q E \<Longrightarrow> P s \<Longrightarrow> m s = (r, s') \<Longrightarrow>
    (case r of Inr x \<Rightarrow> Q x s' | Inl e \<Rightarrow> E e s')"
  unfolding ends_def by (auto split: sum.splits)

lemma ends_ibind:
  assumes "ends P m M E" "\<And>x. ends (M x) (f x) Q E"
  shows "ends P (ibind m f) Q E"
  unfolding ends_def
proof (intro allI impI)
  fix s assume P: "P s"
  obtain r s1 where m: "m s = (r, s1)" by (cases "m s")
  show "case ibind m f s of (Inr x, s') \<Rightarrow> Q x s' | (Inl e, s') \<Rightarrow> E e s'"
  proof (cases r)
    case (Inl e)
    then show ?thesis using endsD [OF assms(1) P m] m by (simp add: ibind_def)
  next
    case (Inr x)
    then have M: "M x s1" using endsD [OF assms(1) P m] by simp
    show ?thesis using assms(2) [of x, unfolded ends_def, rule_format, OF M] m Inr
      by (simp add: ibind_def)
  qed
qed

lemma ends_any: "ends P m Q E \<Longrightarrow> ends P m Q (\<lambda>_ _. True)"
  unfolding ends_def
proof (intro allI impI)
  fix s assume e: "\<forall>s. P s \<longrightarrow> (case m s of (Inr x, s') \<Rightarrow> Q x s' | (Inl e, s') \<Rightarrow> E e s')" and P: "P s"
  show "case m s of (Inr x, s') \<Rightarrow> Q x s' | (Inl e, s') \<Rightarrow> True"
    using e [rule_format, OF P] by (cases "m s"; cases "fst (m s)") auto
qed

lemma ends_iseq: "ends P m M E \<Longrightarrow> (\<And>x. ends (M x) n Q E) \<Longrightarrow> ends P (iseq m n) Q E"
  unfolding iseq_def by (rule ends_ibind)

lemma ends_keeps: "keeps P m \<Longrightarrow> (\<And>e s. P s \<Longrightarrow> E e s) \<Longrightarrow> ends P m (\<lambda>_. P) E"
  unfolding ends_def by (auto split: prod.splits sum.splits dest: keeps_run)

lemma ends_never:
  "keeps P m \<Longrightarrow> never c m \<Longrightarrow> ends P m (\<lambda>_. P) (\<lambda>e s. is_a e c \<longrightarrow> T e s)"
  unfolding ends_def by (auto split: prod.splits sum.splits dest: keeps_run neverD)

lemma vm_launch_owns:
  assumes laws: "tracks R ops" "foreign ops"
  shows "ends (running_in R S) (vm_launch ops p)
    (\<lambda>l w. lr_process l = Some (lr_pid l) \<and> running_in R (insert (lr_pid l) S) w)
    (\<lambda>e w. is_a e VMProfileError \<longrightarrow> running_in R S w)"
proof -
  let ?E = "\<lambda>e w. is_a e VMProfileError \<longrightarrow> running_in R S w"
  note q = tracks_quiet [OF laws(1)]
  have o: "never VMProfileError (op_poll ops i)" "never VMProfileError (op_sleep ops t)" for i t
    using laws(2) by (simp_all add: foreign_def)
  have popen: "ends (running_in R S) (ext (op_popen ops c f)) (\<lambda>proc. running_in R (insert proc S)) ?E" for c f
    unfolding ends_def
    by (auto split: prod.splits sum.splits simp: running_in_def dest!: tracks_popen [OF laws(1)])
  have poll: "ends (running_in R (insert proc S)) (ext (op_poll ops proc))
      (\<lambda>status. case status of Some _ \<Rightarrow> running_in R S | None \<Rightarrow> running_in R (insert proc S)) ?E" for proc
    unfolding ends_def
  proof (intro allI impI)
    fix w assume w: "running_in R (insert proc S) w"
    obtain r w' where e: "ext (op_poll ops proc) w = (r, w')" by (cases "ext (op_poll ops proc) w")
    have k: "running_in R (insert proc S) w'" by (rule keeps_run [OF quiet_world.inv_poll [OF q] e w])
    show "case ext (op_poll ops proc) w of
        (Inr status, w') \<Rightarrow> (case status of Some _ \<Rightarrow> running_in R S | None \<Rightarrow> running_in R (insert proc S)) w'
      | (Inl e, w') \<Rightarrow> ?E e w'"
    proof (cases r)
      case (Inl x)
      then show ?thesis using e neverD [OF never_ext [OF o(1)] e [unfolded Inl]] by simp
    next
      case (Inr status)
      then show ?thesis using e k tracks_poll [OF laws(1), of proc w _ w']
        by (cases status) (auto simp: running_in_def)
    qed
  qed
  have fin: "ends (case status of Some _ \<Rightarrow> running_in R S | None \<Rightarrow> running_in R (insert proc S))
      (case status of Some code \<Rightarrow> launch_exited p code | None \<Rightarrow> launched ops p c proc)
      (\<lambda>l w. lr_process l = Some (lr_pid l) \<and> running_in R (insert (lr_pid l) S) w) ?E" for status proc c
  proof (cases status)
    case None
    have "returns (\<lambda>l. lr_pid l = proc \<and> lr_process l = Some proc) (launched ops p c proc)"
      unfolding launched_def by (intro returns_intro) simp
    from returnsD [OF this] endsD [OF ends_never [OF launched_keeps [OF q] launched_never [OF laws(2)]]]
    show ?thesis unfolding ends_def None
      by (fastforce split: prod.splits sum.splits)
  next
    case (Some code)
    have "ends (running_in R S) (launch_exited p code) (\<lambda>_. running_in R S) ?E"
      by (intro ends_keeps quiet_world.keeps_launch_exited [OF q]) simp
    moreover have "\<not> (launch_exited p code w = (Inr x, w'))" for w w' and x :: launch_result
      by (auto simp: launch_exited_def ibind_eq_Inr Let_def)
    ultimately show ?thesis unfolding ends_def Some by (fastforce split: prod.splits sum.splits)
  qed
  show ?thesis unfolding vm_launch_unfold
    apply (rule ends_iseq [OF ends_keeps], rule keeps_pure, simp)
    apply (rule ends_ibind [OF ends_keeps], rule keeps_pure, simp)
    apply (rule ends_iseq [OF ends_keeps], rule quiet_world.keeps_prepare_logs [OF q], simp)
    apply (rule ends_ibind [OF popen])
    apply (rule ends_iseq [OF ends_never [OF _ never_sleep [OF o(2)]]])
     apply (rule quiet_world.inv_sleep [OF q], simp)
    apply (rule ends_ibind [OF poll])
    apply (rule fin)
    done
qed

lemma ends_itry:
  assumes "ends P m Q (\<lambda>e s. is_a e c \<longrightarrow> T s)" "\<And>e. ends T (h e) Q (\<lambda>_ _. True)"
  shows "ends P (itry c m h) Q (\<lambda>_ _. True)"
  unfolding ends_def
proof (intro allI impI)
  fix s assume P: "P s"
  obtain r s1 where m: "m s = (r, s1)" by (cases "m s")
  show "case itry c m h s of (Inr x, s') \<Rightarrow> Q x s' | (Inl e, s') \<Rightarrow> True"
  proof (cases r)
    case (Inl e)
    show ?thesis
    proof (cases "is_a e c")
      case True
      then have "T s1" using endsD [OF assms(1) P m] Inl by simp
      then show ?thesis using assms(2) [of e, unfolded ends_def, rule_format, of s1] m Inl True
        by (simp add: itry_def)
    qed (use m Inl in \<open>simp add: itry_def\<close>)
  next
    case (Inr x)
    then show ?thesis using endsD [OF assms(1) P m] m by (simp add: itry_def)
  qed
qed

lemma ends_iret: "(\<And>s. P s \<Longrightarrow> Q x s) \<Longrightarrow> ends P (iret x) Q E"
  by (simp add: ends_def)

lemma ends_kept: "ends P m (\<lambda>_. P) E \<Longrightarrow> kept P m"
  unfolding ends_def kept_def by (metis (mono_tags, lifting) case_prod_conv sum.case(2))

text \<open>What a \<^verbatim>\<open>vm_launch\<close> step leaves: the guest it returns, or no process.\<close>

definition handed_over :: "('e \<Rightarrow> int set) \<Rightarrow> int set \<Rightarrow> launch_result option \<Rightarrow> 'e world \<Rightarrow> bool" where
  "handed_over R S launch w \<longleftrightarrow>
     (case launch of None \<Rightarrow> running_in R S w
      | Some l \<Rightarrow> lr_process l = Some (lr_pid l) \<and> running_in R (insert (lr_pid l) S) w)"

lemma vm_launch_step_owns:
  assumes laws: "tracks R ops" "foreign ops"
  shows "ends (running_in R S) (run_vm_launch_step ops step p)
    (\<lambda>(sr, launch). handed_over R S launch) (\<lambda>_ _. True)"
proof -
  note q = tracks_quiet [OF laws(1)]
  let ?M = "\<lambda>x. case x of Inl (r :: step_result) \<Rightarrow> running_in R S
      | Inr l \<Rightarrow> \<lambda>w. lr_process l = Some (lr_pid l) \<and> running_in R (insert (lr_pid l) S) w"
  have pure: "ends P m (\<lambda>_. P) (\<lambda>_ _. True)" if "keeps P m" for P m
    by (rule ends_keeps [OF that]) simp
  have el: "keeps (\<lambda>w. A \<and> running_in R B w) (elapsed_ms t)" for A B t
    by (simp add: keeps_def elapsed_ms_def)
  show ?thesis unfolding run_vm_launch_step_def Let_def
    apply (rule ends_ibind [OF pure [OF quiet_world.inv_now [OF q]]])
    apply (rule ends_ibind [OF pure], rule keeps_pure)
    apply (rule ends_ibind [of _ _ ?M])
     apply (rule ends_itry [OF ends_ibind [OF vm_launch_owns [OF laws]]])
      apply (simp add: ends_iret)
     apply (rule ends_ibind [OF pure [OF quiet_world.inv_elapsed [OF q]]])
     apply (rule ends_ibind [OF pure], rule keeps_pure)
     apply (simp add: ends_iret)
    subgoal for start built launched
      apply (cases launched)
       apply (simp add: ends_iret handed_over_def)
      apply (simp only: sum.case)
      apply (rule ends_ibind [OF pure [OF el]])
      apply (rule ends_ibind [OF pure], rule keeps_pure)
      apply (simp add: ends_iret handed_over_def)
      done
    done
qed

section \<open>Every process of a test is accounted for\<close>

definition owned :: "'e exec_state \<Rightarrow> int set" where
  "owned s = (case es_launch s of None \<Rightarrow> {} | Some l \<Rightarrow> set_option (lr_process l))"

definition accounted :: "('e \<Rightarrow> int set) \<Rightarrow> int set \<Rightarrow> 'e exec_state \<Rightarrow> bool" where
  "accounted R S s \<longleftrightarrow> running_in R (S \<union> owned s) (es_world s) \<and>
     (\<forall>l. es_launch s = Some l \<longrightarrow> lr_process l \<noteq> None)"

text \<open>No guest has been started yet.\<close>

definition unstarted :: "('e \<Rightarrow> int set) \<Rightarrow> int set \<Rightarrow> 'e exec_state \<Rightarrow> bool" where
  "unstarted R S s \<longleftrightarrow> running_in R S (es_world s) \<and> es_launch s = None"

lemma unstarted_accounted: "unstarted R S s \<Longrightarrow> accounted R S s"
  by (simp add: unstarted_def accounted_def owned_def)

lemma accounted_None: "accounted R S s \<Longrightarrow> es_launch s = None \<Longrightarrow> unstarted R S s"
  by (simp add: unstarted_def accounted_def owned_def)

lemma keeps_in_world:
  assumes "\<And>S. keeps (running_in R S) m"
  shows "keeps (accounted R S) (in_world m)" "keeps (unstarted R S) (in_world m)"
proof -
  have "running_in R T (es_world s) \<Longrightarrow> m (es_world s) = (r, w) \<Longrightarrow> running_in R T w" for T s r w
    using keeps_run [OF assms] by blast
  then show "keeps (accounted R S) (in_world m)" "keeps (unstarted R S) (in_world m)"
    by (auto simp: keeps_def accounted_def unstarted_def owned_def in_world_def split: prod.splits)
qed

lemma keeps_clear:
  "keeps (unstarted R S) (set_ctx_profile p)" "keeps (unstarted R S) (set_launch None)"
  by (auto simp: keeps_def unstarted_def set_ctx_profile_def set_launch_def)

text \<open>A launch that was handed over is recorded; then the environment is filled in.\<close>

lemma set_launch_accounts:
  "ends (\<lambda>s. es_launch s = None \<and> handed_over R S l (es_world s)) (set_launch l)
     (\<lambda>_. accounted R S) E"
  by (auto simp: ends_def set_launch_def handed_over_def accounted_def owned_def split: option.splits)

lemma ends_pure: "keeps P m \<Longrightarrow> ends P m (\<lambda>_. P) (\<lambda>_ _. True)"
  by (rule ends_keeps) simp_all

lemma exec_vm_launch_accounts:
  assumes laws: "tracks R ops" "foreign ops"
  shows "kept (accounted R S) (exec_vm_launch ops debug a step)"
proof -
  note q = tracks_quiet [OF laws(1)]
  let ?T = "\<lambda>(_ :: exc) (_ :: 'a exec_state). True"
  have gid: "keeps (running_in R S) (effective_guest_id ops step p)" for S p
    unfolding effective_guest_id_def by (intro keeps_intro quiet_world.inv_uuid4 [OF q])
  have dbg: "keeps (unstarted R S) (if debug then
                    iseq (in_world (mkdir_parents (path_sub a g)))
                   (iseq (set_ctx_profile (debug_profile a g p))
                         (iret (debug_profile a g p)))
                  else iret p)" for g p
    by (intro keeps_intro keeps_in_world quiet_world.inv_mkdir [OF q] keeps_clear)
  have run: "ends (unstarted R S) (in_world (run_vm_launch_step ops step p))
      (\<lambda>(sr, l) s. es_launch s = None \<and> handed_over R S l (es_world s)) ?T" for p
    using vm_launch_step_owns [OF laws, of S step p] unfolding ends_def in_world_def unstarted_def
    by (fastforce split: prod.splits sum.splits)
  have upd: "ends (accounted R S) (case l of
          Some l \<Rightarrow> iwhen (lr_ok l) (in_world (update_environment_with_guest_os ops (lr_profile l)))
        | None \<Rightarrow> iret ()) (\<lambda>_. accounted R S) ?T" for l
    by (intro ends_pure keeps_intro keeps_in_world quiet_world.keeps_update_environment [OF q])
  have go: "ends (unstarted R S) (ibind (in_world (effective_guest_id ops step p)) (\<lambda>gid.
           ibind (if debug then
                    iseq (in_world (mkdir_parents (path_sub a gid)))
                   (iseq (set_ctx_profile (debug_profile a gid p))
                         (iret (debug_profile a gid p)))
                  else iret p) (\<lambda>p1.
           ibind (in_world (run_vm_launch_step ops step p1)) (\<lambda>(sr, new_launch).
           iseq (set_launch new_launch)
          (iseq (case new_launch of
                   Some l \<Rightarrow> iwhen (lr_ok l)
                     (in_world (update_environment_with_guest_os ops (lr_profile l)))
                 | None \<Rightarrow> iret ())
                (iret sr)))))) (\<lambda>_. accounted R S) ?T" for p
    apply (rule ends_ibind [OF ends_pure [OF keeps_in_world(2)]], rule gid)
    apply (rule ends_ibind [OF ends_pure [OF dbg]])
    apply (rule ends_ibind [OF run])
    apply (simp only: split_paired_all prod.case)
    apply (rule ends_iseq [OF set_launch_accounts])
    apply (rule ends_iseq [OF upd])
    apply (simp add: ends_iret)
    done
  show ?thesis unfolding kept_def
  proof (intro allI impI)
    fix s x s' assume A: "accounted R S s" and r: "exec_vm_launch ops debug a step s = (Inr x, s')"
    show "accounted R S s'"
    proof (cases "ctx_profile (es_ctx s) = None \<or> es_launch s \<noteq> None")
      case True
      then show ?thesis using A r
        by (auto simp: exec_vm_launch_def split: option.splits)
    next
      case False
      then obtain p where p: "ctx_profile (es_ctx s) = Some p" "es_launch s = None" by auto
      then have "unstarted R S s" using A by (simp add: accounted_None)
      from endsD [OF go [of p] this] r p show ?thesis by (simp add: exec_vm_launch_def)
    qed
  qed
qed

text \<open>Stopping a guest that returns has ended its process.\<close>

lemma wait_ends:
  assumes "tracks R ops"
  shows "ends (running_in R (insert i S)) (ext (op_wait ops i t)) (\<lambda>_. running_in R S)
    (\<lambda>e s. is_a e c \<longrightarrow> running_in R (insert i S) s)"
  unfolding ends_def
proof (intro allI impI)
  fix w assume w: "running_in R (insert i S) w"
  obtain r w' where e: "ext (op_wait ops i t) w = (r, w')" by (cases "ext (op_wait ops i t) w")
  have k: "running_in R (insert i S) w'"
    by (rule keeps_run [OF quiet_world.inv_wait [OF tracks_quiet [OF assms]] e w])
  show "case ext (op_wait ops i t) w of (Inr x, s') \<Rightarrow> running_in R S s'
      | (Inl e, s') \<Rightarrow> is_a e c \<longrightarrow> running_in R (insert i S) s'"
    using e k tracks_wait [OF assms, of i t w _ w']
    by (cases r) (auto simp: running_in_def)
qed

lemma stop_vm_ends:
  assumes "tracks R ops" and "lr_process l = Some i"
  shows "ends (running_in R (insert i S)) (stop_vm ops l t) (\<lambda>_. running_in R S) (\<lambda>_ _. True)"
proof -
  note q = tracks_quiet [OF assms(1)]
  have wait: "ends (running_in R (insert i S)) (ext (op_wait ops i t)) (\<lambda>_. running_in R S) (\<lambda>_ _. True)"
    by (rule ends_any [OF wait_ends [OF assms(1)]])
  show ?thesis unfolding stop_vm_def assms(2) option.case
    apply (rule ends_iseq [OF ends_pure], rule quiet_world.inv_terminate [OF q])
    apply (rule ends_itry [OF wait_ends [OF assms(1)]])
    apply (rule ends_iseq [OF ends_pure], rule quiet_world.inv_kill [OF q])
    apply (rule wait)
    done
qed

lemma vm_stop_step_ends:
  assumes "tracks R ops" and "lr_process l = Some i"
    and run: "run_vm_stop_step ops step l w = (Inr sr, w')" and w: "running_in R (insert i S) w"
  shows "running_in R (insert i S) w' \<and> (sr_result sr \<noteq> Error \<longrightarrow> running_in R S w')"
proof -
  note q = tracks_quiet [OF assms(1)]
  let ?attempt = "itry OSError (iseq (stop_vm ops l (step_timeout step)) (iret None))
             (\<lambda>e. ibind (error_now step (msg_of e) (w_clock w)) (\<lambda>r. iret (Some r)))"
  obtain failed w2 where t: "?attempt w = (Inr failed, w2)"
    and rest: "(case failed of Some r \<Rightarrow> iret r
       | None \<Rightarrow> ibind (elapsed_ms (w_clock w)) (\<lambda>duration.
        ibind (ilift (check_expected_values step 0 stopped_message)) (\<lambda>passed.
           iret \<lparr>sr_step = step, sr_result = pass_or Fail passed,
                 sr_exit_code = Some (if passed then 0 else 1), sr_stdout = Some stopped_message,
                 sr_stderr = None, sr_duration_ms = Some duration, sr_command = None\<rparr>))) w2 = (Inr sr, w')"
    using run [unfolded run_vm_stop_step_def now_def bind_simps(5) ibind_eq_Inr]
    by (elim exE conjE) (rule that)
  have "keeps (running_in R (insert i S)) ?attempt"
    unfolding error_now_def
    by (intro keeps_intro quiet_world.keeps_stop_vm [OF q] quiet_world.inv_elapsed [OF q])
  then have k2: "running_in R (insert i S) w2" using t w by (rule keeps_run)
  have same: "w' = w2"
    using rest by (auto simp: elapsed_ms_def ibind_eq_Inr split: option.splits)
  show ?thesis
  proof (cases failed)
    case (Some r)
    obtain q1 w1 where s: "stop_vm ops l (step_timeout step) w = (q1, w1)"
      by (cases "stop_vm ops l (step_timeout step) w")
    have "sr_result r = Error"
      using t s Some
      by (cases q1) (auto simp: itry_def iseq_def ibind_def error_now_def elapsed_ms_def
          split: if_splits)
    then show ?thesis using rest Some k2 same by auto
  next
    case None
    then have "stop_vm ops l (step_timeout step) w = (Inr (), w2)"
      using t by (auto simp: itry_def iseq_def ibind_def error_now_def elapsed_ms_def
          split: prod.splits sum.splits if_splits)
    from endsD [OF stop_vm_ends [OF assms(1,2)] w this] show ?thesis using k2 same by simp
  qed
qed

lemma exec_vm_stop_accounts:
  assumes "tracks R ops"
  shows "kept (accounted R S) (exec_vm_stop ops debug step)"
  unfolding kept_def
proof (intro allI impI)
  fix s x s' assume A: "accounted R S s" and r: "exec_vm_stop ops debug step s = (Inr x, s')"
  note q = tracks_quiet [OF assms]
  show "accounted R S s'"
  proof (cases "es_launch s")
    case None
    then show ?thesis using A r by (simp add: exec_vm_stop_def)
  next
    case (Some l)
    then obtain i where i: "lr_process l = Some i" using A by (auto simp: accounted_def)
    let ?j = "if debug then
                  in_world (itry GuestVsockError
                    (ibind (fetch_guest_journal ops (lr_profile l) None)
                       (\<lambda>g. iret (Some (gcr_stdout g))))
                    (\<lambda>_. iret None))
                else iret None"
    obtain j s1 sr s2 where j: "?j s = (Inr j, s1)"
      and st: "in_world (run_vm_stop_step ops step l) s1 = (Inr sr, s2)"
      and fin: "s' = (if sr_result sr \<noteq> Error then s2\<lparr>es_launch := None\<rparr> else s2)"
      using r Some by (auto simp: exec_vm_stop_def iseq_def ibind_eq_Inr set_launch_def split: if_splits)
    have "keeps (\<lambda>s. running_in R (insert i S) (es_world s) \<and> es_launch s = Some l) ?j"
      using keeps_run [OF quiet_world.keeps_journal [OF q]]
      by (auto simp: keeps_def in_world_def itry_def ibind_def split: prod.splits sum.splits)
    from keeps_run [OF this j] have 1: "running_in R (insert i S) (es_world s1)" "es_launch s1 = Some l"
      using A Some i by (simp_all add: accounted_def owned_def)
    from st have "run_vm_stop_step ops step l (es_world s1) = (Inr sr, es_world s2)" "es_launch s2 = es_launch s1"
      by (auto simp: in_world_def split: prod.splits)
    from vm_stop_step_ends [OF assms i this(1) 1(1)] this(2) 1(2) show ?thesis
      using fin i by (auto simp: accounted_def owned_def)
  qed
qed

lemma auto_launch_accounts:
  assumes laws: "tracks R ops" "foreign ops"
  shows "kept (accounted R S) (auto_launch ops step p)"
  unfolding kept_def
proof (intro allI impI)
  fix s x s' assume A: "accounted R S s" and r: "auto_launch ops step p s = (Inr x, s')"
  note q = tracks_quiet [OF laws(1)]
  let ?E = "\<lambda>e s. is_a e VMProfileError \<longrightarrow> accounted R S s"
  let ?go = "itry VMProfileError
       (ibind (in_world (vm_launch ops p)) (\<lambda>l.
        iseq (set_launch (Some l))
       (iseq (iwhen (lr_ok l) (in_world (update_environment_with_guest_os ops (lr_profile l))))
             (iret None))))
       (\<lambda>e. iret (Some (error_result step (msg_of e) (Some 0))))"
  show "accounted R S s'"
  proof (cases "es_launch s")
    case (Some l)
    then show ?thesis using A r by (simp add: auto_launch_def)
  next
    case None
    have launch: "ends (unstarted R S) (in_world (vm_launch ops p))
        (\<lambda>l s. es_launch s = None \<and> handed_over R S (Some l) (es_world s)) ?E"
      unfolding ends_def
    proof (intro allI impI)
      fix s :: "'a exec_state" assume u: "unstarted R S s"
      obtain q w where v: "vm_launch ops p (es_world s) = (q, w)" by (cases "vm_launch ops p (es_world s)")
      show "case in_world (vm_launch ops p) s of
          (Inr l, s') \<Rightarrow> es_launch s' = None \<and> handed_over R S (Some l) (es_world s') | (Inl e, s') \<Rightarrow> ?E e s'"
        using u endsD [OF vm_launch_owns [OF laws] _ v, of S] v
        by (cases q) (simp_all add: in_world_def unstarted_def handed_over_def accounted_def owned_def)
    qed
    have upd: "ends (accounted R S)
        (iwhen (lr_ok l) (in_world (update_environment_with_guest_os ops (lr_profile l)))) (\<lambda>_. accounted R S) ?E" for l
      by (intro ends_keeps keeps_intro keeps_in_world quiet_world.keeps_update_environment [OF q]) simp
    have "ends (unstarted R S) ?go (\<lambda>_. accounted R S) (\<lambda>_ _. True)"
      apply (rule ends_itry [of _ _ _ _ "accounted R S"])
       apply (rule ends_ibind [OF launch])
       apply (rule ends_iseq [OF set_launch_accounts])
       apply (rule ends_iseq [OF upd])
       apply (simp_all add: ends_iret)
      done
    from endsD [OF this accounted_None [OF A None]] r None show ?thesis
      by (simp add: auto_launch_def)
  qed
qed

lemma exec_guest_accounts:
  assumes laws: "tracks R ops" "foreign ops"
  shows "kept (accounted R S) (exec_guest ops a step)"
proof -
  note q = tracks_quiet [OF laws(1)]
  show ?thesis unfolding exec_guest_def
    by (intro kept_intro auto_launch_accounts laws keeps_kept keeps_pure keeps_in_world
        quiet_world.keeps_guest_step [OF q] quiet_world.keeps_guest_pull_step [OF q])
qed

lemma callable_accounts:
  assumes "tidy_handlers R m"
  shows "keeps (accounted R S) (in_ctx (run_callable_step m step))"
proof -
  have fn: "R (w_ext (snd (snd (call_handler fn t s)))) \<subseteq> R (w_ext (snd s))"
    if "map_of (tm_attrs m) name = Some (Fn fn)" for fn t s name
  proof -
    obtain c w where s: "s = (c, w)" by (cases s)
    obtain r c' w' where f: "fn (c, w) = (r, (c', w'))" by (metis prod.collapse)
    have "R (w_ext (snd (snd (fn (c, w))))) \<subseteq> R (w_ext w)"
      using assms that unfolding tidy_handlers_def by blast
    then show ?thesis using f by (simp add: s call_handler_def Let_def)
  qed
  have "R (w_ext (snd (snd (run_callable_step m step s)))) \<subseteq> R (w_ext (snd s))" for s
  proof (cases "map_of (tm_attrs m) (step_handler step)")
    case (Some at)
    then show ?thesis
    proof (cases at)
      case (Fn f)
      obtain out s' where c: "call_handler f (step_timeout step) s = (out, s')"
        by (cases "call_handler f (step_timeout step) s")
      have "snd (run_callable_step m step s) = s'"
        using Some Fn c
        by (cases out) (auto simp: run_callable_step_def Let_def split: handler_value.splits)
      then show ?thesis using fn [of _ f "step_timeout step" s] Some Fn c by auto
    qed (simp add: run_callable_step_def)
  qed (simp add: run_callable_step_def)
  note le = this
  show ?thesis unfolding keeps_def
  proof (intro allI impI)
    fix s assume A: "accounted R S s"
    obtain r c w where c: "run_callable_step m step (es_ctx s, es_world s) = (r, (c, w))"
      by (metis prod.collapse)
    then have "R (w_ext w) \<subseteq> R (w_ext (es_world s))" using le [of "(es_ctx s, es_world s)"] by simp
    then show "accounted R S (snd (in_ctx (run_callable_step m step) s))"
      using A c by (auto simp: in_ctx_def accounted_def running_in_def owned_def)
  qed
qed

lemma exec_kind_accounts:
  assumes "tracks R ops" "foreign ops" "tidy_handlers R m"
  shows "kept (accounted R S) (exec_kind ops m debug g a step)"
proof -
  have plain: "kept (accounted R S) (ibind run (\<lambda>sr. iret (sr, None, None)))"
    if "kept (accounted R S) run" for run :: "('a exec_state, step_result) io"
    by (intro kept_ibind that keeps_kept keeps_pure)
  show ?thesis
    by (cases "step_kind step")
      (simp_all add: exec_kind_def Let_def plain exec_vm_launch_accounts exec_vm_stop_accounts
        exec_guest_accounts keeps_kept callable_accounts keeps_pure assms
        keeps_in_world quiet_world.keeps_run_step [OF tracks_quiet])
qed

lemma accounted_rounds:
  assumes "tracks R ops"
  shows "round_invariant (accounted R S) ops"
proof -
  note q = tracks_quiet [OF assms]
  show ?thesis
    by unfold_locales
      (auto simp: accounted_def owned_def intro: keeps_in_world quiet_world.inv_flush_end [OF q]
        quiet_world.keeps_log_step [OF q])
qed

lemma exec_step_accounts:
  assumes "tracks R ops" "foreign ops" "tidy_handlers R m"
  shows "kept (accounted R S) (exec_step ops m debug g a step rest)"
proof -
  note r = accounted_rounds [OF assms(1)]
  show ?thesis unfolding exec_step_def
    by (intro kept_iseq kept_ibind kept_prod exec_kind_accounts assms keeps_kept
        round_invariant.keeps_begin [OF r] round_invariant.keeps_after [OF r])
qed

lemma exec_steps_accounts:
  assumes "tracks R ops" "foreign ops" "tidy_handlers R m"
  shows "kept (accounted R S) (exec_steps ops m debug g a steps)"
proof (induction steps)
  case (Cons step steps)
  show ?case unfolding exec_steps.simps
    by (rule kept_ibind [OF exec_step_accounts [OF assms]], rule kept_if [OF Cons keeps_kept],
        rule keeps_pure)
next
  case Nil
  show ?case unfolding exec_steps.simps by (rule keeps_kept, rule keeps_pure)
qed

lemma run_steps_leaves_none:
  assumes "tracks R ops" "foreign ops" "tidy_handlers R m"
    and run: "run_steps ops m cfg test a started steps s = (Inr tr, s')"
    and u: "unstarted R S s"
  shows "running_in R S (es_world s')"
proof -
  note q = tracks_quiet [OF assms(1)]
  obtain s1 s2 where s1: "exec_steps ops m (rc_debug cfg) (rc_guest_path cfg) a steps s = (Inr (), s1)"
    and s2: "finish_test ops test started (length steps) s1 = (Inr tr, s2)"
    and s3: "stop_leftover ops s2 = (Inr (), s')"
    using run by (auto simp: run_steps_def ifinally_def iseq_def ibind_def split: prod.splits sum.splits)
  have "accounted R S s1"
    using keptD [OF exec_steps_accounts [OF assms(1-3)] s1 unstarted_accounted [OF u]] .
  moreover have "keeps (accounted R S) (finish_test ops test started (length steps))"
    unfolding finish_test_def
    by (intro keeps_intro keeps_in_world quiet_world.inv_flush [OF q] quiet_world.inv_utcnow [OF q])
  ultimately have A: "accounted R S s2" using s2 by (metis keeps_run)
  show ?thesis
  proof (cases "es_launch s2")
    case None
    then show ?thesis using s3 A by (simp add: stop_leftover_def accounted_def owned_def)
  next
    case (Some l)
    then obtain i where i: "lr_process l = Some i" using A by (auto simp: accounted_def)
    have "stop_vm ops l 10 (es_world s2) = (Inr (), es_world s')"
      using s3 Some by (auto simp: stop_leftover_def in_world_def split: prod.splits)
    from endsD [OF stop_vm_ends [OF assms(1) i] _ this, of S] A Some i show ?thesis
      by (simp add: accounted_def owned_def)
  qed
qed

lemma load_plan_keeps:
  assumes "\<And>m. import_test_module mods test = Inr m \<Longrightarrow> tidy_handlers R m"
  shows "keeps (running_in R S) (load_test_execution_plan mods test)"
proof (cases "import_test_module mods test")
  case (Inl e)
  then show ?thesis by (simp add: load_test_execution_plan_def keeps_def)
next
  case (Inr m)
  from assms [OF Inr] have "keeps (running_in R S) (tm_steps m)" "keeps (running_in R S) (tm_vm_profile m)"
    unfolding tidy_handlers_def shrinks_def keeps_def running_in_def by (meson order_trans)+
  then have "keeps (running_in R S) (ibind (tm_steps m) (\<lambda>steps.
      ibind (tm_vm_profile m) (\<lambda>declared. iret (steps, declared))))"
    by (intro keeps_intro)
  then show ?thesis by (simp add: load_test_execution_plan_def Inr keeps_def)
qed

lemma execute_test_leaves_none:
  assumes laws: "tracks R ops" "foreign ops"
    and tidy: "\<And>m. import_test_module mods test = Inr m \<Longrightarrow> tidy_handlers R m"
    and run: "execute_test ops mods cfg v test w = (Inr tr, w')"
    and w: "running_in R S w"
  shows "running_in R S w'"
proof -
  note q = tracks_quiet [OF laws(1)]
  have u: "unstarted R S (initial_state cfg test a d w0)" if "running_in R S w0" for a d w0
    using that by (simp add: unstarted_def initial_state_def)
  have body: "ends (running_in R S) (\<lambda>w. case run_steps ops m cfg test a t steps (initial_state cfg test a d w)
      of (r, s) \<Rightarrow> (r, es_world s)) (\<lambda>_. running_in R S) (\<lambda>_ _. True)" if "tidy_handlers R m" for m a t steps d
    unfolding ends_def using run_steps_leaves_none [OF laws that _ u]
    by (auto split: prod.splits sum.splits)
  have mod: "ends (running_in R S) (ilift (import_test_module mods test)) (\<lambda>m s. tidy_handlers R m \<and> running_in R S s)
      (\<lambda>_ _. True)"
    unfolding ends_def by (auto split: sum.splits dest: tidy)
  have step: "ends (\<lambda>s. tidy_handlers R m \<and> running_in R S s) (\<lambda>w. case run_steps ops m cfg test a t steps
      (initial_state cfg test a d w) of (r, s) \<Rightarrow> (r, es_world s)) (\<lambda>_. running_in R S) (\<lambda>_ _. True)" for m a t steps d
    using body [of m a t steps d] by (cases "tidy_handlers R m") (simp_all add: ends_def)
  have "ends (running_in R S) (execute_test ops mods cfg v test) (\<lambda>_. running_in R S) (\<lambda>_ _. True)"
    unfolding execute_test_def Let_def print_test_heading_def
    apply (rule ends_ibind [OF ends_pure], rule quiet_world.inv_utcnow [OF q])
    apply (rule ends_iseq [OF ends_pure], rule quiet_world.inv_flush [OF q])
    apply (rule ends_ibind [OF ends_pure])
     apply (intro keeps_intro load_plan_keeps tidy, assumption)
    subgoal for t u loaded
    proof (cases loaded)
      case (Inl e)
      then show ?thesis
        by simp (intro ends_pure keeps_intro quiet_world.inv_flush [OF q] quiet_world.inv_utcnow [OF q])
    next
      case (Inr plan)
      then show ?thesis
        apply (simp only: sum.case)
        apply (cases plan, simp only: prod.case)
        apply (rule ends_iseq [OF ends_pure], rule quiet_world.inv_mkdir [OF q])
        apply (rule ends_iseq [OF ends_pure], rule quiet_world.inv_flush [OF q])
        apply (rule ends_ibind [OF mod step])
        done
    qed
    done
  from endsD [OF this w run] show ?thesis by simp
qed

section \<open>Properties\<close>


text \<open>
  C12: no guest outlives its test: when a test returns a result, every QEMU process it started
  has ended, whatever the steps did and wherever the run was cut short.
\<close>

theorem no_guest_outlives_test:
  assumes "tracks R ops" and "foreign ops"
    and "\<And>m. import_test_module mods test = Inr m \<Longrightarrow> tidy_handlers R m"
    and "execute_test ops mods cfg v test w = (Inr tr, w')"
  shows "R (w_ext w') \<subseteq> R (w_ext w)"
  using execute_test_leaves_none [OF assms, of "R (w_ext w)"] by (simp add: running_in_def)

text \<open>A machine on which QEMU starts as process 4242 and its agent answers one request.\<close>

definition guest_ops :: "(int set \<times> bytes list) ops" where
  "guest_ops = idle_ops
     \<lparr>op_popen := (\<lambda>args err w. (Inr 4242, w\<lparr>w_ext := ({4242}, [encode ''{\"ok\": true}''])\<rparr>)),
      op_wait := (\<lambda>i t w. (Inr (), w\<lparr>w_ext := (fst (w_ext w) - {i}, snd (w_ext w))\<rparr>)),
      op_connect := (\<lambda>cid port t. iret 0),
      op_recv := (\<lambda>sock w. case snd (w_ext w) of [] \<Rightarrow> (Inr [], w)
        | c # cs \<Rightarrow> (Inr c, w\<lparr>w_ext := (fst (w_ext w), cs)\<rparr>))\<rparr>"

lemma guest_ops_laws: "tracks fst guest_ops" "foreign guest_ops"
  by (auto simp: tracks_def foreign_def guest_ops_def idle_ops_def shrinks_def never_def
      iret_def ithrow_def is_a_def split: list.splits)

lemma guest_ops_ping:
  assumes "w_ext w = (S, [encode ''{\"ok\": true}''])" and "15 \<le> vp_vsock_max_response_bytes p"
  shows "\<exists>g. ping_guest guest_ops p w = (Inr g, w\<lparr>w_ext := (S, [])\<rparr>)"
proof -
  have d: "delivers guest_ops 0 [encode ''{\"ok\": true}''] w (w\<lparr>w_ext := (S, [])\<rparr>)"
    using assms(1) by (simp add: guest_ops_def ext_def encode_def)
  have l: "loads ''{\"ok\": true}'' = Inr (JObj [(''ok'', JBool True)])"
    by code_simp
  have s: "decode_strict (encode ''{\"ok\": true}'') = Inr ''{\"ok\": true}''"
    by code_simp
  have n: "length (encode ''{\"ok\": true}'') = 12" by (simp add: encode_def)
  have r: "recv_loop guest_ops 0 (vp_vsock_max_response_bytes p) [] 0 w
      = (Inr [encode ''{\"ok\": true}''], w\<lparr>w_ext := (S, [])\<rparr>)"
    using recv_loop_delivers [OF d, of 0 "vp_vsock_max_response_bytes p" "[]"] assms(2) n by simp
  have q: "vsock_request guest_ops p j t w = (Inr (JObj [(''ok'', JBool True)]), w\<lparr>w_ext := (S, [])\<rparr>)" for j t
    using r l s
    by (simp add: vsock_request_def vsock_connect_def send_request_def read_response_def
        ibind_def iseq_def itry_def ifinally_def ext_def guest_ops_def idle_ops_def catch_def)
  show ?thesis
    unfolding ping_guest_def now_def elapsed_ms_def ibind_def by (simp add: q)
qed

lemma guest_ops_run:
  "sleep guest_ops us w = (Inr (), w\<lparr>w_clock := max (w_clock w + us) (w_clock w)\<rparr>)"
  "ext (op_poll guest_ops i) w = (Inr None, w)"
  "ext (op_uuid4 guest_ops) w = (Inr ''00000000-0000-4000-8000-000000000000'', w)"
  "ext (op_utcnow guest_ops) w = (Inr ''2026-01-01T00:00:00+00:00'', w)"
  "ext (op_popen guest_ops args f) w = (Inr 4242, w\<lparr>w_ext := ({4242}, [encode ''{\"ok\": true}''])\<rparr>)"
  "\<exists>w'. stop_vm guest_ops l t w = (Inr (), w')"
  by (cases "lr_process l"; simp add: sleep_def ext_def guest_ops_def idle_ops_def stop_vm_def
      itry_def iseq_def ibind_def)+

lemma guest_ops_launch:
  assumes v: "vp_validate p w = Inr ()" and logs: "prepare_logs p w = (Inr (), w2)"
    and lim: "15 \<le> vp_vsock_max_response_bytes p" "0 < vp_vsock_boot_timeout p"
  shows "\<exists>l w'. vm_launch guest_ops p w = (Inr l, w') \<and> lr_ok l \<and> w_environment w' = w_environment w2"
proof -
  obtain cmd where cmd: "build_qemu_command p w = Inr cmd" using v build_qemu_total by blast
  let ?w3 = "w2\<lparr>w_ext := ({4242}, [encode ''{\"ok\": true}''])\<rparr>"
  let ?w4 = "?w3\<lparr>w_clock := max (w_clock ?w3 + 2000000) (w_clock ?w3)\<rparr>"
  obtain g w5 where ping: "ping_guest guest_ops p ?w4 = (Inr g, w5)"
    and env: "w_environment w5 = w_environment w2"
    using guest_ops_ping [of ?w4 "{4242}" p] lim by fastforce
  have ready: "check_guest_ready guest_ops p None (Some 4242) ?w4 = (Inr (True, []), w5)"
    using lim ping
    by (simp add: check_guest_ready_def wait_for_guest_def itry_def iseq_def ibind_def
        wait_loop.simps [of guest_ops p])
  have "launched guest_ops p cmd 4242 ?w4 = (Inr \<lparr>lr_pid = 4242, lr_command = cmd, lr_profile = p, lr_ok = True,
      lr_message = ''VM launched and guest booted'',
      lr_guest_id = (if given (vp_guest_id p) then the (vp_guest_id p) else ''00000000-0000-4000-8000-000000000000''),
      lr_process = Some 4242\<rparr>, w5)"
    using ready by (simp add: launched_def ibind_def guest_ops_run)
  then show ?thesis
    using v cmd logs env
    by (simp add: vm_launch_unfold iseq_def ibind_def guest_ops_run)
qed

text \<open>A test with one \<^verbatim>\<open>vm_launch\<close> step that leaves the guest running.\<close>

definition boot_step :: base_step where
  "boot_step = (sf_common (mk_factory ''boot'' Required ''exit_code:0'' 60) VmLaunch)
     \<lparr>step_guest_id := ''g1''\<rparr>"

definition boot_test :: test_definition where
  "boot_test = demo_test\<lparr>test_scope := GuestScope\<rparr>"

definition boot_mod :: "(int set \<times> bytes list) test_mod" where
  "boot_mod = \<lparr>tm_steps = iret [boot_step], tm_vm_profile = iret None, tm_attrs = []\<rparr>"

definition boot_world :: "(int set \<times> bytes list) world" where
  "boot_world = (empty_world ({}, []))
     \<lparr>w_files := (\<lambda>p. if p = Path [] [''g.efi''] \<or> p = Path ''/'' [''usr'', ''share'', ''ovmf'', ''OVMF.amdsev.fd'']
        then Some [] else None)\<rparr>"

text \<open>The profile of the step, and a world in which it can be launched.\<close>

definition boot_profile :: vm_profile where
  "boot_profile = effective_vm_profile None (Path [] [''g.efi'']) None None False"

lemma boot_profile_simps:
  "boot_profile = mk_profile ''g.efi''"
  by (simp add: boot_profile_def effective_vm_profile_def path_str_def Let_def)

definition bootable :: "(int set \<times> bytes list) world \<Rightarrow> bool" where
  "bootable w \<longleftrightarrow> w_files w = w_files boot_world \<and> (\<forall>q. w_dirs w q \<longrightarrow> path_root q = []) \<and>
     w_environment w = None"

lemma boot_validate: "bootable w \<Longrightarrow> vp_validate boot_profile w = Inr ()"
proof -
  assume b: "bootable w"
  have p: "path_of ''g.efi'' = Path [] [''g.efi'']"
    "path_of ''/usr/share/ovmf/OVMF.amdsev.fd'' = Path ''/'' [''usr'', ''share'', ''ovmf'', ''OVMF.amdsev.fd'']"
    by code_simp+
  then have f: "is_file (path_of ''g.efi'') w" "is_file (path_of ''/usr/share/ovmf/OVMF.amdsev.fd'') w"
    using b by (simp_all add: bootable_def is_file_def boot_world_def)
  show ?thesis unfolding boot_profile_simps
    using f by (simp add: vp_validate_def mk_profile_def guard_not_def resolved_ovmf_path_def given_def
        find_ovmf_path_def default_ovmf_candidates_def)
qed

lemma boot_logs:
  assumes "bootable w"
  shows "\<exists>w2. prepare_logs boot_profile w = (Inr (), w2) \<and> w_environment w2 = None"
proof -
  have p: "path_of ''/tmp/guest-error.log'' = Path ''/'' [''tmp'', ''guest-error.log'']" by code_simp
  have q: "path_parent (Path ''/'' [''tmp'', ''guest-error.log'']) = Path ''/'' [''tmp'']" by code_simp
  have r: "path_prefixes (Path ''/'' [''tmp'']) = [Path ''/'' [], Path ''/'' [''tmp'']]"
    by (simp add: upt_rec)
  show ?thesis unfolding boot_profile_simps prepare_logs_def
    using assms
    by (auto simp: mk_profile_def p q r iseq_def ibind_def mkdir_parents_def iwhen_def write_bytes_def
        open_error_def bootable_def boot_world_def)
qed

lemma boot_step_expects: "\<exists>b. check_expected_values boot_step n t = Inr b"
proof -
  have "expectation_of ''exit_code:0'' = Some (ExitCode 0)"
    by code_simp
  then have "wf_step boot_step"
    unfolding wf_step_eval all_step_fields
    by (simp add: boot_step_def sf_common_def mk_factory_def is_other_severity_def is_other_kind_def)
  then show ?thesis using check_expected_wf by blast
qed

lemma boot_exec:
  assumes "bootable (es_world s)" "ctx_profile (es_ctx s) = Some boot_profile" "es_launch s = None"
    "es_logger s = None"
  shows "\<exists>r s2. exec_kind guest_ops m False g a boot_step s = (Inr (r, None, None), s2) \<and> es_logger s2 = None"
proof -
  obtain w2 where w2: "prepare_logs boot_profile (es_world s) = (Inr (), w2)" "w_environment w2 = None"
    using boot_logs [OF assms(1)] by blast
  obtain l w3 where l: "vm_launch guest_ops boot_profile (es_world s) = (Inr l, w3)" "lr_ok l"
    "w_environment w3 = None"
    using guest_ops_launch [OF boot_validate [OF assms(1)] w2(1)] w2(2)
    by (auto simp: boot_profile_simps mk_profile_def)
  obtain b where b: "check_expected_values boot_step 0 (lr_message l) = Inr b" using boot_step_expects by blast
  have "\<exists>r. run_vm_launch_step guest_ops boot_step boot_profile (es_world s) = (Inr (r, Some l), w3)"
    using l b by (simp add: run_vm_launch_step_def now_def elapsed_ms_def Let_def ibind_def itry_def)
  then obtain r where r: "run_vm_launch_step guest_ops boot_step boot_profile (es_world s) = (Inr (r, Some l), w3)" ..
  have k: "step_kind boot_step = VmLaunch" "step_guest_id boot_step \<noteq> []"
    by (simp_all add: boot_step_def sf_common_def mk_factory_def)
  show ?thesis using assms k r l
    by (simp add: exec_kind_def exec_vm_launch_def effective_guest_id_def Let_def ibind_def iseq_def
        in_world_def set_launch_def iwhen_def update_environment_with_guest_os_def)
qed

lemma boot_steps_run:
  assumes "bootable (es_world s)" "ctx_profile (es_ctx s) = Some boot_profile" "es_launch s = None"
    "es_logger s = None"
  shows "\<exists>s3. exec_steps guest_ops m False g a [boot_step] s = (Inr (), s3)"
proof -
  have s: "bootable (es_world (snd (refresh_ctx s)))" "ctx_profile (es_ctx (snd (refresh_ctx s))) = Some boot_profile"
    "es_launch (snd (refresh_ctx s)) = None" "es_logger (snd (refresh_ctx s)) = None"
    using assms by (simp_all add: refresh_ctx_def)
  have tty: "op_is_tty guest_ops = False" by (simp add: guest_ops_def idle_ops_def)
  obtain r s2 where k: "exec_kind guest_ops m False g a boot_step (snd (refresh_ctx s)) = (Inr (r, None, None), s2)"
      "es_logger s2 = None"
    using boot_exec [OF s] by blast
  obtain go s3 where "exec_step guest_ops m False g a boot_step [] s = (Inr go, s3)"
    using exec_step_returns [OF k tty] by blast
  then show ?thesis by (simp add: ibind_def)
qed

lemma boot_initial:
  assumes "bootable w"
  shows "bootable (es_world (initial_state demo_config boot_test a None w))"
    "ctx_profile (es_ctx (initial_state demo_config boot_test a None w)) = Some boot_profile"
    "es_launch (initial_state demo_config boot_test a None w) = None"
    "es_logger (initial_state demo_config boot_test a None w) = None"
  using assms
  by (simp_all add: initial_state_def boot_test_def demo_config_def requires_vm_def boot_profile_def)

lemma boot_runs: "\<exists>tr w'. execute_test guest_ops (\<lambda>_. Inr boot_mod) demo_config None boot_test boot_world = (Inr tr, w')"
proof -
  let ?a = "test_artifact_dir (rc_artifacts_root demo_config) None boot_test"
  let ?m = "mkdir_parents ?a"
  have a: "?a = Path [] [''artifacts'', ''prereqs'', ''demo'']"
    by (simp add: demo_config_def boot_test_def demo_test_def) code_simp
  obtain w1 where w1: "print_test_heading boot_test boot_world = (Inr (), w1)"
    "w_files w1 = w_files boot_world" "w_dirs w1 = w_dirs boot_world" "w_environment w1 = None"
    by (simp add: print_test_heading_def flush_run boot_world_def empty_world_def)
  have pre: "path_prefixes ?a = [Path [] [], Path [] [''artifacts''], Path [] [''artifacts'', ''prereqs''],
      Path [] [''artifacts'', ''prereqs'', ''demo'']]"
    by (simp add: a upt_rec)
  obtain w2 where w2: "?m w1 = (Inr (), w2)" "bootable w2"
    using w1 unfolding mkdir_parents_def pre
    by (auto simp: bootable_def boot_world_def empty_world_def)
  obtain w3 where w3: "flush_line (''   Artifacts: '' @ path_str ?a) w2 = (Inr (), w3)" "bootable w3"
    using w2(2) by (simp only: flush_run) (simp add: bootable_def)
  have run: "\<exists>tr s'. run_steps guest_ops boot_mod demo_config boot_test ?a t [boot_step]
      (initial_state demo_config boot_test ?a None w3) = (Inr tr, s')" for t
  proof -
    let ?s = "initial_state demo_config boot_test ?a None w3"
    have dbg: "rc_debug demo_config = False" by (simp add: demo_config_def)
    obtain s3 where st: "exec_steps guest_ops boot_mod (rc_debug demo_config) (rc_guest_path demo_config) ?a
        [boot_step] ?s = (Inr (), s3)"
      using boot_steps_run [OF boot_initial [OF w3(2)]] unfolding dbg by blast
    obtain w4 where w4: "flush_line (summary_line (es_overall s3) (es_results s3) (length [boot_step])) (es_world s3)
        = (Inr (), w4)"
      by (simp only: flush_run)
    obtain tr where f: "finish_test guest_ops boot_test t (length [boot_step]) s3 = (Inr tr, s3\<lparr>es_world := w4\<rparr>)"
      using w4 by (simp add: finish_test_def ibind_def iseq_def in_world_def guest_ops_run)
    have "\<exists>s5. stop_leftover guest_ops (s3\<lparr>es_world := w4\<rparr>) = (Inr (), s5)"
    proof (cases "es_launch s3")
      case (Some l)
      obtain w5 where "stop_vm guest_ops l 10 w4 = (Inr (), w5)" using guest_ops_run(6) by blast
      then show ?thesis using Some by (simp add: stop_leftover_def in_world_def)
    qed (simp add: stop_leftover_def)
    then show ?thesis using st f by (auto simp: run_steps_def ifinally_def iseq_def ibind_def)
  qed
  have plan: "load_test_execution_plan (\<lambda>_. Inr boot_mod) boot_test w = (Inr ([boot_step], None), w)"
    "import_test_module (\<lambda>_. Inr boot_mod) boot_test = Inr boot_mod" for w
    by (simp_all add: load_test_execution_plan_def import_test_module_def boot_mod_def)
  obtain tr s' where fin: "run_steps guest_ops boot_mod demo_config boot_test ?a ''2026-01-01T00:00:00+00:00'' [boot_step]
      (initial_state demo_config boot_test ?a None w3) = (Inr tr, s')"
    using run by blast
  have "execute_test guest_ops (\<lambda>_. Inr boot_mod) demo_config None boot_test boot_world = (Inr tr, es_world s')"
    unfolding execute_test_def Let_def iseq_def
    by (simp only: ibind_def ilift_def itry_any_def iret_def guest_ops_run(4) w1(1) w2(1) w3(1) fin plan prod.case sum.case)
  then show ?thesis by blast
qed

theorem no_guest_outlives_test_witness:
  "\<exists>tr w'. execute_test guest_ops (\<lambda>_. Inr boot_mod) demo_config None boot_test boot_world = (Inr tr, w')
     \<and> fst (w_ext w') = {}"
proof -
  obtain tr w' where r: "execute_test guest_ops (\<lambda>_. Inr boot_mod) demo_config None boot_test boot_world = (Inr tr, w')"
    using boot_runs by blast
  have t: "tidy_handlers fst m" if "import_test_module (\<lambda>_. Inr boot_mod) boot_test = Inr m" for m
    using that by (auto simp: import_test_module_def boot_mod_def tidy_handlers_def shrinks_def)
  have "fst (w_ext w') \<subseteq> fst (w_ext boot_world)"
    by (rule no_guest_outlives_test [OF guest_ops_laws t r])
  with r show ?thesis by (auto simp: boot_world_def empty_world_def)
qed

section \<open>The guest that nobody stops\<close>

text \<open>
  A launch interrupted after QEMU was started, by anything but a launch error (a reset
  connection to the agent, say), ends the test with that exception before the guest is recorded:
  the \<^verbatim>\<open>finally\<close> clause finds no guest and leaves the machine as the launch left it, with QEMU
  running.
\<close>

theorem interrupted_launch_leaks:
  assumes step: "step_kind step = VmLaunch" "step_guest_id step \<noteq> []"
    and s: "ctx_profile (es_ctx s) = Some p" "es_launch s = None"
    and plain: "\<not> op_is_tty ops" "\<not> rc_debug cfg"
    and raised: "vm_launch ops p (es_world s) = (Inl e, w1)" "\<not> is_a e VMProfileError"
  shows "\<exists>s'. run_steps ops m cfg test a started (step # rest) s = (Inl e, s') \<and> es_world s' = w1"
proof -
  let ?s1 = "snd (refresh_ctx s)"
  have s1: "ctx_profile (es_ctx ?s1) = Some p" "es_launch ?s1 = None" "es_world ?s1 = es_world s"
    using s by (simp_all add: refresh_ctx_def)
  have l: "run_vm_launch_step ops step p (es_world s) = (Inl e, w1)"
    using raised by (simp add: run_vm_launch_step_def now_def Let_def ibind_def itry_def)
  have k: "exec_kind ops m False (rc_guest_path cfg) a step ?s1 = (Inl e, ?s1\<lparr>es_world := w1\<rparr>)"
    using step s1 l
    by (simp add: exec_kind_def Let_def exec_vm_launch_def ibind_def effective_guest_id_def in_world_def)
  have pre: "begin_step ops step rest s = (Inr (), ?s1)"
    using plain by (simp add: begin_step_def refresh_ctx_def iwhen_def)
  have "exec_step ops m False (rc_guest_path cfg) a step rest s = (Inl e, ?s1\<lparr>es_world := w1\<rparr>)"
    unfolding exec_step_def using pre k by (simp add: iseq_def ibind_def)
  then have "run_steps ops m cfg test a started (step # rest) s = (Inl e, ?s1\<lparr>es_world := w1\<rparr>)"
    using plain s1 by (simp add: run_steps_def ifinally_def iseq_def ibind_def stop_leftover_def)
  then show ?thesis by simp
qed

text \<open>The same machine, with an agent that resets the connection.\<close>

definition reset_ops :: "(int set \<times> bytes list) ops" where
  "reset_ops = guest_ops\<lparr>op_recv := (\<lambda>sock. ithrow (Exc ConnectionError ''reset''))\<rparr>"

lemma reset_launch:
  assumes "bootable w"
  shows "\<exists>w1. vm_launch reset_ops boot_profile w = (Inl (Exc ConnectionError ''reset''), w1) \<and> fst (w_ext w1) = {4242}"
proof -
  obtain w2 where logs: "prepare_logs boot_profile w = (Inr (), w2)" using boot_logs [OF assms] by blast
  obtain cmd where cmd: "build_qemu_command boot_profile w = Inr cmd"
    using boot_validate [OF assms] build_qemu_total by blast
  let ?w3 = "w2\<lparr>w_ext := ({4242}, [encode ''{\"ok\": true}''])\<rparr>"
  let ?w4 = "?w3\<lparr>w_clock := max (w_clock ?w3 + 2000000) (w_clock ?w3)\<rparr>"
  let ?e = "Exc ConnectionError ''reset''"
  have o: "sleep reset_ops us u = (Inr (), u\<lparr>w_clock := max (w_clock u + us) (w_clock u)\<rparr>)"
    "ext (op_poll reset_ops i) u = (Inr None, u)"
    "ext (op_popen reset_ops args f) u = (Inr 4242, u\<lparr>w_ext := ({4242}, [encode ''{\"ok\": true}''])\<rparr>)" for us u i args f
    by (simp_all add: sleep_def ext_def reset_ops_def guest_ops_def idle_ops_def)
  have r: "recv_loop reset_ops 0 m [] 0 u = (Inl ?e, u)" for m u
  proof -
    have "recv_part reset_ops 0 u = (Inl ?e, u)"
      by (simp add: recv_part_def itry_def ext_def reset_ops_def is_a_def)
    then show ?thesis by (simp add: recv_loop.simps [of reset_ops])
  qed
  have q: "vsock_request reset_ops p j t u = (Inl ?e, u)" for p j t u
  proof -
    have "ext (op_connect reset_ops i j k) u = (Inr 0, u)" "ext (op_sendall reset_ops 0 b) u = (Inr (), u)"
      "ext (op_close reset_ops 0) u = (Inr (), u)" for i j k b u
      by (simp_all add: ext_def reset_ops_def guest_ops_def idle_ops_def)
    then show ?thesis
      using r by (simp add: vsock_request_def vsock_connect_def send_request_def read_response_def
          ibind_def iseq_def itry_def ifinally_def)
  qed
  have ping: "ping_guest reset_ops p u = (Inl ?e, u)" for p u
    by (simp add: ping_guest_def now_def ibind_def q)
  have ready: "check_guest_ready reset_ops boot_profile None (Some 4242) ?w4 = (Inl ?e, ?w4)"
    using ping by (simp add: check_guest_ready_def wait_for_guest_def itry_def iseq_def ibind_def is_a_def
        wait_loop.simps [of reset_ops] boot_profile_simps mk_profile_def)
  have "vm_launch reset_ops boot_profile w = (Inl ?e, ?w4)"
    using boot_validate [OF assms] cmd logs ready
    by (simp add: vm_launch_unfold iseq_def ibind_def o launched_def)
  then show ?thesis by simp
qed

theorem interrupted_launch_leaks_witness:
  "\<exists>s'. run_steps reset_ops boot_mod demo_config boot_test (Path [] []) [] [boot_step]
      (initial_state demo_config boot_test (Path [] []) None boot_world)
    = (Inl (Exc ConnectionError ''reset''), s') \<and> fst (w_ext (es_world s')) = {4242}"
proof -
  let ?s = "initial_state demo_config boot_test (Path [] []) None boot_world"
  have b: "bootable boot_world" by (simp add: bootable_def boot_world_def empty_world_def)
  obtain w1 where w1: "vm_launch reset_ops boot_profile (es_world ?s) = (Inl (Exc ConnectionError ''reset''), w1)"
    "fst (w_ext w1) = {4242}"
    using reset_launch [OF b] by (auto simp: initial_state_def)
  have h: "step_kind boot_step = VmLaunch" "step_guest_id boot_step \<noteq> []"
    "ctx_profile (es_ctx ?s) = Some boot_profile" "es_launch ?s = None"
    "\<not> op_is_tty reset_ops" "\<not> rc_debug demo_config" "\<not> is_a (Exc ConnectionError ''reset'') VMProfileError"
    by (simp_all add: boot_step_def sf_common_def mk_factory_def initial_state_def boot_test_def
        demo_config_def requires_vm_def boot_profile_def reset_ops_def guest_ops_def idle_ops_def is_a_def)
  from interrupted_launch_leaks [OF h(1-6) w1(1) h(7)] w1(2) show ?thesis by metis
qed

end
