(* ===== verification/Guest_States.thy ===== *)
theory Guest_States
  imports Lifecycle
begin

text \<open>
  The abstract life of the guest of a test, as a transition system over three states, and the
  proof that the step executors follow it.
\<close>

datatype guest_state = Off | Up | Unready

text \<open>
  A guest starts on a \<^verbatim>\<open>vm_launch\<close> step or on the first step that needs it, with or without
  its agent; only \<^verbatim>\<open>vm_stop\<close> ends it. Every step may also leave it as it is.
\<close>

inductive guest_step :: "step_kind \<Rightarrow> guest_state \<Rightarrow> guest_state \<Rightarrow> bool" where
  boots: "k \<in> {VmLaunch, Guest, GuestPull} \<Longrightarrow> guest_step k Off Up"
| fails_to_boot: "k \<in> {VmLaunch, Guest, GuestPull} \<Longrightarrow> guest_step k Off Unready"
| stops: "guest_step VmStop g Off"
| stays: "guest_step k g g"

inductive_cases guest_step_Up: "guest_step k Up g"
inductive_cases guest_step_Unready: "guest_step k Unready g"
inductive_cases guest_step_Off: "guest_step k Off g"

inductive guest_path :: "step_kind list \<Rightarrow> guest_state \<Rightarrow> guest_state \<Rightarrow> bool" where
  finished: "guest_path [] g g"
| more: "guest_step k g g1 \<Longrightarrow> guest_path ks g1 g2 \<Longrightarrow> guest_path (k # ks) g g2"

inductive_simps guest_path_Nil: "guest_path [] g g'"
inductive_simps guest_path_Cons: "guest_path (k # ks) g g'"

text \<open>Without a \<^verbatim>\<open>vm_stop\<close> a started guest keeps its state: one that did not boot is not retried.\<close>

lemma started_stays:
  assumes "guest_path ks g g'" "VmStop \<notin> set ks" "g \<noteq> Off"
  shows "g' = g"
  using assms
proof (induction rule: guest_path.induct)
  case (more k g g1 ks g2)
  have "g1 = g"
    using more.hyps(1) more.prems by (cases g) (auto elim: guest_step_Up guest_step_Unready)
  with more show ?case by simp
qed simp

definition guest_of :: "'e exec_state \<Rightarrow> guest_state" where
  "guest_of s = (case es_launch s of None \<Rightarrow> Off | Some l \<Rightarrow> if lr_ok l then Up else Unready)"

lemma guest_of_simps:
  "es_launch s = None \<Longrightarrow> guest_of s = Off"
  "es_launch s = Some l \<Longrightarrow> guest_of s = (if lr_ok l then Up else Unready)"
  by (simp_all add: guest_of_def)

lemma guest_of_cong: "es_launch s' = es_launch s \<Longrightarrow> guest_of s' = guest_of s"
  by (simp add: guest_of_def)

text \<open>What does not touch the guest.\<close>

definition same_guest :: "launch_result option \<Rightarrow> 'e exec_state \<Rightarrow> bool" where
  "same_guest l s \<longleftrightarrow> es_launch s = l"

interpretation rounds: round_invariant "same_guest l" ops for l ops
  by unfold_locales (auto simp: same_guest_def keeps_def in_world_def split: prod.splits)

lemma in_world_guest: "in_world m s = (r, s') \<Longrightarrow> es_launch s' = es_launch s"
  by (auto simp: in_world_def split: prod.splits)

lemma in_ctx_guest: "in_ctx m s = (r, s') \<Longrightarrow> es_launch s' = es_launch s"
  by (auto simp: in_ctx_def split: prod.splits)

lemma exec_vm_launch_guest:
  assumes "exec_vm_launch ops debug a step s = (Inr sr, s')"
  shows "guest_of s' = guest_of s \<or> guest_of s = Off"
  using assms by (cases "ctx_profile (es_ctx s)"; cases "es_launch s") (auto simp: exec_vm_launch_def guest_of_def)

lemma auto_launch_guest:
  assumes "auto_launch ops step p s = (Inr x, s')"
  shows "guest_of s' = guest_of s \<or> guest_of s = Off"
  using assms by (cases "es_launch s") (auto simp: auto_launch_def guest_of_def)

lemma exec_guest_guest:
  assumes "exec_guest ops a step s = (Inr sr, s')"
  shows "(guest_of s' = guest_of s \<or> guest_of s = Off) \<and> (sr_result sr \<noteq> Error \<longrightarrow> guest_of s' = Up)"
proof (cases "ctx_profile (es_ctx s)")
  case None
  then show ?thesis using assms by (auto simp: exec_guest_def no_duration_error_def)
next
  case (Some p)
  with assms obtain failed s1 where f: "auto_launch ops step p s = (Inr failed, s1)"
    and rest: "(case es_launch s1 of
           None \<Rightarrow> (case failed of Some sr \<Rightarrow> iret sr
                    | None \<Rightarrow> ithrow (Exc UnboundLocalError ''sr''))
         | Some l \<Rightarrow>
             if \<not> lr_ok l then iret (error_result step (lr_message l) (Some 0))
             else if step_kind step = Guest then in_world (run_guest_step ops step (lr_profile l))
             else in_world (run_guest_pull_step ops step (lr_profile l) (Some a))) s1 = (Inr sr, s')"
    by (auto simp: exec_guest_def ibind_eq_Inr)
  show ?thesis
  proof (cases "es_launch s1")
    case None
    have "auto_launch ops step p s = (Inr (Some sr), s1)" "s' = s1"
      using f rest None by (auto split: option.splits)
    moreover have "returns (\<lambda>x. case x of None \<Rightarrow> True | Some r \<Rightarrow> sr_result r = Error) (auto_launch ops step p)"
      unfolding auto_launch_def by (intro returns_intro) simp_all
    ultimately show ?thesis using auto_launch_guest [of ops step p s "Some sr" s1] by (auto dest: returnsD)
  next
    case (Some l)
    then have "guest_of s' = guest_of s1" "sr_result sr \<noteq> Error \<longrightarrow> lr_ok l"
      using rest by (auto split: if_splits dest: in_world_guest intro: guest_of_cong)
    then show ?thesis using auto_launch_guest [OF f] Some by (auto simp: guest_of_def)
  qed
qed

lemma exec_vm_stop_guest:
  assumes "exec_vm_stop ops debug step s = (Inr x, s')"
  shows "guest_of s' = guest_of s \<or> guest_of s' = Off"
proof (cases "es_launch s")
  case None
  then show ?thesis using assms by (auto simp: exec_vm_stop_def)
next
  case (Some l)
  let ?j = "if debug then
                  in_world (itry GuestVsockError
                    (ibind (fetch_guest_journal ops (lr_profile l) None)
                       (\<lambda>g. iret (Some (gcr_stdout g))))
                    (\<lambda>_. iret None))
                else iret None"
  obtain j s1 sr s2 where j: "?j s = (Inr j, s1)"
    and st: "in_world (run_vm_stop_step ops step l) s1 = (Inr sr, s2)"
    and fin: "s' = (if sr_result sr \<noteq> Error then s2\<lparr>es_launch := None\<rparr> else s2)"
    using assms Some by (auto simp: exec_vm_stop_def iseq_def ibind_eq_Inr set_launch_def split: if_splits)
  have "es_launch s1 = es_launch s" using j by (auto split: if_splits dest: in_world_guest)
  then show ?thesis using in_world_guest [OF st] fin by (auto simp: guest_of_def)
qed

text \<open>The executor of a step moves the guest along one transition.\<close>

lemma exec_kind_guest:
  assumes "exec_kind ops m debug g a step s = (Inr (sr, stopped, j), s')"
  shows "guest_step (step_kind step) (guest_of s) (guest_of s') \<and>
    (step_kind step \<in> {Guest, GuestPull} \<longrightarrow> sr_result sr \<noteq> Error \<longrightarrow> guest_of s' = Up)"
proof -
  have start: "guest_step k (guest_of s) g'" if "k \<in> {VmLaunch, Guest, GuestPull}"
    "g' = guest_of s \<or> guest_of s = Off" for k g'
    using that by (cases "guest_of s"; cases g') (auto intro: guest_step.intros)
  show ?thesis
  proof (cases "step_kind step")
    case VmLaunch
    then have "exec_vm_launch ops debug a step s = (Inr sr, s')"
      using assms by (auto simp: exec_kind_def Let_def ibind_eq_Inr)
    from exec_vm_launch_guest [OF this] VmLaunch show ?thesis by (simp add: start)
  next
    case VmStop
    then have "exec_vm_stop ops debug step s = (Inr (sr, stopped, j), s')"
      using assms by (simp add: exec_kind_def Let_def)
    from exec_vm_stop_guest [OF this] VmStop show ?thesis by (auto intro: guest_step.intros)
  next
    case Guest
    then have "exec_guest ops a step s = (Inr sr, s')"
      using assms by (auto simp: exec_kind_def Let_def ibind_eq_Inr)
    from exec_guest_guest [OF this] Guest show ?thesis by (simp add: start)
  next
    case GuestPull
    then have "exec_guest ops a step s = (Inr sr, s')"
      using assms by (auto simp: exec_kind_def Let_def ibind_eq_Inr)
    from exec_guest_guest [OF this] GuestPull show ?thesis by (simp add: start)
  next
    case Host
    then have "in_world (run_step ops step g (Some a)) s = (Inr sr, s')"
      using assms by (auto simp: exec_kind_def Let_def ibind_eq_Inr)
    from guest_of_cong [OF in_world_guest [OF this]] Host show ?thesis by (simp add: stays)
  next
    case Callable
    then have "in_ctx (run_callable_step m step) s = (Inr sr, s')"
      using assms by (auto simp: exec_kind_def Let_def ibind_eq_Inr)
    from guest_of_cong [OF in_ctx_guest [OF this]] Callable show ?thesis by (simp add: stays)
  next
    case (OtherKind k)
    then show ?thesis using assms by (auto simp: exec_kind_def Let_def stays)
  qed
qed

lemma exec_step_guest:
  assumes "exec_step ops m debug g a step rest s = (Inr go, s')"
  shows "guest_step (step_kind step) (guest_of s) (guest_of s')"
proof -
  obtain s1 sr stopped journal s2 where s1: "begin_step ops step rest s = (Inr (), s1)"
    and k: "exec_kind ops m debug g a step s1 = (Inr (sr, stopped, journal), s2)"
    and post: "after_step ops step rest sr stopped journal s2 = (Inr go, s')"
    using assms by (rule exec_step_cases)
  have 1: "es_launch s1 = es_launch s"
    using keeps_run [OF rounds.keeps_begin s1, of "es_launch s"] by (simp add: same_guest_def)
  have "same_guest (es_launch s2) (snd (after_step ops step rest sr stopped journal s2))"
    by (rule keepsD [OF rounds.keeps_after]) (simp only: same_guest_def)
  then have "es_launch s' = es_launch s2"
    unfolding post same_guest_def by (simp only: snd_conv)
  then show ?thesis using exec_kind_guest [OF k] guest_of_cong [OF 1] guest_of_cong by metis
qed



text \<open>
  The state of the guest decides what can happen next: a guest that is up, or one that did
  not boot, stays so until a \<^verbatim>\<open>vm_stop\<close> step, so a failed boot is never retried behind the
  test's back; and a command ran on the guest only if it is up afterwards.
\<close>

theorem started_guest_stays:
  assumes "exec_kind ops m debug g a step s = (Inr (sr, stopped, j), s')"
  shows "(guest_of s \<noteq> Off \<and> step_kind step \<noteq> VmStop \<longrightarrow> guest_of s' = guest_of s) \<and>
    (step_kind step \<in> {Guest, GuestPull} \<and> sr_result sr \<noteq> Error \<longrightarrow> guest_of s' = Up)"
proof -
  have t: "guest_step (step_kind step) (guest_of s) (guest_of s')"
    and u: "step_kind step \<in> {Guest, GuestPull} \<longrightarrow> sr_result sr \<noteq> Error \<longrightarrow> guest_of s' = Up"
    using exec_kind_guest [OF assms] by auto
  show ?thesis using t u by (cases "guest_of s") (auto elim: guest_step_Up guest_step_Unready)
qed

theorem started_guest_stays_witness:
  "\<exists>sr s'. exec_kind guest_ops boot_mod False (Path [] []) (Path [] []) boot_step
        (initial_state demo_config boot_test (Path [] []) None boot_world) = (Inr (sr, None, None), s') \<and>
     (step_kind boot_step \<in> {Guest, GuestPull} \<and> sr_result sr \<noteq> Error \<longrightarrow> guest_of s' = Up)"
proof -
  have b: "bootable boot_world" by (simp add: bootable_def boot_world_def empty_world_def)
  obtain sr s' where r: "exec_kind guest_ops boot_mod False (Path [] []) (Path [] []) boot_step
      (initial_state demo_config boot_test (Path [] []) None boot_world) = (Inr (sr, None, None), s')"
    using boot_exec [OF boot_initial [OF b]] by blast
  from started_guest_stays [OF r] r show ?thesis by blast
qed

end
