(* ===== verification/Test_Kit.thy ===== *)
theory Test_Kit
  imports Certify
begin

text \<open>
  What the test modules under \<^verbatim>\<open>cert_tests\<close> share: the calls of the host's tools, the results
  their handlers return, the dictionaries they print, and where a result of a run comes from.
\<close>

section \<open>Handlers\<close>

text \<open>\<^verbatim>\<open>subprocess.run(args, capture_output=True, text=True, timeout=seconds)\<close>\<close>

definition run_tool :: "'e ops \<Rightarrow> string list \<Rightarrow> int \<Rightarrow> ('e world, completed) io" where
  "run_tool ops args seconds = ext (op_run ops (Argv args) [] (Some seconds))"

text \<open>\<^verbatim>\<open>StepHandlerResult(exit_code=..., stdout=..., stderr=..., command=...)\<close>\<close>

definition handler_returns :: "int \<Rightarrow> string \<Rightarrow> string \<Rightarrow> string option \<Rightarrow> handler_result" where
  "handler_returns code out err cmd =
     \<lparr>hr_exit_code = code, hr_stdout = out, hr_stderr = err, hr_command = cmd\<rparr>"

lemma handler_returns_fields [simp]:
  "hr_exit_code (handler_returns c out err cmd) = c"
  "hr_stdout (handler_returns c out err cmd) = out"
  "hr_stderr (handler_returns c out err cmd) = err"
  "hr_command (handler_returns c out err cmd) = cmd"
  by (simp_all add: handler_returns_def)

text \<open>A handler that reads the context and acts on the machine; the context stays as it is.\<close>

definition as_handler :: "(ctx \<Rightarrow> ('e world, handler_result) io) \<Rightarrow> 'e attr" where
  "as_handler h = Fn (\<lambda>(c, w). case h c w of (r, w') \<Rightarrow> (map_sum id HandlerResult r, (c, w')))"

text \<open>The text of a dictionary of strings, \<^verbatim>\<open>str(d)\<close>.\<close>

definition dict_text :: "(string \<times> string) list \<Rightarrow> string" where
  "dict_text d = ''{'' @ join '', '' (map (\<lambda>(k, v). repr_str k @ '': '' @ repr_str v) d) @ ''}''"

text \<open>\<^verbatim>\<open>\w\<close> on ASCII\<close>

definition word_char :: "char \<Rightarrow> bool" where
  "word_char c = (py_alnum c \<or> c = CHR ''_'')"

section \<open>Where a result comes from\<close>

text \<open>
  Every result that is not a skip was produced by the executor of its step, in a state whose
  context still satisfies what the loop and the handlers keep true of it.
\<close>

definition ctx_kept :: "(ctx \<Rightarrow> bool) \<Rightarrow> 'e test_mod \<Rightarrow> bool" where
  "ctx_kept P m \<longleftrightarrow>
     (\<forall>c l rs. P c \<longrightarrow> P (c\<lparr>ctx_launch := l, ctx_step_results := rs\<rparr>)) \<and>
     (\<forall>c p. P c \<longrightarrow> P (c\<lparr>ctx_profile := p\<rparr>)) \<and>
     (\<forall>name fn c w. map_of (tm_attrs m) name = Some (Fn fn) \<longrightarrow> P c \<longrightarrow> P (fst (snd (fn (c, w)))))"

definition produced ::
  "'e ops \<Rightarrow> 'e test_mod \<Rightarrow> bool \<Rightarrow> path \<Rightarrow> path \<Rightarrow> (ctx \<Rightarrow> bool) \<Rightarrow> step_result \<Rightarrow> bool" where
  "produced ops m debug g a P r \<longleftrightarrow>
     (\<exists>s x s'. P (es_ctx s) \<and> exec_kind ops m debug g a (sr_step r) s = (Inr (r, x), s'))"

definition in_ctx_of :: "(ctx \<Rightarrow> bool) \<Rightarrow> 'e exec_state \<Rightarrow> bool" where
  "in_ctx_of P s \<longleftrightarrow> P (es_ctx s)"

lemma ctx_keeps:
  assumes "ctx_kept P m"
  shows "keeps (in_ctx_of P) (in_world c)" "keeps (in_ctx_of P) (set_launch l)"
    "keeps (in_ctx_of P) (set_ctx_profile p)" "keeps (in_ctx_of P) refresh_ctx"
    "keeps (in_ctx_of P) (set_overall v)"
  using assms
  by (auto simp: keeps_def in_ctx_of_def in_world_def set_launch_def set_ctx_profile_def
      refresh_ctx_def set_overall_def ctx_kept_def split: prod.splits)

lemma ctx_keeps_callable:
  assumes "ctx_kept P m"
  shows "keeps (in_ctx_of P) (in_ctx (run_callable_step m step))"
proof -
  have fn: "P (fst (snd (call_handler f t (c, w))))"
    if "map_of (tm_attrs m) name = Some (Fn f)" "P c" for f t c w name
  proof -
    obtain r c' w' where "f (c, w) = (r, (c', w'))" by (metis prod.collapse)
    moreover have "P (fst (snd (f (c, w))))" using assms that unfolding ctx_kept_def by blast
    ultimately show ?thesis by (simp add: call_handler_def Let_def)
  qed
  have "P (fst (snd (run_callable_step m step (c, w))))" if "P c" for c w
  proof (cases "map_of (tm_attrs m) (step_handler step)")
    case (Some at)
    show ?thesis
    proof (cases at)
      case (Fn f)
      obtain out s' where c: "call_handler f (step_timeout step) (c, w) = (out, s')"
        by (cases "call_handler f (step_timeout step) (c, w)")
      have "snd (run_callable_step m step (c, w)) = s'"
        using Some Fn c
        by (cases out) (auto simp: run_callable_step_def Let_def split: handler_value.splits)
      then show ?thesis using fn [of _ f c "step_timeout step" w] Some Fn c that by auto
    qed (use that Some in \<open>simp add: run_callable_step_def\<close>)
  qed (use that in \<open>simp add: run_callable_step_def\<close>)
  then show ?thesis unfolding keeps_def in_ctx_of_def in_ctx_def
    by (auto split: prod.splits) (metis fst_conv snd_conv)
qed

lemma ctx_keeps_exec_kind:
  assumes P: "ctx_kept P m"
  shows "keeps (in_ctx_of P) (exec_kind ops m debug g a step)"
proof -
  have plain: "keeps (in_ctx_of P) (ibind run (\<lambda>sr. iret (sr, None, None)))"
    if "keeps (in_ctx_of P) run" for run :: "('a exec_state, step_result) io"
    by (intro keeps_ibind that keeps_pure)
  have auto_launch: "keeps (in_ctx_of P) (auto_launch ops step p)" for p
    unfolding auto_launch_def by (intro keeps_intro ctx_keeps [OF P])
  have "keeps (in_ctx_of P) (exec_vm_launch ops debug a step)"
    unfolding exec_vm_launch_def by (intro keeps_intro ctx_keeps [OF P])
  moreover have "keeps (in_ctx_of P) (exec_vm_stop ops debug step)"
    unfolding exec_vm_stop_def by (intro keeps_intro ctx_keeps [OF P])
  moreover have "keeps (in_ctx_of P) (exec_guest ops a step)"
    unfolding exec_guest_def by (intro keeps_intro auto_launch ctx_keeps [OF P])
  ultimately show ?thesis
    by (cases "step_kind step")
      (simp_all add: exec_kind_def Let_def plain ctx_keeps [OF P] ctx_keeps_callable [OF P] keeps_pure)
qed

lemma ctx_rounds: "ctx_kept P m \<Longrightarrow> round_invariant (in_ctx_of P) ops"
  by unfold_locales (auto simp: ctx_kept_def in_ctx_of_def keeps_def in_world_def split: prod.splits)

text \<open>What a round records first is the result of its step.\<close>

definition recorded :: "step_result list \<Rightarrow> 'e exec_state \<Rightarrow> bool" where
  "recorded rs s \<longleftrightarrow> (\<exists>more. es_results s = rs @ more)"

lemma after_step_appends:
  assumes "after_step ops step rest sr stopped journal s = (Inr go, t)"
  shows "\<exists>more. es_results t = es_results s @ sr # more"
proof -
  let ?I = "recorded (es_results s @ [sr])"
  have step: "keeps ?I (in_world m)" "keeps ?I (set_overall v)"
    "keeps ?I (imodify (\<lambda>s. s\<lparr>es_results := es_results s @ [r]\<rparr>))"
    "keeps ?I (imodify (\<lambda>s. s\<lparr>es_logger := lg\<rparr>))" for m v r lg
    by (auto simp: keeps_def recorded_def in_world_def set_overall_def split: prod.splits)
  have skip: "keeps ?I (skip_rest steps)" for steps
  proof (induction steps)
    case (Cons u us)
    then show ?case unfolding skip_rest.simps Let_def by (intro keeps_iseq step)
  qed (simp only: skip_rest.simps keeps_pure)
  have log: "keeps ?I (log_exec ops step sr stopped journal)"
    unfolding log_exec_def Let_def by (intro keeps_pure keeps_ibind keeps_prod keeps_option step)
  let ?rest = "iseq (log_exec ops step sr stopped journal)
     (iseq (in_world (flush_line (step_result_line sr (rest = []))))
           (if failed_result sr then
              iseq (in_world (print_failure step sr (rest = [])))
                (if step_type step = Setup then
                   iseq (set_overall Fail) (iseq (skip_rest rest) (iret False))
                 else if step_type step = Required then
                   iseq (set_overall Fail) (iret True)
                 else iret True)
            else iret True))"
  have k: "keeps ?I ?rest" by (intro keeps_iseq keeps_if keeps_pure step skip log)
  have run: "?rest (s\<lparr>es_results := es_results s @ [sr]\<rparr>) = (Inr go, t)"
    using assms unfolding after_step_def Let_def bind_simps .
  have "?I (snd (?rest (s\<lparr>es_results := es_results s @ [sr]\<rparr>)))"
    by (rule keepsD [OF k]) (simp add: recorded_def)
  then show ?thesis unfolding run snd_conv recorded_def by simp
qed

lemma exec_steps_produced:
  assumes P: "ctx_kept P m"
    and "exec_steps ops m debug g a steps s = (Inr u, s')" and "P (es_ctx s)"
  shows "\<exists>rs. es_results s' = es_results s @ rs \<and>
    (\<forall>r \<in> set rs. sr_result r = Skip \<or> produced ops m debug g a P r)"
  using assms(2,3)
proof (induction steps arbitrary: s)
  case Nil
  then show ?case by simp
next
  case (Cons step rest)
  obtain go t where e: "exec_step ops m debug g a step rest s = (Inr go, t)"
    and more: "(if go then exec_steps ops m debug g a rest else iret ()) t = (Inr u, s')"
    using Cons.prems(1) by (auto simp: ibind_eq_Inr)
  obtain s1 sr stopped journal s2 where b: "begin_step ops step rest s = (Inr (), s1)"
    and k: "exec_kind ops m debug g a step s1 = (Inr (sr, stopped, journal), s2)"
    and post: "after_step ops step rest sr stopped journal s2 = (Inr go, t)"
    using e by (rule exec_step_cases)
  note rounds = ctx_rounds [OF P, of ops]
  from keeps_run [OF round_invariant.keeps_begin [OF rounds] b] have 1: "in_ctx_of P s1" using Cons.prems(2) by (simp add: in_ctx_of_def)
  from keeps_run [OF ctx_keeps_exec_kind [OF P] k this] have "in_ctx_of P s2" .
  from keeps_run [OF round_invariant.keeps_after [OF rounds] post this] have Pt: "P (es_ctx t)" by (simp add: in_ctx_of_def)
  have st: "sr_step sr = step" using returnsD [OF returns_exec_kind k] by (simp add: good_result_def)
  then have made: "produced ops m debug g a P sr"
    using k 1 unfolding produced_def in_ctx_of_def by blast
  obtain r where r: "es_results t = es_results s @ r # (if is_fatal step r then map (\<lambda>u. mk_step_result u Skip) rest else [])"
    "go = (\<not> is_fatal step r)"
    by (rule exec_step_books [OF e])
  have "es_results t ! length (es_results s) = sr"
  proof -
    have books: "keeps (books (es_results s) (es_overall s)) (begin_step ops step rest)"
      unfolding begin_step_def by (intro books_intro)
    have "es_results s2 = es_results s"
      using keeps_run [OF books_exec_kind k keeps_run [OF books b]] by (simp add: books_def)
    moreover have "\<exists>more. es_results t = es_results s2 @ sr # more"
      using after_step_appends [OF post] .
    ultimately show ?thesis by auto
  qed
  then have sr: "r = sr" using r(1) by (simp add: nth_append)
  show ?case
  proof (cases go)
    case True
    with more Cons.IH [OF _ Pt] obtain rs where "es_results s' = es_results t @ rs"
      "\<forall>r \<in> set rs. sr_result r = Skip \<or> produced ops m debug g a P r" by auto
    then show ?thesis using r sr made True by (intro exI [of _ "sr # rs"]) auto
  next
    case False
    then have "s' = t" using more by simp
    then show ?thesis using r sr made
      by (intro exI [of _ "sr # (if is_fatal step r then map (\<lambda>u. mk_step_result u Skip) rest else [])"])
        (auto simp: mk_step_result_def)
  qed
qed

text \<open>The same for a whole test.\<close>

lemma execute_test_produced:
  assumes run: "execute_test ops mods cfg v test w = (Inr tr, w')"
    and m: "import_test_module mods test = Inr m"
    and load: "load_test_execution_plan mods test (loading_world ops test w) = (Inr (steps, declared), w1)"
    and P: "ctx_kept P m"
    and init: "P (es_ctx (initial_state cfg test (test_artifact_dir (rc_artifacts_root cfg) v test) declared w))"
  shows "\<forall>r \<in> set (tr_step_results tr). sr_result r = Skip \<or>
    produced ops m (rc_debug cfg) (rc_guest_path cfg) (test_artifact_dir (rc_artifacts_root cfg) v test) P r"
proof -
  let ?a = "test_artifact_dir (rc_artifacts_root cfg) v test"
  let ?load = "itry_any (ibind (load_test_execution_plan mods test) (\<lambda>plan. iret (Inr plan)))
      (\<lambda>e. iret (Inl e))"
  have l: "?load (loading_world ops test w) = (Inr (Inr (steps, declared)), w1)"
    by (simp add: itry_any_def ibind_def load)
  from run obtain started w2 where
    "(case run_steps ops m cfg test ?a started steps (initial_state cfg test ?a declared w2)
      of (r, s) \<Rightarrow> (r, es_world s)) = (Inr tr, w')"
    by (rule execute_test_begins) (auto simp: ibind_simps(1) [where m = ?load, OF l] Let_def iseq_def ibind_eq_Inr m)
  then obtain s' where
    r: "run_steps ops m cfg test ?a started steps (initial_state cfg test ?a declared w2) = (Inr tr, s')"
    by (cases "run_steps ops m cfg test ?a started steps (initial_state cfg test ?a declared w2)") auto
  then obtain s1 s2 where x: "exec_steps ops m (rc_debug cfg) (rc_guest_path cfg) ?a steps
      (initial_state cfg test ?a declared w2) = (Inr (), s1)"
    and f: "finish_test ops test started (length steps) s1 = (Inr tr, s2)"
    by (auto simp: run_steps_def ifinally_def iseq_def ibind_def split: prod.splits sum.splits)
  have "tr_step_results tr = es_results s1"
    using f by (auto simp: finish_test_def iseq_def ibind_eq_Inr)
  moreover have "P (es_ctx (initial_state cfg test ?a declared w2))"
    using init by (simp add: initial_state_def)
  from exec_steps_produced [OF P x this] have "\<forall>r \<in> set (es_results s1). sr_result r = Skip \<or>
      produced ops m (rc_debug cfg) (rc_guest_path cfg) ?a P r"
    by (auto simp: initial_state_def)
  ultimately show ?thesis by simp
qed

lemma check_expected_default:
  assumes "step_expected_result step = default_expected_result"
  shows "check_expected_values step code out = Inr (code = 0)"
proof -
  have "partition_at CHR '':'' default_expected_result = (''exit_code'', '':'', ''0'')" "py_int ''0'' = Some 0"
    by code_simp+
  then show ?thesis by (simp add: check_expected_values_def assms)
qed

text \<open>A callable step that passed: its handler returned, and met the expectation.\<close>

lemma callable_passed:
  assumes "step_kind (sr_step r) = Callable" "sr_result r = Pass"
    and "map_of (tm_attrs m) (step_handler (sr_step r)) = Some (as_handler h)"
    and "step_expected_result (sr_step r) = default_expected_result"
    and "produced ops m debug g a P r"
  shows "\<exists>c w hr w'. P c \<and> h c w = (Inr hr, w') \<and> hr_exit_code hr = 0"
proof -
  obtain s x s' where s: "P (es_ctx s)" "exec_kind ops m debug g a (sr_step r) s = (Inr (r, x), s')"
    using assms(5) unfolding produced_def by blast
  let ?step = "sr_step r"
  from s(2) assms(1) obtain s1 where "in_ctx (run_callable_step m ?step) s = (Inr r, s1)"
    by (auto simp: exec_kind_def Let_def ibind_eq_Inr)
  then obtain t where t: "run_callable_step m ?step (es_ctx s, es_world s) = (Inr r, t)"
    by (auto simp: in_ctx_def split: prod.splits)
  obtain q w' where q: "h (es_ctx s) (es_world s) = (q, w')" by (cases "h (es_ctx s) (es_world s)")
  have fn: "as_handler h = Fn (\<lambda>(c, w). case h c w of (r, w') \<Rightarrow> (map_sum id HandlerResult r, (c, w')))"
    by (simp add: as_handler_def)
  show ?thesis
  proof (cases q)
    case (Inl e)
    have "sr_result (projr (fst (run_callable_step m ?step (es_ctx s, es_world s)))) = Error"
      using q assms(3) unfolding fn Inl by (simp add: run_callable_step_def call_handler_def Let_def)
    then show ?thesis using t assms(2) by simp
  next
    case (Inr hr)
    have "sr_result (projr (fst (run_callable_step m ?step (es_ctx s, es_world s)))) = Pass \<Longrightarrow> hr_exit_code hr = 0"
      using q assms(3) unfolding fn Inr
      by (simp add: run_callable_step_def call_handler_def Let_def check_expected_default [OF assms(4)]
          pass_or_def split: if_splits)
    then have "hr_exit_code hr = 0" using t assms(2) by simp
    then show ?thesis using q Inr s(1) by blast
  qed
qed

section \<open>A machine to run test modules on\<close>

text \<open>
  Every command succeeds and prints the same text; there is no guest image, so no guest can be
  launched. A test runs to its end on it.
\<close>

definition tool_ops :: "string \<Rightarrow> 'e ops" where
  "tool_ops out = idle_ops\<lparr>op_run := (\<lambda>args env timeout. iret \<lparr>cp_returncode = 0, cp_stdout = out, cp_stderr = []\<rparr>)\<rparr>"

lemma tool_ops_simps [simp]:
  "run_tool (tool_ops out) args t w = (Inr \<lparr>cp_returncode = 0, cp_stdout = out, cp_stderr = []\<rparr>, w)"
  "op_is_tty (tool_ops out) = False"
  "ext (op_utcnow (tool_ops out)) w = (Inr ''2026-01-01T00:00:00+00:00'', w)"
  "ext (op_run (tool_ops out) a b c) w = (Inr \<lparr>cp_returncode = 0, cp_stdout = out, cp_stderr = []\<rparr>, w)"
  by (simp_all add: run_tool_def tool_ops_def idle_ops_def ext_def)

definition has_files :: "(path \<Rightarrow> bytes option) \<Rightarrow> 'e world \<Rightarrow> bool" where
  "has_files F w \<longleftrightarrow> w_files w = F"

definition settled :: "(path \<Rightarrow> bytes option) \<Rightarrow> vm_profile \<Rightarrow> 'e exec_state \<Rightarrow> bool" where
  "settled F p s \<longleftrightarrow> has_files F (es_world s) \<and> es_launch s = None \<and> es_logger s = None \<and>
     ctx_profile (es_ctx s) = Some p"

lemma unlaunchable_refused:
  assumes "F (path_of (vp_image_path p)) = None" "has_files F w"
  shows "\<exists>e. vm_launch ops p w = (Inl e, w) \<and> is_a e VMProfileError"
proof -
  have "vp_validate p w = Inl (Exc VMProfileError (''Guest image not found: '' @ vp_image_path p))"
    using assms by (simp add: vp_validate_def has_files_def is_file_def guard_not_def)
  from vm_launch_invalid [OF this] show ?thesis by auto
qed

lemma wf_step_checked: "wf_step step \<Longrightarrow> \<exists>b. check_expected_values step code out = Inr b"
  using check_expected_wf by blast

lemma settled_callable:
  assumes F: "has_files F w" and wf: "wf_step step"
    and h: "\<And>h c. map_of (tm_attrs m) (step_handler step) = Some h \<Longrightarrow>
      (\<exists>f. h = as_handler f \<and> keeps (has_files F) (f c))"
  shows "\<exists>r w'. run_callable_step m step (c, w) = (Inr r, (c, w')) \<and> has_files F w'"
proof (cases "map_of (tm_attrs m) (step_handler step)")
  case None
  then show ?thesis using F by (simp add: run_callable_step_def)
next
  case (Some at)
  then obtain f where f: "at = as_handler f" "keeps (has_files F) (f c)" using h by blast
  obtain q w1 where q: "f c w = (q, w1)" by (cases "f c w")
  have F1: "has_files F w1" by (rule keeps_run [OF f(2) q F])
  let ?w = "w1\<lparr>w_clock := max (w_clock w) (w_clock w1)\<rparr>"
  have F2: "has_files F ?w" using F1 by (simp add: has_files_def)
  have "\<exists>out. call_handler (\<lambda>(c, w). case f c w of (r, w') \<Rightarrow> (map_sum id HandlerResult r, (c, w')))
      (step_timeout step) (c, w) = (out, (c, ?w)) \<and>
      (\<forall>v. out = CallValue v \<longrightarrow> (\<exists>hr. v = HandlerResult hr))"
    using q by (cases q) (auto simp: call_handler_def Let_def)
  then obtain out where out: "call_handler (\<lambda>(c, w). case f c w of (r, w') \<Rightarrow> (map_sum id HandlerResult r, (c, w')))
      (step_timeout step) (c, w) = (out, (c, ?w))" "\<And>v. out = CallValue v \<Longrightarrow> \<exists>hr. v = HandlerResult hr" by blast
  have "\<exists>r. run_callable_step m step (c, w) = (Inr r, (c, ?w))"
  proof (cases out)
    case (CallValue v)
    with out(2) obtain hr where v: "out = CallValue (HandlerResult hr)" by blast
    obtain b where "check_expected_values step (hr_exit_code hr) (hr_stdout hr) = Inr b"
      using wf_step_checked [OF wf] by blast
    then show ?thesis using Some f(1) out(1) v by (simp add: run_callable_step_def as_handler_def Let_def)
  qed (use Some f(1) out(1) in \<open>simp_all add: run_callable_step_def as_handler_def Let_def\<close>)
  then show ?thesis using F2 by blast
qed

lemma settled_exec_kind:
  assumes s: "settled F p s" and none: "F (path_of (vp_image_path p)) = None" and wf: "wf_step step"
    and gid: "step_kind step = VmLaunch \<Longrightarrow> step_guest_id step \<noteq> []"
    and h: "\<And>h c. map_of (tm_attrs m) (step_handler step) = Some h \<Longrightarrow>
      (\<exists>f. h = as_handler f \<and> keeps (has_files F) (f c))"
  shows "\<exists>r x s'. exec_kind (tool_ops out) m False g a step s = (Inr (r, x), s') \<and> settled F p s'"
proof -
  let ?ops = "tool_ops out :: 'a ops"
  note sd = s [unfolded settled_def]
  show ?thesis
  proof (cases "step_kind step")
    case VmLaunch
    obtain e where e: "vm_launch ?ops p (es_world s) = (Inl e, es_world s)" "is_a e VMProfileError"
      using unlaunchable_refused [of F p, OF none] sd by blast
    obtain b where b: "check_expected_values step 1 (msg_of e) = Inr b" using wf_step_checked [OF wf] by blast
    have "\<exists>r. run_vm_launch_step ?ops step p (es_world s) = (Inr (r, None), es_world s)"
      using e b by (simp add: run_vm_launch_step_def now_def elapsed_ms_def Let_def ibind_def itry_def)
    then show ?thesis using sd VmLaunch gid
      by (auto simp: exec_kind_def exec_vm_launch_def effective_guest_id_def Let_def ibind_def iseq_def
          in_world_def set_launch_def settled_def)
  next
    case VmStop
    then show ?thesis using sd by (auto simp: exec_kind_def exec_vm_stop_def settled_def)
  next
    case Host
    obtain b where "check_expected_values step 0 out = Inr b" using wf_step_checked [OF wf] by blast
    then show ?thesis using sd Host
      by (auto simp: exec_kind_def Let_def run_step_def in_world_def ibind_def itry_def now_def
          elapsed_ms_def settled_def)
  next
    case Callable
    from settled_callable [OF sd [THEN conjunct1] wf h] obtain r w' where
      "run_callable_step m step (es_ctx s, es_world s) = (Inr r, (es_ctx s, w'))" "has_files F w'"
      by blast
    then show ?thesis using sd Callable
      by (auto simp: exec_kind_def Let_def in_ctx_def ibind_def settled_def)
  next
    case (OtherKind k)
    then show ?thesis using wf by (simp add: wf_step_eval is_other_kind_def)
  next
    case Guest
    obtain e where e: "vm_launch ?ops p (es_world s) = (Inl e, es_world s)" "is_a e VMProfileError"
      using unlaunchable_refused [of F p, OF none] sd by blast
    then show ?thesis using sd Guest
      by (auto simp: exec_kind_def Let_def exec_guest_def auto_launch_def in_world_def ibind_def itry_def settled_def)
  next
    case GuestPull
    obtain e where e: "vm_launch ?ops p (es_world s) = (Inl e, es_world s)" "is_a e VMProfileError"
      using unlaunchable_refused [of F p, OF none] sd by blast
    then show ?thesis using sd GuestPull
      by (auto simp: exec_kind_def Let_def exec_guest_def auto_launch_def in_world_def ibind_def itry_def settled_def)
  qed
qed

text \<open>Every test whose steps are valid runs to its end on this machine.\<close>

definition handlers_keep_files :: "(path \<Rightarrow> bytes option) \<Rightarrow> 'e test_mod \<Rightarrow> bool" where
  "handlers_keep_files F m \<longleftrightarrow>
     (\<forall>name h c. map_of (tm_attrs m) name = Some h \<longrightarrow>
        (\<exists>f. h = as_handler f \<and> keeps (has_files F) (f c)))"

lemma handlers_keep_filesI:
  assumes "tm_attrs m = map (apsnd as_handler) hs"
    and "\<And>name f c. (name, f) \<in> set hs \<Longrightarrow> keeps (has_files F) (f c)"
  shows "handlers_keep_files F m"
  using assms unfolding handlers_keep_files_def by (force dest: map_of_SomeD)

lemma settled_exec_steps:
  assumes "settled F p s" and none: "F (path_of (vp_image_path p)) = None"
    and wf: "list_all (\<lambda>t. wf_step t \<and> (step_kind t = VmLaunch \<longrightarrow> step_guest_id t \<noteq> [])) steps"
    and h: "handlers_keep_files F m"
  shows "\<exists>s'. exec_steps (tool_ops out) m False g a steps s = (Inr (), s') \<and> es_launch s' = None"
  using assms(1) wf
proof (induction steps arbitrary: s)
  case Nil
  then show ?case by (simp add: settled_def)
next
  case (Cons step steps)
  let ?s1 = "snd (refresh_ctx s)"
  have "settled F p ?s1" using Cons.prems(1) by (simp add: settled_def refresh_ctx_def)
  from settled_exec_kind [of F p ?s1 step m out g a, OF this none] Cons.prems(2) h
  obtain r x s2 where k: "exec_kind (tool_ops out) m False g a step ?s1 = (Inr (r, x), s2)"
    and s2: "settled F p s2"
    by (auto simp: handlers_keep_files_def)
  obtain stopped j where x: "x = (stopped, j)" by (cases x)
  from exec_step_returns [OF k [unfolded x], of steps] s2 obtain go s3 where
    e: "exec_step (tool_ops out) m False g a step steps s = (Inr go, s3)" and s3: "settled F p s3"
    by (auto simp: settled_def has_files_def)
  show ?case
  proof (cases go)
    case True
    then show ?thesis using Cons.IH [OF s3] Cons.prems(2) e by (simp add: ibind_def)
  next
    case False
    then show ?thesis using e s3 by (simp add: ibind_def settled_def)
  qed
qed

lemma tool_test_runs:
  assumes m: "import_test_module mods test = Inr m" and vm: "requires_vm test"
    and plan: "\<And>w. load_test_execution_plan mods test w = (Inr (steps, declared), w)"
    and wf: "list_all (\<lambda>t. wf_step t \<and> (step_kind t = VmLaunch \<longrightarrow> step_guest_id t \<noteq> [])) steps"
    and h: "handlers_keep_files (w_files w) m" and dbg: "\<not> rc_debug cfg"
    and none: "w_files w (path_of (path_str (rc_guest_path cfg))) = None"
    and dirs: "list_ex (\<lambda>q. w_files w q \<noteq> None)
      (path_prefixes (test_artifact_dir (rc_artifacts_root cfg) v test)) = False"
  shows "\<exists>tr w'. execute_test (tool_ops out) mods cfg v test w = (Inr tr, w')"
proof -
  let ?ops = "tool_ops out :: 'a ops" and ?a = "test_artifact_dir (rc_artifacts_root cfg) v test"
  obtain w1 where w1: "print_test_heading test w = (Inr (), w1)" "w_files w1 = w_files w"
    by (simp add: print_test_heading_def flush_run)
  obtain w2 where w2: "mkdir_parents ?a w1 = (Inr (), w2)" "w_files w2 = w_files w"
    using dirs w1(2) by (simp add: mkdir_parents_def)
  obtain w3 where w3: "flush_line (''   Artifacts: '' @ path_str ?a) w2 = (Inr (), w3)" "w_files w3 = w_files w"
    using w2(2) by (simp add: flush_run)
  let ?s = "initial_state cfg test ?a declared w3"
  let ?p = "effective_vm_profile declared (rc_guest_path cfg) (rc_qemu_binary cfg) (rc_ovmf_path cfg) False"
  have img: "vp_image_path ?p = path_str (rc_guest_path cfg)"
    by (simp add: effective_vm_profile_def Let_def mk_profile_def split: option.splits)
  have set: "settled (w_files w) ?p ?s"
    using w3(2) vm dbg by (simp add: settled_def has_files_def initial_state_def)
  obtain s1 where s1: "exec_steps ?ops m (rc_debug cfg) (rc_guest_path cfg) ?a steps ?s = (Inr (), s1)"
    "es_launch s1 = None"
  proof -
    have "w_files w (path_of (vp_image_path ?p)) = None" "rc_debug cfg = False" using none img dbg by simp_all
    then show thesis using that settled_exec_steps [OF set _ wf h] by metis
  qed
  have utc: "\<exists>t. ext (op_utcnow ?ops) w = (Inr t, w)" for w by simp
  obtain tr s2 where r: "run_steps ?ops m cfg test ?a ''2026-01-01T00:00:00+00:00'' steps ?s = (Inr tr, s2)"
    using run_steps_returns [OF s1 utc] by blast
  have "execute_test ?ops mods cfg v test w = (Inr tr, es_world s2)"
    unfolding execute_test_def Let_def iseq_def
    by (simp only: ibind_def ilift_def itry_any_def iret_def tool_ops_simps(3) w1(1) w2(1) w3(1) r plan m
        prod.case sum.case)
  then show ?thesis by blast
qed

end
