(* ===== verification/Test_Runs.thy ===== *)
theory Test_Runs
  imports Test_Kit
begin

text \<open>
  What a run of a test module shows: each setup and required step of a test that passed has a
  passing result, which its executor produced; a callable that passed met its expectation with
  what its handler returned; and a launch that passed by showing a reason for a refusal was
  refused.
\<close>

text \<open>The facts that evaluate a list of steps.\<close>

lemmas plan_simps = factory_accepts common_ok_def is_other_severity_def default_timeout_def
  sf_common_def mk_factory_def is_other_kind_def add_hint_def wf_step_eval all_step_fields

lemma rmap_id_Inr: "list_all (\<lambda>x. \<exists>y. x = Inr y) xs \<Longrightarrow> rmap (\<lambda>s. s) xs = Inr (map projr xs)"
  by (induction xs) auto

lemma code_of_inj: "code_of c = code_of d \<Longrightarrow> c = d"
  by (metis code_of_def of_char_eq_iff)

section \<open>Failing on an exception\<close>

text \<open>
  \<^verbatim>\<open>try: x = m except C as exc: return StepHandlerResult(exit_code=1, stderr=str(exc))\<close>, and what
  follows it.
\<close>

definition or_fail_with ::
  "exc_class \<Rightarrow> ('s, 'a) io \<Rightarrow> ('a \<Rightarrow> ('s, handler_result) io) \<Rightarrow> ('s, handler_result) io" where
  "or_fail_with cls m f =
     ibind (itry cls (ibind m (\<lambda>x. iret (Inr x)))
              (\<lambda>e. iret (Inl (handler_returns 1 [] (msg_of e) None))))
       (\<lambda>found. case found of Inl refusal \<Rightarrow> iret refusal | Inr x \<Rightarrow> f x)"

lemma or_fail_with_run:
  "m s = (Inr x, s') \<Longrightarrow> or_fail_with cls m f s = f x s'"
  "m s = (Inl e, s') \<Longrightarrow> is_a e cls \<Longrightarrow>
     or_fail_with cls m f s = (Inr (handler_returns 1 [] (msg_of e) None), s')"
  "m s = (Inl e, s') \<Longrightarrow> \<not> is_a e cls \<Longrightarrow> or_fail_with cls m f s = (Inl e, s')"
  by (simp_all add: or_fail_with_def ibind_def itry_def)

lemma or_fail_with_ok:
  assumes "or_fail_with cls m f s = (Inr hr, s')" and "hr_exit_code hr = 0"
  obtains x s1 where "m s = (Inr x, s1)" "f x s1 = (Inr hr, s')"
  using assms by (cases "m s"; cases "fst (m s)")
    (auto simp: or_fail_with_def ibind_def itry_def split: if_splits)

lemma keeps_or_fail_with [keeps_intro]:
  "keeps I m \<Longrightarrow> (\<And>x. keeps I (f x)) \<Longrightarrow> keeps I (or_fail_with cls m f)"
  unfolding or_fail_with_def by (intro keeps_intro)

section \<open>A test that passed\<close>

lemma passed_result:
  assumes "follows steps rs" and "verdict Pass rs = Pass"
    and "s \<in> set steps" and "step_type s \<in> {Setup, Required}"
  shows "\<exists>r \<in> set rs. sr_step r = s \<and> sr_result r = Pass"
  using assms
proof (induction steps rs rule: follows.induct)
  case (3 step steps r rs)
  then have g: "sr_step r = step" "sr_result r \<in> {Pass, Fail, Error}" and n: "\<not> counts_against r"
    by (auto simp: good_result_def verdict_def split: if_splits)
  have "follows steps rs" using 3(2) n g(1) by (auto simp: is_fatal_def counts_against_def)
  moreover have "verdict Pass rs = Pass" using 3(3) n by simp
  moreover have "sr_result r = Pass" if "s = step"
    using that 3(5) n g by (auto simp: counts_against_def failed_result_def)
  moreover have "\<not> is_fatal step r" using n g(1) by (auto simp: is_fatal_def counts_against_def)
  ultimately show ?case using 3(1,4,5) g(1) by auto
qed simp_all

lemma passed_run:
  assumes run: "execute_test ops mods cfg v test w = (Inr tr, w')" and pass: "tr_result tr = Pass"
    and m: "import_test_module mods test = Inr m"
    and load: "load_test_execution_plan mods test (loading_world ops test w) = (Inr (steps, declared), w1)"
    and P: "ctx_kept P m"
    and init: "P (es_ctx (initial_state cfg test (test_artifact_dir (rc_artifacts_root cfg) v test) declared w))"
    and s: "s \<in> set steps" "step_type s \<in> {Setup, Required}"
  shows "\<exists>r \<in> set (tr_step_results tr). sr_step r = s \<and> sr_result r = Pass \<and>
    produced ops m (rc_debug cfg) (rc_guest_path cfg) (test_artifact_dir (rc_artifacts_root cfg) v test) P r"
proof -
  note ran = execute_test_Inr [OF run load]
  from ran have "follows steps (tr_step_results tr)" "verdict Pass (tr_step_results tr) = Pass"
    using pass by simp_all
  from passed_result [OF this s] obtain r where r: "r \<in> set (tr_step_results tr)" "sr_step r = s"
    "sr_result r = Pass" by blast
  with execute_test_produced [OF run m load P init] show ?thesis by (metis outcome.distinct(5))
qed

text \<open>The context invariants of modules whose handlers replace nothing but the profile.\<close>

definition only_profile :: "ctx \<Rightarrow> ctx \<times> 'e world \<Rightarrow> bool" where
  "only_profile c s \<longleftrightarrow> (\<exists>p. fst s = c\<lparr>ctx_profile := p\<rparr>)"

definition profile_attr :: "'e attr \<Rightarrow> bool" where
  "profile_attr a \<longleftrightarrow> (\<forall>fn c w. a = Fn fn \<longrightarrow> only_profile c (snd (fn (c, w))))"

lemma profile_attrD: "profile_attr (Fn fn) \<Longrightarrow> \<exists>p. fst (snd (fn (c, w))) = c\<lparr>ctx_profile := p\<rparr>"
  by (auto simp: profile_attr_def only_profile_def)

lemma only_profile_refl: "only_profile c (c, w)"
  by (auto simp: only_profile_def intro: exI [of _ "ctx_profile c"])

lemma profile_attr_as_handler [simp]: "profile_attr (as_handler h)"
  by (auto simp: profile_attr_def as_handler_def only_profile_refl split: prod.splits)

lemma ctx_keptI:
  assumes "\<And>c l rs. P c \<Longrightarrow> P (c\<lparr>ctx_launch := l, ctx_step_results := rs\<rparr>)"
    and "\<And>c p. P c \<Longrightarrow> P (c\<lparr>ctx_profile := p\<rparr>)"
    and "list_all (\<lambda>(name, a). profile_attr a) (tm_attrs m)"
  shows "ctx_kept P m"
  unfolding ctx_kept_def
proof (intro conjI allI impI)
  fix name fn c w assume f: "map_of (tm_attrs m) name = Some (Fn fn)" and P: "P c"
  from map_of_SomeD [OF f] assms(3) have "profile_attr (Fn fn)" by (auto simp: list_all_iff)
  from profile_attrD [OF this] assms(2) [OF P] show "P (fst (snd (fn (c, w))))" by metis
qed (use assms in auto)

section \<open>A command on the host that passed\<close>

text \<open>The command of a host step ran in the environment of the test and exited with 0.\<close>

definition host_command_succeeded :: "'e ops \<Rightarrow> path \<Rightarrow> path \<Rightarrow> base_step \<Rightarrow> bool" where
  "host_command_succeeded ops g a step \<longleftrightarrow>
     (\<exists>args w proc w'. args \<in> {Shell (step_command step), Argv [path_str (path_of (step_command step)), path_str g]} \<and>
        ext (op_run ops args [(''GUEST_PATH'', path_str g), (''SEV_VERIFY_ARTIFACT_DIR'', path_str a)]
          (Some (step_timeout step))) w = (Inr proc, w') \<and> cp_returncode proc = 0)"

lemma produced_host_passed:
  assumes "produced ops m debug g a P r" and "sr_result r = Pass" and "step_kind (sr_step r) = Host"
    and "step_expected_result (sr_step r) = default_expected_result"
  shows "host_command_succeeded ops g a (sr_step r)"
proof -
  let ?step = "sr_step r"
  let ?args = "\<lambda>file. if file then Argv [path_str (path_of (step_command ?step)), path_str g] else Shell (step_command ?step)"
  let ?env = "[(''GUEST_PATH'', path_str g), (''SEV_VERIFY_ARTIFACT_DIR'', path_str a)]"
  obtain s y s' where s: "exec_kind ops m debug g a ?step s = (Inr (r, y), s')"
    using assms(1) unfolding produced_def by blast
  then obtain w w' where run: "run_step ops ?step g (Some a) w = (Inr r, w')"
    using assms(3) by (auto simp: exec_kind_def Let_def ibind_eq_Inr in_world_def split: prod.splits)
  have errors: "r \<noteq> error_result step e t" for step e t
    using assms(2) by (auto simp: error_result_def mk_step_result_def)
  obtain q w1 where q: "ext (op_run ops (?args (is_file (path_of (step_command ?step)) w)) ?env (Some (step_timeout ?step))) w = (q, w1)"
    by (cases "ext (op_run ops (?args (is_file (path_of (step_command ?step)) w)) ?env (Some (step_timeout ?step))) w")
  have "\<exists>proc. q = Inr proc \<and> cp_returncode proc = 0"
  proof (cases q)
    case (Inl e)
    then show ?thesis
      using run q errors errors [symmetric]
      by (auto simp: run_step_def now_def error_now_def elapsed_ms_def Let_def ibind_def itry_def split: if_splits)
  next
    case (Inr proc)
    have "sr_result r = pass_or Fail (cp_returncode proc = 0)"
      using run q Inr
      by (auto simp: run_step_def now_def elapsed_ms_def Let_def ibind_def itry_def
          check_expected_default [OF assms(4)] dest!: arg_cong [where f = sr_result])
    then show ?thesis using Inr assms(2) by (auto simp: pass_or_def split: if_splits)
  qed
  then obtain proc where "q = Inr proc" "cp_returncode proc = 0" by blast
  with q show ?thesis unfolding host_command_succeeded_def
    by (intro exI [of _ "?args (is_file (path_of (step_command ?step)) w)"] exI [of _ w] exI [of _ proc]
        exI [of _ w1]) auto
qed

section \<open>A launch that was meant to be refused\<close>

definition booted_message :: string where "booted_message = ''VM launched and guest booted''"

text \<open>The guest did not come up, and the reason that was given contains \<open>x\<close>.\<close>

fun rejected :: "string \<Rightarrow> exc + launch_result \<Rightarrow> bool" where
  "rejected x (Inl e) = (is_a e VMProfileError \<and> contains x (msg_of e))"
| "rejected x (Inr l) = (\<not> lr_ok l \<and> contains x (lr_message l))"

definition refused :: "'e ops \<Rightarrow> string \<Rightarrow> bool" where
  "refused ops x \<longleftrightarrow> (\<exists>p w. rejected x (fst (vm_launch ops p w)))"

lemma booted_message: "vm_launch ops p w = (Inr l, w') \<Longrightarrow> lr_ok l \<Longrightarrow> lr_message l = booted_message"
  by (auto simp: vm_launch_def iseq_def ibind_eq_Inr launch_exited_def booted_message_def Let_def
      split: option.splits if_splits)

lemma check_contains:
  assumes "expectation_of (step_expected_result step) = Some (StdoutContains x)"
    and "check_expected_values step code out = Inr b"
  shows "b = contains x out"
proof -
  obtain k sep where e: "partition_at CHR '':'' (step_expected_result step) = (k, sep, x)" "sep \<noteq> []"
    "k = ''stdout_contains''"
    using assms(1) by (auto simp: expectation_of_def split: prod.splits if_splits)
  show ?thesis using assms(2) e by (simp add: check_expected_values_def)
qed

lemma launch_step_rejected:
  assumes run: "run_vm_launch_step ops step p w = (Inr (r, launch), w')"
    and x: "expectation_of (step_expected_result step) = Some (StdoutContains x)" "\<not> contains x booted_message"
  shows "sr_result r = Pass \<longleftrightarrow> rejected x (fst (vm_launch ops p w))"
proof -
  obtain q w1 where q: "vm_launch ops p w = (q, w1)" by (cases "vm_launch ops p w")
  note run' = run [unfolded run_vm_launch_step_def now_def elapsed_ms_def Let_def]
  show ?thesis
  proof (cases q)
    case (Inl e)
    then have "is_a e VMProfileError \<and> (\<exists>b. check_expected_values step 1 (msg_of e) = Inr b \<and> sr_result r = pass_or Error b)"
      using run' q by (auto simp: ibind_def itry_def split: if_splits sum.splits)
    then show ?thesis using check_contains [OF x(1)] q Inl by (auto simp: pass_or_def split: if_splits)
  next
    case (Inr l)
    then have "\<exists>b. check_expected_values step (if lr_ok l then 0 else 1) (lr_message l) = Inr b
        \<and> sr_result r = pass_or Fail b"
      using run' q by (auto simp: ibind_def itry_def split: sum.splits)
    then have "sr_result r = Pass \<longleftrightarrow> contains x (lr_message l)"
      using check_contains [OF x(1)] by (auto simp: pass_or_def split: if_splits)
    then show ?thesis using booted_message [of ops p w l w1] q Inr x(2) by auto
  qed
qed

lemma produced_launch_refused:
  assumes "produced ops m debug g a P r" and "sr_result r = Pass" and "step_kind (sr_step r) = VmLaunch"
    and x: "expectation_of (step_expected_result (sr_step r)) = Some (StdoutContains x)" "\<not> contains x booted_message"
  shows "refused ops x"
proof -
  obtain s y s' where s: "exec_kind ops m debug g a (sr_step r) s = (Inr (r, y), s')"
    using assms(1) unfolding produced_def by blast
  then have v: "exec_vm_launch ops debug a (sr_step r) s = (Inr r, s')"
    using assms(3) by (auto simp: exec_kind_def Let_def ibind_eq_Inr)
  have errors: "r \<noteq> error_result step e t" "r \<noteq> no_duration_error step e" for step e t
    using assms(2) by (auto simp: error_result_def no_duration_error_def mk_step_result_def)
  obtain p where p: "ctx_profile (es_ctx s) = Some p" "es_launch s = None"
    using v errors errors [symmetric] by (auto simp: exec_vm_launch_def split: option.splits if_splits)
  then obtain p1 l t t' where "in_world (run_vm_launch_step ops (sr_step r) p1) t = (Inr (r, l), t')"
    using v p by (auto simp: exec_vm_launch_def iseq_def ibind_eq_Inr)
  then obtain w' where "run_vm_launch_step ops (sr_step r) p1 (es_world t) = (Inr (r, l), w')"
    by (auto simp: in_world_def split: prod.splits)
  from launch_step_rejected [OF this x] assms(2) show ?thesis unfolding refused_def by blast
qed

section \<open>A test whose first step fails\<close>

text \<open>
  On the machine of \<open>tool_ops\<close>, a test whose first step is a setup callable that fails ends at
  once: every later step is skipped, and no guest is launched.
\<close>

lemma setup_failure_runs:
  assumes m: "import_test_module mods test = Inr m" and vm: "requires_vm test"
    and plan: "\<And>u. w_files u = w_files w \<Longrightarrow> load_test_execution_plan mods test u = (Inr (first # rest, declared), u)"
    and first: "step_kind first = Callable" "step_type first = Setup"
      "step_expected_result first = default_expected_result"
      "map_of (tm_attrs m) (step_handler first) = Some (as_handler f)"
    and f: "\<And>c u. ctx_profile c = Some (effective_vm_profile declared (rc_guest_path cfg) (rc_qemu_binary cfg) (rc_ovmf_path cfg) False)
      \<Longrightarrow> w_files u = w_files w \<Longrightarrow> \<exists>hr. f c u = (Inr hr, u) \<and> hr_exit_code hr \<noteq> 0"
    and dbg: "\<not> rc_debug cfg"
    and dirs: "list_ex (\<lambda>q. w_files w q \<noteq> None)
      (path_prefixes (test_artifact_dir (rc_artifacts_root cfg) v test)) = False"
  shows "\<exists>tr w'. execute_test (tool_ops out) mods cfg v test w = (Inr tr, w')"
proof -
  let ?ops = "tool_ops out :: 'a ops" and ?a = "test_artifact_dir (rc_artifacts_root cfg) v test"
  obtain w1 where w1: "print_test_heading test w = (Inr (), w1)" "w_files w1 = w_files w"
    by (simp add: print_test_heading_def flush_run)
  obtain w2 where w2: "mkdir_parents ?a w1 = (Inr (), w2)" "w_files w2 = w_files w"
    using dirs w1(2) by (simp add: mkdir_parents_def)
  obtain w3 where w3: "flush_line (''   Artifacts: '' @ path_str ?a) w2 = (Inr (), w3)" "w_files w3 = w_files w"
    using w2(2) by (simp add: flush_run)
  let ?s = "initial_state cfg test ?a declared w3"
  let ?s1 = "snd (refresh_ctx ?s)"
  have s1: "ctx_profile (es_ctx ?s1) = Some (effective_vm_profile declared (rc_guest_path cfg) (rc_qemu_binary cfg) (rc_ovmf_path cfg) False)"
    "w_files (es_world ?s1) = w_files w" "es_logger ?s1 = None" "es_launch ?s1 = None"
    using vm dbg w3(2) by (simp_all add: refresh_ctx_def initial_state_def)
  from f [OF s1(1,2)] obtain hr where hr: "f (es_ctx ?s1) (es_world ?s1) = (Inr hr, es_world ?s1)" "hr_exit_code hr \<noteq> 0"
    by blast
  have "\<exists>r. run_callable_step m first (es_ctx ?s1, es_world ?s1)
      = (Inr r, (es_ctx ?s1, es_world ?s1)) \<and> sr_result r \<in> {Fail, Error}"
    using first(4) hr
    by (auto simp: run_callable_step_def call_handler_def as_handler_def Let_def
        check_expected_default [OF first(3)] pass_or_def error_result_def mk_step_result_def)
  then obtain r where r: "run_callable_step m first (es_ctx ?s1, es_world ?s1) = (Inr r, (es_ctx ?s1, es_world ?s1))"
    "sr_result r \<in> {Fail, Error}" by blast
  then have k: "exec_kind ?ops m (rc_debug cfg) (rc_guest_path cfg) ?a first ?s1 = (Inr (r, None, None), ?s1)"
    using first(1) by (simp add: exec_kind_def Let_def in_ctx_def ibind_def)
  obtain go s3 where e: "exec_step ?ops m (rc_debug cfg) (rc_guest_path cfg) ?a first rest ?s = (Inr go, s3)"
    "es_launch s3 = None"
    using exec_step_returns [OF k s1(3), of rest] s1(4) by auto
  obtain b sr st j s2 where b: "begin_step ?ops first rest ?s = (Inr (), b)"
    "exec_kind ?ops m (rc_debug cfg) (rc_guest_path cfg) ?a first b = (Inr (sr, st, j), s2)"
    "after_step ?ops first rest sr st j s2 = (Inr go, s3)"
    using e(1) by (rule exec_step_cases)
  have "b = ?s1" using b(1) by (simp add: begin_step_def refresh_ctx_def iwhen_def)
  then have "sr = r" using b(2) k by simp
  then have "\<not> go"
    using b(3) r(2) first(2) by (auto simp: after_step_def iseq_def ibind_eq_Inr failed_result_def Let_def split: if_splits)
  then have x: "exec_steps ?ops m (rc_debug cfg) (rc_guest_path cfg) ?a (first # rest) ?s = (Inr (), s3)"
    using e(1) by (simp add: ibind_def)
  have utc: "\<exists>t. ext (op_utcnow ?ops) w = (Inr t, w)" for w by simp
  obtain tr s4 where t: "run_steps ?ops m cfg test ?a ''2026-01-01T00:00:00+00:00'' (first # rest) ?s = (Inr tr, s4)"
    using run_steps_returns [OF x e(2) utc] by blast
  have "execute_test ?ops mods cfg v test w = (Inr tr, es_world s4)"
    unfolding execute_test_def Let_def iseq_def
    by (simp only: ibind_def ilift_def itry_any_def iret_def tool_ops_simps(3) w1(1) w2(1) w3(1) t plan [OF w1(2)] m
        prod.case sum.case)
  then show ?thesis by blast
qed

end
