(* ===== verification/Config_Commit.thy ===== *)
theory Config_Commit
  imports Test_Runs
begin

text \<open>
  The test module \<^verbatim>\<open>cert_tests/c3_0/c3_0_0_1/snphost_config_commit.py\<close>: it lowers one component
  of the reported TCB, checks on the host and in a guest's attestation report that the change
  took effect and is undone by a reset, and commits the current firmware once a gate allows it.

  Section names and \<^verbatim>\<open>\w\<close> are ASCII.
\<close>

section \<open>Reading TCB sections\<close>

type_synonym fields = "(string \<times> string) list"

definition core_tcb_fields :: "string list" where
  "core_tcb_fields = [''Boot Loader'', ''TEE'', ''SNP'', ''Microcode'']"

definition all_tcb_fields :: "string list" where
  "all_tcb_fields = core_tcb_fields @ [''FMC'']"

definition tcb_fields_match :: "fields \<Rightarrow> fields \<Rightarrow> bool" where
  "tcb_fields_match a b =
     (list_all (\<lambda>f. map_of a f \<noteq> None \<and> map_of b f \<noteq> None) core_tcb_fields \<and>
      list_all (\<lambda>f. map_of a f = map_of b f)
        (filter (\<lambda>f. map_of a f \<noteq> None \<and> map_of b f \<noteq> None) all_tcb_fields))"

text \<open>
  \<^verbatim>\<open>re.match(r"(\w[\w ]*?) TCB:", line)\<close>: the shortest non-empty prefix that is followed by the
  marker, if it consists of word characters and spaces and begins with a word character.
\<close>

definition tcb_marker :: string where "tcb_marker = '' TCB:''"

fun before_marker :: "string \<Rightarrow> string \<Rightarrow> string option" where
  "before_marker acc [] = None"
| "before_marker acc (c # cs) =
     (if acc \<noteq> [] \<and> startswith (c # cs) tcb_marker then Some acc
      else if (if acc = [] then word_char c else word_char c \<or> c = CHR '' '')
        then before_marker (acc @ [c]) cs
      else None)"

definition section_header :: "string \<Rightarrow> string option" where
  "section_header line = before_marker [] line"

text \<open>
  \<^verbatim>\<open>re.match(r"\s+(.+?):\s+(\S+)", line)\<close>: the leading spaces, as many as possible; the shortest
  name followed by a colon, spaces and a value; and the value up to the next space.
\<close>

definition field_value :: "string \<Rightarrow> string option" where
  "field_value s =
     (let v = takeWhile (\<lambda>c. \<not> py_space c) (dropWhile py_space s) in
      if s \<noteq> [] \<and> py_space (hd s) \<and> v \<noteq> [] then Some v else None)"

fun name_and_value :: "string \<Rightarrow> string \<Rightarrow> (string \<times> string) option" where
  "name_and_value acc [] = None"
| "name_and_value acc (c # cs) =
     (case (if acc \<noteq> [] \<and> c = CHR '':'' then field_value cs else None) of
        Some v \<Rightarrow> Some (acc, v)
      | None \<Rightarrow> name_and_value (acc @ [c]) cs)"

fun field_after :: "nat \<Rightarrow> string \<Rightarrow> (string \<times> string) option" where
  "field_after 0 line = None"
| "field_after (Suc k) line =
     (case name_and_value [] (drop (Suc k) line) of
        Some f \<Rightarrow> Some f
      | None \<Rightarrow> field_after k line)"

definition section_field :: "string \<Rightarrow> (string \<times> string) option" where
  "section_field line = field_after (length (takeWhile py_space line)) line"

text \<open>
  One round of the loop. \<open>current\<close> names the section whose dictionary is being filled: the
  dictionary is shared with \<open>sections\<close>, and a new one replaces a section that comes again.
\<close>

type_synonym sections = "(string \<times> fields) list"

definition section_line_step :: "sections \<times> string option \<Rightarrow> string \<Rightarrow> sections \<times> string option" where
  "section_line_step st line =
     (case st of (sections, current) \<Rightarrow>
        case section_header line of
          Some name \<Rightarrow> (dict_set name [] sections, Some name)
        | None \<Rightarrow>
            (case (current, section_field line) of
               (Some name, Some (k, v)) \<Rightarrow>
                 (dict_set name (dict_set k v (the (map_of sections name))) sections, current)
             | _ \<Rightarrow> st))"

definition parse_tcb_sections :: "string \<Rightarrow> sections" where
  "parse_tcb_sections output = fst (foldl section_line_step ([], None) (splitlines output))"

section \<open>The host's and the report's sections\<close>

definition snphost_tcb_args :: "string list" where
  "snphost_tcb_args = [''snphost'', ''show'', ''tcb'']"

definition run_snphost_tcb :: "'e ops \<Rightarrow> ('e world, completed) io" where
  "run_snphost_tcb ops = run_tool ops snphost_tcb_args 10"

text \<open>The first section that is missing.\<close>

definition require_sections :: "string list \<Rightarrow> string \<Rightarrow> sections \<Rightarrow> exc + unit" where
  "require_sections names tool sections =
     (case find (\<lambda>n. map_of sections n = None) names of
        Some n \<Rightarrow> raise RuntimeError (''no '' @ n @ '' TCB section in '' @ tool @ '' output'')
      | None \<Rightarrow> Inr ())"

definition read_host_tcb :: "'e ops \<Rightarrow> ('e world, sections \<times> string) io" where
  "read_host_tcb ops =
     ibind (run_snphost_tcb ops) (\<lambda>proc.
       if cp_returncode proc \<noteq> 0 then
         ithrow (Exc RuntimeError (''snphost show tcb failed: '' @ strip (cp_stderr proc)))
       else
         let sections = parse_tcb_sections (cp_stdout proc) in
         iseq (ilift (require_sections [''Reported'', ''Platform''] ''snphost show tcb'' sections))
              (iret (sections, shlex_join snphost_tcb_args)))"

definition read_platform_tcb :: "'e ops \<Rightarrow> ('e world, fields) io" where
  "read_platform_tcb ops =
     ibind (read_host_tcb ops) (\<lambda>(sections, _). iret (the (map_of sections ''Platform'')))"

definition display_report_args :: "string \<Rightarrow> string list" where
  "display_report_args report_path = [''snpguest'', ''display'', ''report'', report_path]"

definition report_sections :: "string list" where
  "report_sections = [''Current'', ''Committed'', ''Reported'']"

definition parse_report_tcb_sections :: "'e ops \<Rightarrow> string \<Rightarrow> ('e world, sections \<times> string) io" where
  "parse_report_tcb_sections ops report_path =
     ibind (run_tool ops (display_report_args report_path) 10) (\<lambda>proc.
       if cp_returncode proc \<noteq> 0 then
         ithrow (Exc RuntimeError (''snpguest display report failed: '' @ strip (cp_stderr proc)))
       else
         let sections = parse_tcb_sections (cp_stdout proc) in
         iseq (ilift (require_sections report_sections ''snpguest display report'' sections))
              (iret (map (\<lambda>n. (n, the (map_of sections n))) report_sections,
                     shlex_join (display_report_args report_path))))"

section \<open>Handlers\<close>

definition handler_ok :: "string \<Rightarrow> string \<Rightarrow> handler_result" where
  "handler_ok out cmd = handler_returns 0 out [] (Some cmd)"

definition handler_fails :: "string \<Rightarrow> string \<Rightarrow> handler_result" where
  "handler_fails err cmd = handler_returns 1 [] err (Some cmd)"

definition report_missing :: "path \<Rightarrow> handler_result" where
  "report_missing report_path =
     handler_returns 1 [] (''report not found: '' @ path_str report_path) None"

text \<open>Reading a local that no statement has bound, and a name that nothing defines.\<close>

definition unbound_local :: "string \<Rightarrow> exc" where
  "unbound_local name = Exc UnboundLocalError
     (''cannot access local variable '' @ repr_str name @ '' where it is not associated with a value'')"

definition undefined_name :: "string \<Rightarrow> exc" where
  "undefined_name name = Exc NameError (''name '' @ repr_str name @ '' is not defined'')"

definition fields_of :: "string \<Rightarrow> sections \<Rightarrow> fields" where
  "fields_of name sections = (case map_of sections name of Some f \<Rightarrow> f | None \<Rightarrow> [])"

text \<open>
  \<^verbatim>\<open>_verify_result(mode)\<close>. The result of a mismatch names the variable \<^verbatim>\<open>cmd\<close>, which is neither
  a local nor a global.
\<close>

definition verify_result :: "'e ops \<Rightarrow> string \<Rightarrow> ('e world, handler_result) io" where
  "verify_result ops mode =
     ibind (run_snphost_tcb ops) (\<lambda>proc.
     let cmd = shlex_join snphost_tcb_args in
     if cp_returncode proc \<noteq> 0 then
       iret (handler_fails (''snphost show tcb failed: '' @ strip (cp_stderr proc)) cmd)
     else
       let sections = parse_tcb_sections (cp_stdout proc);
           matching = tcb_fields_match (fields_of ''Reported'' sections) (fields_of ''Platform'' sections)
       in
       if mode = ''verify-match'' \<and> \<not> matching then ithrow (undefined_name ''cmd'')
       else if mode = ''verify-differ'' \<and> matching then
         iret (handler_fails ''FAIL: Reported should differ from Platform after config set'' cmd)
       else iret (handler_ok [] cmd))"

definition verify_match :: "'e ops \<Rightarrow> ctx \<Rightarrow> ('e world, handler_result) io" where
  "verify_match ops c = verify_result ops ''verify-match''"

definition verify_differ :: "'e ops \<Rightarrow> ctx \<Rightarrow> ('e world, handler_result) io" where
  "verify_differ ops c = verify_result ops ''verify-differ''"

text \<open>The comparison of the guest's sections with the host's.\<close>

definition guest_tcb_errors :: "sections \<Rightarrow> sections \<Rightarrow> bool \<Rightarrow> string list" where
  "guest_tcb_errors guest host expect_match_reported =
     (let reported_matches_platform =
            tcb_fields_match (fields_of ''Reported'' host) (fields_of ''Platform'' host) in
      (if \<not> tcb_fields_match (fields_of ''Reported'' guest) (fields_of ''Reported'' host)
       then [''FAIL: guest Reported != host Reported''] else []) @
      (if \<not> tcb_fields_match (fields_of ''Current'' guest) (fields_of ''Platform'' host)
       then [''FAIL: guest Current != host Platform''] else []) @
      (if expect_match_reported \<and> \<not> reported_matches_platform
       then [''FAIL: host Reported should match Platform after reset'']
       else if \<not> expect_match_reported \<and> reported_matches_platform
       then [''FAIL: host Reported should differ from Platform after config set''] else []))"

definition guest_tcb_dump :: "sections \<Rightarrow> sections \<Rightarrow> string list" where
  "guest_tcb_dump guest host =
     [''  guest Reported: '' @ dict_text (fields_of ''Reported'' guest),
      ''  guest Current:  '' @ dict_text (fields_of ''Current'' guest),
      ''  host Reported:  '' @ dict_text (fields_of ''Reported'' host),
      ''  host Platform:  '' @ dict_text (fields_of ''Platform'' host)]"

text \<open>
  \<^verbatim>\<open>_verify_guest_tcb\<close>. The \<^verbatim>\<open>except RuntimeError\<close> clause reads \<^verbatim>\<open>guest_cmd\<close> and \<^verbatim>\<open>host_cmd\<close>,
  and the statement that raised has not bound its own: the first is unbound when the report
  could not be read, the second when the host could not.
\<close>

definition verify_guest_tcb :: "'e ops \<Rightarrow> string \<Rightarrow> bool \<Rightarrow> ('e world, handler_result) io" where
  "verify_guest_tcb ops report_path expect_match_reported =
     ibind (itry RuntimeError (parse_report_tcb_sections ops report_path)
              (\<lambda>e. ithrow (unbound_local ''guest_cmd''))) (\<lambda>(guest, guest_cmd).
     ibind (itry RuntimeError (read_host_tcb ops)
              (\<lambda>e. ithrow (unbound_local ''host_cmd''))) (\<lambda>(host, host_cmd).
     let cmd = guest_cmd @ ''; '' @ host_cmd;
         errors = guest_tcb_errors guest host expect_match_reported;
         dump = guest_tcb_dump guest host in
     iret (if errors \<noteq> [] then handler_fails (join nl (errors @ dump)) cmd
           else handler_ok
             (join nl ((''Guest TCB matches host (Reported ''
                @ (if expect_match_reported then ''matches'' else ''differs from'')
                @ '' Platform)'') # dump)) cmd)))"

definition on_report ::
  "string \<Rightarrow> (path \<Rightarrow> ('e world, handler_result) io) \<Rightarrow> ctx \<Rightarrow> ('e world, handler_result) io" where
  "on_report name f c =
     (let report_path = path_sub (ctx_artifact_dir c) name in
      ibind (iget (path_exists report_path)) (\<lambda>there.
        if \<not> there then iret (report_missing report_path) else f report_path))"

definition verify_guest_report_lowered :: "'e ops \<Rightarrow> ctx \<Rightarrow> ('e world, handler_result) io" where
  "verify_guest_report_lowered ops =
     on_report ''report.bin'' (\<lambda>p. verify_guest_tcb ops (path_str p) False)"

definition verify_guest_report_restored :: "'e ops \<Rightarrow> ctx \<Rightarrow> ('e world, handler_result) io" where
  "verify_guest_report_restored ops =
     on_report ''report_after_reset.bin'' (\<lambda>p. verify_guest_tcb ops (path_str p) True)"

text \<open>The signature of the lowered report: the certificate is fetched, then the report verified.\<close>

definition verify_signature_with ::
  "'e ops \<Rightarrow> path \<Rightarrow> path \<Rightarrow> ('e world, handler_result) io" where
  "verify_signature_with ops certs_dir report_path =
     (let fetch_args = [''snpguest'', ''fetch'', ''vcek'', ''pem'', path_str certs_dir, path_str report_path];
          verify_args = [''snpguest'', ''verify'', ''attestation'', ''--signature'',
                         path_str certs_dir, path_str report_path] in
      ibind (run_tool ops fetch_args 120) (\<lambda>fetch.
      if cp_returncode fetch \<noteq> 0 then
        let err = strip (cp_stderr fetch);
            hint = (if contains ''429'' err then '' (KDS rate-limited; re-run in a minute)'' else []) in
        iret (handler_fails (''snpguest fetch vcek failed'' @ hint @ '': '' @ err) (shlex_join fetch_args))
      else
        ibind (run_tool ops verify_args 120) (\<lambda>verify.
        if cp_returncode verify \<noteq> 0 then
          iret (handler_returns 1 (cp_stdout verify)
            (''FAIL: lowered-TCB report not signed by its VCEK: '' @ strip (cp_stderr verify))
            (Some (shlex_join verify_args)))
        else
          iret (handler_ok (''Lowered-TCB report signature verified'' @ nl @ ''  '' @ strip (cp_stdout verify))
            (shlex_join verify_args)))))"

definition verify_lowered_report_signature :: "'e ops \<Rightarrow> ctx \<Rightarrow> ('e world, handler_result) io" where
  "verify_lowered_report_signature ops c =
     on_report ''report.bin'' (\<lambda>report_path.
       let certs_dir = path_sub (ctx_artifact_dir c) ''vcek_lowered'' in
       iseq (mkdir_parents certs_dir) (verify_signature_with ops certs_dir report_path)) c"

section \<open>The commit and its gate\<close>

text \<open>In the clause \<^verbatim>\<open>except RuntimeError\<close> the variable \<^verbatim>\<open>cmd\<close> is unbound.\<close>

definition verify_committed_equals_current :: "'e ops \<Rightarrow> ctx \<Rightarrow> ('e world, handler_result) io" where
  "verify_committed_equals_current ops c =
     on_report ''report_after_reset.bin'' (\<lambda>report_path.
       ibind (itry RuntimeError (parse_report_tcb_sections ops (path_str report_path))
                (\<lambda>e. ithrow (unbound_local ''cmd''))) (\<lambda>(sections, cmd).
       let committed = fields_of ''Committed'' sections;
           current = fields_of ''Current'' sections;
           dump = ''  Committed: '' @ dict_text committed @ nl @ ''  Current:   '' @ dict_text current in
       if tcb_fields_match committed current then
         iret (handler_ok (''Committed == Current - commit is a no-op on the floor.'' @ nl @ dump) cmd)
       else if ctx_allow_host_changes c then
         let warning = ''WARNING: provisional firmware (Committed < Current). --allow-host-changes ''
               @ ''set; commit will ADVANCE the floor this boot (resets on reboot).'' @ nl @ dump in
         iseq (print_err warning) (iret (handler_ok warning cmd))
       else
         iret (handler_fails (''FAIL: provisional firmware (Committed < Current). Committing would ''
           @ ''advance the floor and bless the provisional image, blocking rollback. ''
           @ ''Pass --allow-host-changes for a host that will be rebooted.'' @ nl @ dump) cmd))) c"

definition commit_args :: "string list" where "commit_args = [''snphost'', ''commit'']"

definition commit_current_tcb :: "'e ops \<Rightarrow> ctx \<Rightarrow> ('e world, handler_result) io" where
  "commit_current_tcb ops c =
     ibind (run_tool ops commit_args 30) (\<lambda>proc.
       if cp_returncode proc \<noteq> 0 then
         iret (handler_returns 1 (cp_stdout proc)
           (''snphost commit failed: '' @ strip (cp_stderr proc)) (Some (shlex_join commit_args)))
       else iret (handler_ok ''snphost commit succeeded'' (shlex_join commit_args)))"

text \<open>\<^verbatim>\<open>_verify_cli(mode)\<close>\<close>

definition verify_cli :: "'e ops \<Rightarrow> string \<Rightarrow> ('e world, int) io" where
  "verify_cli ops mode =
     ibind (verify_result ops mode) (\<lambda>r.
       iseq (iwhen (hr_stderr r \<noteq> []) (print_err (strip (hr_stderr r))))
            (iret (hr_exit_code r)))"

section \<open>The steps\<close>

record tcb_values =
  tv_bl :: int
  tv_tee :: int
  tv_snp :: int
  tv_ucode :: int
  tv_fmc :: "int option"

definition config_set :: "tcb_values \<Rightarrow> int \<Rightarrow> string" where
  "config_set t mask_value =
     ''snphost config set '' @ str_int (tv_bl t) @ '' '' @ str_int (tv_tee t) @ '' ''
       @ str_int (tv_snp t) @ '' '' @ str_int (tv_ucode t) @ '' '' @ str_int mask_value
       @ (case tv_fmc t of None \<Rightarrow> [] | Some f \<Rightarrow> '' '' @ str_int f)"

text \<open>\<^verbatim>\<open>int(tcb[name])\<close>\<close>

definition field_int :: "fields \<Rightarrow> string \<Rightarrow> exc + int" where
  "field_int tcb name =
     (case map_of tcb name of
        None \<Rightarrow> raise KeyError (repr_str name)
      | Some v \<Rightarrow> (case py_int v of Some n \<Rightarrow> Inr n
          | None \<Rightarrow> raise ValueError (''invalid literal for int() with base 10: '' @ repr_str v)))"

definition read_tcb_values :: "fields \<Rightarrow> exc + tcb_values" where
  "read_tcb_values tcb =
     rbind (field_int tcb ''Boot Loader'') (\<lambda>bl.
     rbind (field_int tcb ''TEE'') (\<lambda>tee.
     rbind (field_int tcb ''SNP'') (\<lambda>snp.
     rbind (field_int tcb ''Microcode'') (\<lambda>ucode.
     rbind (case map_of tcb ''FMC'' of
              None \<Rightarrow> Inr None
            | Some v \<Rightarrow> if v = [] \<or> v = ''None'' then Inr None
                        else rbind (field_int tcb ''FMC'') (\<lambda>n. Inr (Some n))) (\<lambda>fmc.
       Inr \<lparr>tv_bl = bl, tv_tee = tee, tv_snp = snp, tv_ucode = ucode, tv_fmc = fmc\<rparr>)))))"

definition lower_one :: "tcb_values \<Rightarrow> exc + tcb_values" where
  "lower_one t =
     (if tv_bl t > 0 then Inr (t\<lparr>tv_bl := tv_bl t - 1\<rparr>)
      else if tv_snp t > 0 then Inr (t\<lparr>tv_snp := tv_snp t - 1\<rparr>)
      else if tv_tee t > 0 then Inr (t\<lparr>tv_tee := tv_tee t - 1\<rparr>)
      else if tv_ucode t > 0 then Inr (t\<lparr>tv_ucode := tv_ucode t - 1\<rparr>)
      else raise RuntimeError (''Cannot run test: all TCB fields (Boot Loader, TEE, SNP, Microcode) ''
             @ ''are 0; need a non-zero field to lower.''))"

definition config_commit_plan :: "tcb_values \<Rightarrow> (exc + base_step) list" where
  "config_commit_plan lowered =
     [for_host ''show-tcb'' Setup ''snphost show tcb'' default_expected_result default_timeout,
      for_host ''config-set-lower'' Required (config_set lowered 0) default_expected_result default_timeout,
      for_callable ''verify-differ after config-set-lower'' Required ''verify_differ'' default_expected_result 30,
      with_hint
        (for_vm_launch ''Launch SEV-SNP guest'' Required default_expected_result 300 ''tcb-config-lowered-vm'')
        ''Address already in use''
        (''A previous VM may still be running. Try: sudo kill $(pgrep -f '' @ [CHR 0x27]
           @ ''qemu.*guest-cid'' @ [CHR 0x27] @ '')''),
      for_guest ''guest-report-after-lower'' Required ''snpguest report report.bin request.bin --random''
        default_expected_result 300,
      for_guest_pull ''pull-report-after-lower'' Required ''report.bin'' ''report.bin''
        default_expected_result 120,
      for_callable ''verify-guest-report-lowered'' Required ''verify_guest_report_lowered''
        default_expected_result 30,
      with_hint
        (for_callable ''verify-lowered-report-signature'' Required ''verify_lowered_report_signature''
           default_expected_result 270)
        ''429'' ''Rate limited by KDS, re-run in a minute'',
      for_host ''config-reset'' Required ''snphost config reset'' default_expected_result default_timeout,
      for_callable ''verify-match after config-reset'' Required ''verify_match'' default_expected_result 30,
      for_guest ''guest-report-after-reset'' Required
        ''snpguest report report_after_reset.bin request_after_reset.bin --random''
        default_expected_result 300,
      for_guest_pull ''pull-report-after-reset'' Required ''report_after_reset.bin'' ''report_after_reset.bin''
        default_expected_result 120,
      for_callable ''verify-guest-report-restored'' Required ''verify_guest_report_restored''
        default_expected_result 30,
      for_vm_stop ''Stop VM'' Info default_expected_result 60,
      for_host ''teardown-config-reset'' Info ''snphost config reset'' default_expected_result default_timeout,
      for_callable ''verify-committed-equals-current'' Setup ''verify_committed_equals_current''
        default_expected_result 30,
      for_callable ''commit-current-tcb'' Required ''commit_current_tcb'' default_expected_result 60]"

text \<open>The list is built from left to right, each step validated as it is made.\<close>

definition config_commit_steps :: "'e ops \<Rightarrow> ('e world, base_step list) io" where
  "config_commit_steps ops =
     ibind (read_platform_tcb ops) (\<lambda>tcb.
     ibind (ilift (read_tcb_values tcb)) (\<lambda>t.
     ibind (ilift (lower_one t)) (\<lambda>lowered.
       ilift (rmap (\<lambda>s. s) (config_commit_plan lowered)))))"

definition config_commit_profile :: vm_profile where
  "config_commit_profile = (mk_profile [])\<lparr>vp_memory_mb := 2048\<rparr>"

definition config_commit_handlers :: "'e ops \<Rightarrow> (string \<times> 'e attr) list" where
  "config_commit_handlers ops =
     [(''verify_differ'', as_handler (verify_differ ops)),
      (''verify_match'', as_handler (verify_match ops)),
      (''verify_guest_report_lowered'', as_handler (verify_guest_report_lowered ops)),
      (''verify_lowered_report_signature'', as_handler (verify_lowered_report_signature ops)),
      (''verify_guest_report_restored'', as_handler (verify_guest_report_restored ops)),
      (''verify_committed_equals_current'', as_handler (verify_committed_equals_current ops)),
      (''commit_current_tcb'', as_handler (commit_current_tcb ops))]"

definition config_commit_mod :: "'e ops \<Rightarrow> 'e test_mod" where
  "config_commit_mod ops =
     \<lparr>tm_steps = config_commit_steps ops, tm_vm_profile = iret (Some config_commit_profile),
      tm_attrs = config_commit_handlers ops\<rparr>"

section \<open>Properties: reading what the tool prints\<close>

definition tcb_section_lines :: "string \<times> fields \<Rightarrow> string list" where
  "tcb_section_lines s =
     (fst s @ '' TCB: TCB Version:'') # map (\<lambda>(k, v). ''  '' @ k @ '':  '' @ v) (snd s)"

definition print_tcb_sections :: "sections \<Rightarrow> string" where
  "print_tcb_sections ss = concat (map (\<lambda>l. l @ nl) (concat (map tcb_section_lines ss)))"

definition printable_field :: "string \<times> string \<Rightarrow> bool" where
  "printable_field f =
     (case f of (k, v) \<Rightarrow>
        k \<noteq> [] \<and> \<not> py_space (hd k) \<and> list_all (\<lambda>c. c \<noteq> CHR '':'' \<and> \<not> is_line_end c) k \<and>
        v \<noteq> [] \<and> list_all (\<lambda>c. \<not> py_space c) v)"

definition printable_section :: "string \<times> fields \<Rightarrow> bool" where
  "printable_section s =
     (case s of (name, fs) \<Rightarrow>
        name \<noteq> [] \<and> word_char (hd name) \<and> list_all (\<lambda>c. word_char c \<or> c = CHR '' '') name \<and>
        distinct (map fst fs) \<and> list_all printable_field fs)"

lemma word_char_code: "word_char c \<Longrightarrow> 48 \<le> code_of c \<and> code_of c \<le> 122 \<and> code_of c \<noteq> 58"
  by (auto simp: word_char_def py_alnum_def py_digit_def py_alpha_def Let_def code_of_def)

lemma line_end_space: "is_line_end c \<Longrightarrow> py_space c"
  by (auto simp: is_line_end_def py_space_def Let_def)

lemma word_char_plain: "word_char c \<or> c = CHR '' '' \<Longrightarrow> c \<noteq> CHR '':'' \<and> \<not> is_line_end c"
  using word_char_code [of c] by (auto simp: is_line_end_def code_of_def Let_def)

lemma splitlines_from_line:
  "list_all (\<lambda>c. \<not> is_line_end c) l \<Longrightarrow>
     splitlines_from cur (l @ CHR 0x0A # rest) = (rev cur @ l) # splitlines_from [] rest"
proof (induction l arbitrary: cur)
  case Nil
  have "is_line_end (CHR 0x0A)" by (simp add: is_line_end_def code_of_def)
  then show ?case by (cases rest) simp_all
next
  case (Cons c l)
  have "c \<noteq> CHR 0x0D" using Cons.prems by (auto simp: is_line_end_def code_of_def)
  with Cons show ?case by (cases l) simp_all
qed

lemma splitlines_lines:
  "list_all (list_all (\<lambda>c. \<not> is_line_end c)) ls \<Longrightarrow> splitlines (concat (map (\<lambda>l. l @ nl) ls)) = ls"
  unfolding splitlines_def by (induction ls) (simp_all add: splitlines_from_line nl_def)

lemma marker_not_inside:
  "r \<noteq> [] \<Longrightarrow> list_all (\<lambda>c. c \<noteq> CHR '':'') r \<Longrightarrow> \<not> startswith (r @ '' TCB:'' @ t) '' TCB:''"
  by (cases r; cases "tl r"; cases "tl (tl r)"; cases "tl (tl (tl r))"; cases "tl (tl (tl (tl r)))")
    (auto simp: startswith_def)

lemma before_marker_name:
  assumes "list_all (\<lambda>c. word_char c \<or> c = CHR '' '') r" and "acc = [] \<Longrightarrow> r \<noteq> [] \<and> word_char (hd r)"
  shows "before_marker acc (r @ '' TCB:'' @ t) = Some (acc @ r)"
  using assms
proof (induction r arbitrary: acc)
  case Nil
  then have "acc \<noteq> []" by blast
  then show ?case by (simp add: tcb_marker_def startswith_def)
next
  case (Cons c r)
  have "list_all (\<lambda>c. c \<noteq> CHR '':'') (c # r)"
    using Cons.prems(1) word_char_plain unfolding list_all_iff by blast
  from marker_not_inside [OF _ this] have "\<not> startswith (c # r @ '' TCB:'' @ t) tcb_marker"
    by (simp add: tcb_marker_def)
  moreover have "before_marker (acc @ [c]) (r @ '' TCB:'' @ t) = Some (acc @ c # r)"
    using Cons.IH [of "acc @ [c]"] Cons.prems(1) by simp
  ultimately show ?case using Cons.prems by (cases acc) simp_all
qed

lemma name_and_value_field:
  "list_all (\<lambda>c. c \<noteq> CHR '':'') k \<Longrightarrow> acc @ k \<noteq> [] \<Longrightarrow> field_value cs = Some v \<Longrightarrow>
     name_and_value acc (k @ CHR '':'' # cs) = Some (acc @ k, v)"
  by (induction k arbitrary: acc) auto

lemma py_space_blank [simp]: "py_space (CHR '' '')"
  by (simp add: py_space_def code_of_def)

lemma field_line:
  assumes "printable_field (k, v)"
  shows "section_header (''  '' @ k @ '':  '' @ v) = None" "section_field (''  '' @ k @ '':  '' @ v) = Some (k, v)"
proof -
  note p = assms [unfolded printable_field_def prod.case]
  have "takeWhile (\<lambda>c. \<not> py_space c) (dropWhile py_space (''  '' @ v)) = v"
    using p by (cases v) (auto simp: list_all_iff intro: takeWhile_eq_self)
  then have "field_value (''  '' @ v) = Some v" using p by (simp add: field_value_def Let_def)
  then have n: "name_and_value [] (k @ '':  '' @ v) = Some (k, v)"
    using name_and_value_field [of k "[]" "''  '' @ v" v] p by (auto simp: list_all_iff)
  have "length (takeWhile py_space (''  '' @ k @ '':  '' @ v)) = Suc (Suc 0)" using p by (cases k) auto
  then show "section_field (''  '' @ k @ '':  '' @ v) = Some (k, v)"
    unfolding section_field_def using n by simp
  show "section_header (''  '' @ k @ '':  '' @ v) = None"
    unfolding section_header_def using word_char_code [of "CHR '' ''"] by (auto simp: code_of_def)
qed

lemma dict_set_twice: "dict_set k v (dict_set k u d) = dict_set k v d"
  by (induction k u d rule: dict_set.induct) auto

lemma section_fields_read:
  assumes "list_all printable_field fs" and "distinct (map fst (ds @ fs))"
  shows "foldl section_line_step (dict_set n ds secs, Some n) (map (\<lambda>(k, v). ''  '' @ k @ '':  '' @ v) fs)
    = (dict_set n (ds @ fs) secs, Some n)"
  using assms
proof (induction fs arbitrary: ds)
  case (Cons f fs)
  obtain k v where f: "f = (k, v)" by (cases f)
  have "section_line_step (dict_set n ds secs, Some n) (''  '' @ k @ '':  '' @ v)
      = (dict_set n (ds @ [(k, v)]) secs, Some n)"
    using Cons.prems field_line [of k v] unfolding section_line_step_def f
    by (simp add: map_of_dict_set dict_set_twice dict_set_new)
  with Cons show ?case by (simp add: f)
qed simp

lemma section_read:
  assumes "printable_section (n, fs)"
  shows "foldl section_line_step (secs, cur) (tcb_section_lines (n, fs)) = (dict_set n fs secs, Some n)"
proof -
  note p = assms [unfolded printable_section_def prod.case]
  have "section_header (n @ '' TCB: TCB Version:'') = Some n"
    unfolding section_header_def using before_marker_name [of n "[]" "'' TCB Version:''"] p by simp
  then show ?thesis
    using section_fields_read [of fs "[]" n secs] p
    by (simp add: tcb_section_lines_def section_line_step_def)
qed

lemma sections_read:
  "list_all printable_section ss \<Longrightarrow> distinct (map fst (secs @ ss)) \<Longrightarrow>
     fst (foldl section_line_step (secs, cur) (concat (map tcb_section_lines ss))) = secs @ ss"
proof (induction ss arbitrary: secs cur)
  case (Cons s ss)
  obtain n fs where s: "s = (n, fs)" by (cases s)
  have "dict_set n fs secs = secs @ [(n, fs)]" using Cons.prems(2) by (intro dict_set_new) (auto simp: s)
  with Cons section_read [of n fs secs cur] show ?case by (simp add: s)
qed simp

lemma section_lines_plain:
  assumes "printable_section s"
  shows "list_all (list_all (\<lambda>c. \<not> is_line_end c)) (tcb_section_lines s)"
proof -
  obtain n fs where s: "s = (n, fs)" by (cases s)
  note p = assms [unfolded s printable_section_def prod.case]
  have "list_all (\<lambda>c. \<not> is_line_end c) n" using p word_char_plain unfolding list_all_iff by blast
  moreover have "list_all (\<lambda>c. \<not> is_line_end c) (''  '' @ k @ '':  '' @ v)" if "(k, v) \<in> set fs" for k v
    using p that line_end_space by (fastforce simp: list_all_iff printable_field_def is_line_end_def code_of_def)
  ultimately show ?thesis
    by (auto simp: s tcb_section_lines_def list_all_iff is_line_end_def code_of_def)
qed


section \<open>Properties: the plan\<close>

lemma config_commit_plan_accepted:
  "rmap (\<lambda>s. s) (config_commit_plan t) = Inr (map projr (config_commit_plan t))"
  by (rule rmap_id_Inr)
    (simp add: config_commit_plan_def factory_accepts common_ok_def is_other_severity_def
      config_set_def default_timeout_def)

text \<open>The gate and the step it guards.\<close>

definition gate_index :: nat where "gate_index = 15"

lemma config_commit_gate:
  defines "steps t \<equiv> map projr (config_commit_plan t)"
  shows "length (steps t) = 17"
    "step_type (steps t ! gate_index) = Setup" "step_kind (steps t ! gate_index) = Callable"
    "step_handler (steps t ! gate_index) = ''verify_committed_equals_current''"
    "step_expected_result (steps t ! gate_index) = default_expected_result"
    "step_handler (steps t ! Suc gate_index) = ''commit_current_tcb''"
    "step_kind (steps t ! Suc gate_index) = Callable"
  by (simp_all add: steps_def gate_index_def config_commit_plan_def factory_accepts common_ok_def
      is_other_severity_def config_set_def default_timeout_def sf_common_def mk_factory_def)

text \<open>
  The steps of the test: whenever the platform's TCB can be read and has a component to
  lower, the seventeen steps are made, none of them refused by validation; every callable step
  names a handler the module has; the \<^verbatim>\<open>config set\<close> command carries the platform's values with
  one component lowered by one, none below zero, and the TCB of Turin's extra component.
\<close>

theorem config_commit_steps_sound:
  assumes "config_commit_steps ops w = (Inr steps, w')"
  shows "\<exists>tcb t lowered. read_platform_tcb ops w = (Inr tcb, w') \<and> read_tcb_values tcb = Inr t \<and>
    step_command (steps ! 1) = config_set lowered 0 \<and> length steps = 17 \<and>
    list_all wf_step steps \<and>
    (\<forall>s \<in> set steps. step_kind s = Callable \<longrightarrow>
       (\<exists>h. map_of (config_commit_handlers ops) (step_handler s) = Some (as_handler h))) \<and>
    tv_fmc lowered = tv_fmc t \<and>
    tv_bl lowered + tv_snp lowered + tv_tee lowered + tv_ucode lowered
      = tv_bl t + tv_snp t + tv_tee t + tv_ucode t - 1 \<and>
    (\<forall>f \<in> {tv_bl, tv_snp, tv_tee, tv_ucode}. f lowered = f t \<or> (f lowered = f t - 1 \<and> 0 \<le> f lowered))"
proof -
  obtain tcb t lowered where r: "read_platform_tcb ops w = (Inr tcb, w')" "read_tcb_values tcb = Inr t"
    and l: "lower_one t = Inr lowered" and s: "steps = map projr (config_commit_plan lowered)"
    using assms unfolding config_commit_steps_def config_commit_plan_accepted
    by (auto simp: ibind_eq_Inr)
  have cmd: "step_command (steps ! 1) = config_set lowered 0" "length steps = 17"
    unfolding s by (simp_all add: config_commit_plan_def factory_accepts common_ok_def
      is_other_severity_def config_set_def default_timeout_def)
  have wf: "list_all wf_step steps"
    unfolding s by (simp add: config_commit_plan_def factory_accepts common_ok_def is_other_severity_def
      config_set_def default_timeout_def wf_step_eval all_step_fields sf_common_def mk_factory_def
      is_other_kind_def add_hint_def)
  have handlers: "\<forall>s \<in> set steps. step_kind s = Callable \<longrightarrow>
       (\<exists>h. map_of (config_commit_handlers ops) (step_handler s) = Some (as_handler h))"
    unfolding s by (simp add: config_commit_plan_def factory_accepts common_ok_def is_other_severity_def
      config_set_def default_timeout_def sf_common_def mk_factory_def config_commit_handlers_def add_hint_def)
      blast
  have low: "tv_fmc lowered = tv_fmc t" 
    "tv_bl lowered + tv_snp lowered + tv_tee lowered + tv_ucode lowered
      = tv_bl t + tv_snp t + tv_tee t + tv_ucode t - 1"
    "\<forall>f \<in> {tv_bl, tv_snp, tv_tee, tv_ucode}. f lowered = f t \<or> (f lowered = f t - 1 \<and> 0 \<le> f lowered)"
    using l by (auto simp: lower_one_def split: if_splits)
  show ?thesis using r cmd wf handlers low by blast
qed

section \<open>Properties: the gate\<close>

text \<open>What the report says, when it can be read: the sections the parser requires are there.\<close>

definition report_says :: "'e ops \<Rightarrow> string \<Rightarrow> fields \<Rightarrow> fields \<Rightarrow> 'e world \<Rightarrow> bool" where
  "report_says ops report committed current w \<longleftrightarrow>
     (\<exists>sections cmd w'. parse_report_tcb_sections ops report w = (Inr (sections, cmd), w') \<and>
        committed = fields_of ''Committed'' sections \<and> current = fields_of ''Current'' sections)"

lemma gate_decides:
  assumes "verify_committed_equals_current ops c w = (Inr hr, w')"
  shows "hr_exit_code hr = 0 \<longleftrightarrow>
    (let report = path_sub (ctx_artifact_dir c) ''report_after_reset.bin'' in
     path_exists report w \<and>
     (\<exists>committed current. report_says ops (path_str report) committed current w \<and>
        (tcb_fields_match committed current \<or> ctx_allow_host_changes c)))"
proof -
  let ?p = "path_sub (ctx_artifact_dir c) ''report_after_reset.bin''"
  obtain r w1 where r: "parse_report_tcb_sections ops (path_str ?p) w = (r, w1)"
    by (cases "parse_report_tcb_sections ops (path_str ?p) w")
  show ?thesis
  proof (cases "path_exists ?p w")
    case False
    then show ?thesis using assms
      by (auto simp: verify_committed_equals_current_def on_report_def report_missing_def Let_def)
  next
    case there: True
    show ?thesis
    proof (cases r)
      case (Inl e)
      then show ?thesis using assms there r
        by (auto simp: verify_committed_equals_current_def on_report_def ibind_def itry_def Let_def split: if_splits)
    next
      case (Inr sc)
      obtain sections cmd where sc: "sc = (sections, cmd)" by (cases sc)
      let ?a = "fields_of ''Committed'' sections" and ?b = "fields_of ''Current'' sections"
      have says: "report_says ops (path_str ?p) x y w \<longleftrightarrow> x = ?a \<and> y = ?b" for x y
        using r Inr sc by (auto simp: report_says_def)
      have code: "hr_exit_code hr = 0 \<longleftrightarrow> tcb_fields_match ?a ?b \<or> ctx_allow_host_changes c"
        using assms there r Inr sc
        by (auto simp: verify_committed_equals_current_def on_report_def ibind_def iseq_def itry_def
            Let_def handler_ok_def handler_fails_def print_err_def split: if_splits)
      show ?thesis unfolding Let_def says code using there by blast
    qed
  qed
qed

lemma config_commit_handlers_keep_ctx:
  assumes "\<And>c l rs. P c \<Longrightarrow> P (c\<lparr>ctx_launch := l, ctx_step_results := rs\<rparr>)"
    and "\<And>c p. P c \<Longrightarrow> P (c\<lparr>ctx_profile := p\<rparr>)"
  shows "ctx_kept P (config_commit_mod ops)"
  unfolding ctx_kept_def
proof (intro conjI allI impI)
  fix name fn c w
  assume f: "map_of (tm_attrs (config_commit_mod ops)) name = Some (Fn fn)" and P: "P c"
  have "\<exists>h. Fn fn = as_handler h"
    using f by (auto simp: config_commit_mod_def config_commit_handlers_def split: if_splits
        dest: sym [where t = "Fn fn"])
  then show "P (fst (snd (fn (c, w))))" using P by (auto simp: as_handler_def split: prod.splits)
qed (use assms in auto)


section \<open>Properties: what goes wrong\<close>

text \<open>The handlers that read a report, with the name of the local their error handling reads.\<close>

lemma unreadable_report:
  assumes "parse_report_tcb_sections ops p w = (Inl (Exc RuntimeError m), w')"
  shows "verify_guest_tcb ops p b w = (Inl (unbound_local ''guest_cmd''), w')"
  using assms by (simp add: verify_guest_tcb_def itry_def ibind_def ithrow_def)

text \<open>
  C38: no handler reports an unreadable report: when the report file is there and reading it raises
  the \<^verbatim>\<open>RuntimeError\<close> the handlers are written to catch, each of the three raises an
  \<^verbatim>\<open>UnboundLocalError\<close> of its own, and never returns a failed result with the message.
\<close>

theorem unreadable_report_is_unbound:
  assumes "(name, handler, local) \<in> {(''report.bin'', verify_guest_report_lowered ops, ''guest_cmd''),
      (''report_after_reset.bin'', verify_guest_report_restored ops, ''guest_cmd''),
      (''report_after_reset.bin'', verify_committed_equals_current ops, ''cmd'')}"
    and "report = path_sub (ctx_artifact_dir c) name"
    and "path_exists report w"
    and "parse_report_tcb_sections ops (path_str report) w = (Inl (Exc RuntimeError m), w')"
  shows "handler c w = (Inl (unbound_local local), w')"
  using assms
  by (auto simp: verify_guest_report_lowered_def verify_guest_report_restored_def
      verify_committed_equals_current_def on_report_def unreadable_report itry_def ibind_def ithrow_def Let_def)

text \<open>
  A TCB that does not match after the reset never makes \<^verbatim>\<open>verify_match\<close> return a failure: it
  returns success exactly when the tool succeeded and the Reported and Platform sections match, a
  failure exactly when the tool itself failed, and raises a \<^verbatim>\<open>NameError\<close> on every mismatch.
\<close>

theorem verify_match_cases:
  assumes "run_snphost_tcb ops w = (Inr proc, w')"
  defines "ss \<equiv> parse_tcb_sections (cp_stdout proc)"
  shows "verify_match ops c w =
    (if cp_returncode proc \<noteq> 0
     then (Inr (handler_fails (''snphost show tcb failed: '' @ strip (cp_stderr proc)) (shlex_join snphost_tcb_args)), w')
     else if tcb_fields_match (fields_of ''Reported'' ss) (fields_of ''Platform'' ss)
     then (Inr (handler_ok [] (shlex_join snphost_tcb_args)), w')
     else (Inl (undefined_name ''cmd''), w'))"
  using assms by (simp add: verify_match_def verify_result_def ibind_def Let_def ithrow_def)

section \<open>Concrete instances\<close>

definition tcb_text :: string where
  "tcb_text = ''Reported TCB: TCB Version:'' @ nl @ ''  Microcode:   25'' @ nl @ ''  SNP:         27'' @ nl
     @ ''  TEE:         0'' @ nl @ ''  Boot Loader: 4'' @ nl @ ''  FMC:         None'' @ nl
     @ ''Platform TCB: TCB Version:'' @ nl @ ''  Microcode:   25'' @ nl @ ''  SNP:         27'' @ nl
     @ ''  TEE:         0'' @ nl @ ''  Boot Loader: 4'' @ nl @ ''  FMC:         None'' @ nl
     @ ''Current TCB: TCB Version:'' @ nl @ ''  Microcode:   25'' @ nl @ ''  SNP:         27'' @ nl
     @ ''  TEE:         0'' @ nl @ ''  Boot Loader: 4'' @ nl
     @ ''Committed TCB: TCB Version:'' @ nl @ ''  Microcode:   25'' @ nl @ ''  SNP:         27'' @ nl
     @ ''  TEE:         0'' @ nl @ ''  Boot Loader: 4'' @ nl"

definition tcb_sections :: sections where
  "tcb_sections =
     [(''Reported'', [(''Microcode'', ''25''), (''SNP'', ''27''), (''TEE'', ''0''), (''Boot Loader'', ''4''), (''FMC'', ''None'')]),
      (''Platform'', [(''Microcode'', ''25''), (''SNP'', ''27''), (''TEE'', ''0''), (''Boot Loader'', ''4''), (''FMC'', ''None'')]),
      (''Current'', [(''Microcode'', ''25''), (''SNP'', ''27''), (''TEE'', ''0''), (''Boot Loader'', ''4'')]),
      (''Committed'', [(''Microcode'', ''25''), (''SNP'', ''27''), (''TEE'', ''0''), (''Boot Loader'', ''4'')])]"

lemma tcb_text_sections: "parse_tcb_sections tcb_text = tcb_sections"
  by code_simp

lemma tcb_tool_reads:
  "run_snphost_tcb (tool_ops tcb_text) w = (Inr \<lparr>cp_returncode = 0, cp_stdout = tcb_text, cp_stderr = []\<rparr>, w)"
  "read_host_tcb (tool_ops tcb_text) w = (Inr (tcb_sections, shlex_join snphost_tcb_args), w)"
  "parse_report_tcb_sections (tool_ops tcb_text) p w =
     (Inr (map (\<lambda>n. (n, the (map_of tcb_sections n))) report_sections, shlex_join (display_report_args p)), w)"
  by (simp_all add: run_snphost_tcb_def read_host_tcb_def parse_report_tcb_sections_def Let_def
      ibind_def iseq_def tcb_text_sections require_sections_def tcb_sections_def report_sections_def)

definition lowered_values :: tcb_values where
  "lowered_values = \<lparr>tv_bl = 3, tv_tee = 0, tv_snp = 27, tv_ucode = 25, tv_fmc = None\<rparr>"

lemma tcb_tool_steps:
  "config_commit_steps (tool_ops tcb_text) w = (Inr (map projr (config_commit_plan lowered_values)), w)"
proof -
  have ints: "py_int ''4'' = Some 4" "py_int ''0'' = Some 0" "py_int ''27'' = Some 27" "py_int ''25'' = Some 25"
    by code_simp+
  have "read_tcb_values (the (map_of tcb_sections ''Platform''))
      = Inr \<lparr>tv_bl = 4, tv_tee = 0, tv_snp = 27, tv_ucode = 25, tv_fmc = None\<rparr>"
    by (simp add: read_tcb_values_def field_int_def tcb_sections_def ints)
  then show ?thesis
    by (simp add: config_commit_steps_def read_platform_tcb_def ibind_def tcb_tool_reads(2) lower_one_def
        lowered_values_def config_commit_plan_accepted)
qed

theorem config_commit_steps_sound_witness:
  "\<exists>tcb t (lowered :: tcb_values). read_platform_tcb (tool_ops tcb_text) (empty_world ()) = (Inr tcb, empty_world ()) \<and>
     read_tcb_values tcb = Inr t \<and> tv_bl lowered + tv_snp lowered + tv_tee lowered + tv_ucode lowered
      = tv_bl t + tv_snp t + tv_tee t + tv_ucode t - 1"
  using config_commit_steps_sound [OF tcb_tool_steps [of "empty_world ()"]] by blast


definition gate_test :: test_definition where
  "gate_test = demo_test\<lparr>test_scope := MixedScope\<rparr>"

definition gate_report :: path where
  "gate_report = Path [] [''artifacts'', ''prereqs'', ''demo'', ''report_after_reset.bin'']"

definition gate_world :: "unit world" where
  "gate_world = (empty_world ())\<lparr>w_files := [gate_report \<mapsto> []]\<rparr>"

lemma gate_dir: "test_artifact_dir (Path [] [''artifacts'']) None gate_test = Path [] [''artifacts'', ''prereqs'', ''demo'']"
  by (simp add: gate_test_def demo_test_def) code_simp

lemma gate_path:
  "path_sub (Path [] [''artifacts'', ''prereqs'', ''demo'']) ''report_after_reset.bin'' = gate_report"
  unfolding gate_report_def by code_simp

definition gate_ctx :: ctx where
  "gate_ctx = es_ctx (initial_state demo_config gate_test (Path [] [''artifacts'', ''prereqs'', ''demo'']) None gate_world)"

lemma tcb_gate_opens:
  assumes "ctx_artifact_dir c = Path [] [''artifacts'', ''prereqs'', ''demo'']" "w_files w = w_files gate_world"
  shows "\<exists>hr. verify_committed_equals_current (tool_ops tcb_text) c w = (Inr hr, w) \<and> hr_exit_code hr = 0"
proof -
  have "path_exists gate_report w" using assms(2) by (simp add: path_exists_def gate_world_def)
  moreover have "tcb_fields_match (fields_of ''Committed'' (map (\<lambda>n. (n, the (map_of tcb_sections n))) report_sections))
      (fields_of ''Current'' (map (\<lambda>n. (n, the (map_of tcb_sections n))) report_sections))"
    by code_simp
  ultimately show ?thesis
    by (simp add: verify_committed_equals_current_def on_report_def assms(1) gate_path Let_def
        itry_def ibind_def tcb_tool_reads(3) handler_ok_def)
qed

text \<open>A tool that prints nothing.\<close>

lemma silent_tool:
  "run_snphost_tcb (tool_ops []) w = (Inr \<lparr>cp_returncode = 0, cp_stdout = [], cp_stderr = []\<rparr>, w)"
  "parse_report_tcb_sections (tool_ops []) p w =
     (Inl (Exc RuntimeError ''no Current TCB section in snpguest display report output''), w)"
proof -
  have "parse_tcb_sections [] = []" by code_simp
  then show "parse_report_tcb_sections (tool_ops []) p w =
     (Inl (Exc RuntimeError ''no Current TCB section in snpguest display report output''), w)"
    by (simp add: parse_report_tcb_sections_def Let_def ibind_def iseq_def require_sections_def report_sections_def)
qed (simp add: run_snphost_tcb_def)

theorem unreadable_report_is_unbound_witness:
  "verify_committed_equals_current (tool_ops []) gate_ctx gate_world
     = (Inl (unbound_local ''cmd''), gate_world)"
proof (rule unreadable_report_is_unbound [OF _ refl])
  have d: "ctx_artifact_dir gate_ctx = Path [] [''artifacts'', ''prereqs'', ''demo'']"
    by (simp add: gate_ctx_def initial_state_def)
  show "path_exists (path_sub (ctx_artifact_dir gate_ctx) ''report_after_reset.bin'') gate_world"
    unfolding d gate_path by (simp add: path_exists_def gate_world_def)
qed (auto simp: silent_tool)

theorem verify_match_cases_witness:
  "verify_match (tool_ops []) gate_ctx gate_world = (Inl (undefined_name ''cmd''), gate_world)"
proof -
  have "\<not> tcb_fields_match (fields_of ''Reported'' (parse_tcb_sections []))
      (fields_of ''Platform'' (parse_tcb_sections []))"
    by code_simp
  then show ?thesis
    using verify_match_cases [OF silent_tool(1) [of gate_world], of gate_ctx] by simp
qed

lemma tcb_handlers_keep_files: "handlers_keep_files F (config_commit_mod (tool_ops out))"
proof -
  have tool: "keeps (has_files F) (run_tool (tool_ops out) args t)" for args t
    by (simp add: keeps_def)
  have prim: "keeps (has_files F) (mkdir_parents p)" "keeps (has_files F) (print_err m)" for p m
    by (simp_all add: keeps_def has_files_def mkdir_parents_def print_err_def)
  have report: "keeps (has_files F) (parse_report_tcb_sections (tool_ops out) p)" for p
    unfolding parse_report_tcb_sections_def Let_def by (intro keeps_intro tool)
  have host: "keeps (has_files F) (read_host_tcb (tool_ops out))"
    unfolding read_host_tcb_def run_snphost_tcb_def Let_def by (intro keeps_intro tool)
  have result: "keeps (has_files F) (verify_result (tool_ops out) mode)" for mode
    unfolding verify_result_def run_snphost_tcb_def Let_def by (intro keeps_intro tool)
  have guest: "keeps (has_files F) (verify_guest_tcb (tool_ops out) p b)" for p b
    unfolding verify_guest_tcb_def Let_def by (intro keeps_intro report host)
  have signature: "keeps (has_files F) (verify_signature_with (tool_ops out) p q)" for p q
    unfolding verify_signature_with_def Let_def by (intro keeps_intro tool)
  have on: "(\<And>p. keeps (has_files F) (f p)) \<Longrightarrow> keeps (has_files F) (on_report name f c)"
    for f :: "path \<Rightarrow> ('z world, handler_result) io" and name c
    unfolding on_report_def Let_def by (intro keeps_intro)
  have kept:
    "keeps (has_files F) (verify_differ (tool_ops out) c)"
    "keeps (has_files F) (verify_match (tool_ops out) c)"
    "keeps (has_files F) (commit_current_tcb (tool_ops out) c)"
    "keeps (has_files F) (verify_guest_report_lowered (tool_ops out) c)"
    "keeps (has_files F) (verify_guest_report_restored (tool_ops out) c)" for c
    unfolding verify_differ_def verify_match_def commit_current_tcb_def
      verify_guest_report_lowered_def verify_guest_report_restored_def
    by (rule result on guest | intro keeps_intro tool)+
  moreover have "keeps (has_files F) (verify_lowered_report_signature (tool_ops out) c)" for c
    unfolding verify_lowered_report_signature_def Let_def
    by (rule on) (intro keeps_intro signature prim)
  moreover have "keeps (has_files F) (verify_committed_equals_current (tool_ops out) c)" for c
    unfolding verify_committed_equals_current_def Let_def
    by (rule on) (intro keeps_intro report prim)
  ultimately show ?thesis
    by (intro handlers_keep_filesI [where hs = "[
        (''verify_differ'', verify_differ (tool_ops out)),
        (''verify_match'', verify_match (tool_ops out)),
        (''verify_guest_report_lowered'', verify_guest_report_lowered (tool_ops out)),
        (''verify_lowered_report_signature'', verify_lowered_report_signature (tool_ops out)),
        (''verify_guest_report_restored'', verify_guest_report_restored (tool_ops out)),
        (''verify_committed_equals_current'', verify_committed_equals_current (tool_ops out)),
        (''commit_current_tcb'', commit_current_tcb (tool_ops out))]"])
      (auto simp: config_commit_mod_def config_commit_handlers_def)
qed


end
