(* ===== verification/Environment.thy ===== *)
theory Environment
  imports Test_Kit
begin

text \<open>
  \<^verbatim>\<open>sev_verify/environment.py\<close>: the best-effort detection of the versions of QEMU, the kernel,
  OVMF and the host's OS. What the machine answers without running a command is a record of
  parameters: \<^verbatim>\<open>shutil.which\<close>, \<^verbatim>\<open>platform.release\<close>, and what the command line and the start of a
  run need of the file system beyond the world's files (\<^verbatim>\<open>Path.resolve\<close>, a directory listing).
\<close>

record 'e host =
  host_which :: "string \<Rightarrow> 'e world \<Rightarrow> string option"
  host_release :: string
  host_resolve :: "path \<Rightarrow> path"
  host_listing :: "path \<Rightarrow> 'e world \<Rightarrow> string list"

section \<open>Versions\<close>

definition qemu_version_prefix :: string where
  "qemu_version_prefix = ''QEMU emulator version ''"

definition get_qemu_version :: "'e ops \<Rightarrow> 'e host \<Rightarrow> string \<Rightarrow> ('e world, string option) io" where
  "get_qemu_version ops host binary =
     ibind (iget (host_which host binary)) (\<lambda>resolved.
       if \<not> given resolved then iret None
       else itry_any
         (ibind (run_tool ops [the resolved, ''--version''] 5) (\<lambda>proc.
            let first_line = takeWhile (\<lambda>c. c \<noteq> CHR 0x0A) (cp_stdout proc) in
            iret (if startswith first_line qemu_version_prefix
                  then Some (drop (length qemu_version_prefix) first_line) else None)))
         (\<lambda>_. iret None))"

text \<open>The loop over the package's fields: the first line that gives the version.\<close>

definition package_version :: "string \<Rightarrow> string \<Rightarrow> string option" where
  "package_version pkg info =
     map_option
       (\<lambda>line. strip (snd (snd (partition_at CHR '':'' line))) @ '' ('' @ pkg @ '')'')
       (find (\<lambda>line. startswith line ''Version:'') (splitlines info))"

definition ovmf_from_dpkg :: "'e ops \<Rightarrow> string \<Rightarrow> ('e world, string option) io" where
  "ovmf_from_dpkg ops path =
     itry_any
       (ibind (run_tool ops [''dpkg'', ''-S'', path] 5) (\<lambda>proc.
          if cp_returncode proc = 0 \<and> strip (cp_stdout proc) \<noteq> [] then
            let pkg = fst (partition_at CHR '':'' (strip (cp_stdout proc))) in
            ibind (run_tool ops [''dpkg'', ''-s'', pkg] 5) (\<lambda>info.
              iret (package_version pkg (cp_stdout info)))
          else iret None))
       (\<lambda>_. iret None)"

definition ovmf_from_rpm :: "'e ops \<Rightarrow> string \<Rightarrow> ('e world, string option) io" where
  "ovmf_from_rpm ops path =
     itry_any
       (ibind (run_tool ops [''rpm'', ''-qf'', path] 5) (\<lambda>proc.
          iret (if cp_returncode proc = 0 \<and> strip (cp_stdout proc) \<noteq> []
                then Some (strip (cp_stdout proc)) else None)))
       (\<lambda>_. iret None)"

definition get_ovmf_version :: "'e ops \<Rightarrow> string \<Rightarrow> ('e world, string option) io" where
  "get_ovmf_version ops path =
     ibind (iget (path_exists (path_of path))) (\<lambda>there.
       if \<not> there then iret None
       else ibind (ovmf_from_dpkg ops path) (\<lambda>found.
         case found of Some version \<Rightarrow> iret (Some version) | None \<Rightarrow> ovmf_from_rpm ops path))"

type_synonym environment = "(string \<times> string option) list"

definition detect_environment ::
  "'e ops \<Rightarrow> 'e host \<Rightarrow> string \<Rightarrow> string option \<Rightarrow> ('e world, environment) io" where
  "detect_environment ops host qemu_binary ovmf_path =
     ibind (get_host_os_info ''/etc/os-release'') (\<lambda>host_os.
     ibind (get_qemu_version ops host qemu_binary) (\<lambda>qemu_version.
     ibind (if given ovmf_path then get_ovmf_version ops (the ovmf_path) else iret None) (\<lambda>ovmf_version.
       iret
         [(''qemu_version'', qemu_version),
          (''qemu_binary'', Some qemu_binary),
          (''kernel_version'', Some (host_release host)),
          (''ovmf_version'', ovmf_version),
          (''ovmf_path'', ovmf_path),
          (''host_os_name'', os_name host_os),
          (''host_os_release'', os_release host_os),
          (''host_os_pretty_name'', os_pretty_name host_os)])))"

section \<open>Detection never fails\<close>

lemma host_os_info_settles [settles_intro]: "settles (get_host_os_info p)"
proof -
  have "class_of e = UnicodeDecodeError" if "decode_strict b = Inl e" for b e
    by (rule decode_strict_error [OF that])
  then show ?thesis
    unfolding settles_def get_host_os_info_def
    by (auto simp: itry_def ibind_def read_bytes_def rbind_def is_a_def split: option.splits sum.splits)
qed

lemmas version_settles = get_qemu_version_def get_ovmf_version_def ovmf_from_dpkg_def ovmf_from_rpm_def

text \<open>
  Detection is best effort: whatever the commands do, fail, hang or print, it returns a
  dictionary with the eight keys in order; the paths are the given ones, and no version of OVMF
  is claimed without a path.
\<close>

theorem detection_never_fails:
  "\<exists>env w'. detect_environment ops host qemu ovmf w = (Inr env, w') \<and>
     map fst env = [''qemu_version'', ''qemu_binary'', ''kernel_version'', ''ovmf_version'', ''ovmf_path'',
        ''host_os_name'', ''host_os_release'', ''host_os_pretty_name''] \<and>
     map_of env ''qemu_binary'' = Some (Some qemu) \<and> map_of env ''ovmf_path'' = Some ovmf \<and>
     (given ovmf \<or> map_of env ''ovmf_version'' = Some None)"
proof -
  have "settles (get_qemu_version ops host qemu)" "settles (get_ovmf_version ops p)" for p
    unfolding version_settles Let_def by (intro settles_intro)+
  then obtain info w1 qv w2 where 1: "get_host_os_info ''/etc/os-release'' w = (Inr info, w1)"
    and 2: "get_qemu_version ops host qemu w1 = (Inr qv, w2)"
    using settlesD host_os_info_settles by metis
  have "settles (if given ovmf then get_ovmf_version ops (the ovmf) else iret None)"
    unfolding version_settles Let_def by (intro settles_intro)
  then obtain ov w3 where 3: "(if given ovmf then get_ovmf_version ops (the ovmf) else iret None) w2 = (Inr ov, w3)"
    using settlesD by metis
  have "\<not> given ovmf \<Longrightarrow> ov = None" using 3 by simp
  with 1 2 3 show ?thesis by (auto simp: detect_environment_def ibind_def)
qed

end
