(* ===== verification/Json_Text.thy ===== *)
theory Json_Text
  imports Json
begin

text \<open>
  The grammar of JSON texts as an inductive relation between a value and its texts, and the two
  halves of the round trip: \<^verbatim>\<open>json.loads\<close> reads every text of a value back as the value, and
  \<^verbatim>\<open>json.dumps\<close> prints one of them. Strings are valid UTF-8, the keys of an object are
  distinct, and floats, which the program never prints, are left out.
\<close>

section \<open>Valid text\<close>

definition scalar :: "nat \<Rightarrow> bool" where
  "scalar p \<longleftrightarrow> p < 0xD800 \<or> (0xE000 \<le> p \<and> p < 0x110000)"

definition utf8_text :: "string \<Rightarrow> bool" where
  "utf8_text s \<longleftrightarrow> list_all (\<lambda>p. p \<noteq> None) (utf8_points (encode s))"

lemma decode_strict_text: "utf8_text s \<Longrightarrow> decode_strict (encode s) = Inr s"
  by (simp add: utf8_text_def decode_strict_def)

lemma decode_strict_utf8: "decode_strict b = Inr s \<Longrightarrow> utf8_text s"
  by (auto simp: utf8_text_def decode_strict_def split: if_splits)

lemma utf8_text_ascii: "list_all is_ascii s \<Longrightarrow> utf8_text s"
  by (simp add: utf8_text_def utf8_points_ascii list_all_iff)

text \<open>Encoding a code point gives the bytes it was read from.\<close>

lemma sextet: "b < 64 \<Longrightarrow> (q * 64 + b) div 64 = q" "b < 64 \<Longrightarrow> (q * 64 + b) mod 64 = (b :: nat)"
  by simp_all

lemma utf8_encode_two:
  assumes "2 \<le> a" "a < 32" "b < 64"
  shows "utf8_encode (a * 64 + b) = map char_of [0xC0 + a, 0x80 + b :: nat]"
  using assms by (simp add: utf8_encode_def)

lemma utf8_encode_three:
  assumes "a < 16" "b < 64" "c < 64" "0x800 \<le> (a * 64 + b) * 64 + c"
  shows "utf8_encode ((a * 64 + b) * 64 + c) = map char_of [0xE0 + a, 0x80 + b, 0x80 + c :: nat]"
proof -
  let ?p = "(a * 64 + b) * 64 + c"
  have "?p div 4096 = ?p div 64 div 64" by (simp flip: div_mult2_eq)
  then have "?p div 4096 = a" by (simp only: sextet assms)
  moreover have "\<not> ?p < 0x80" "\<not> ?p < 0x800" using assms by linarith+
  moreover have "a * 64 + b < 1024" using assms(1,2) by linarith
  then have "?p < 0x10000" using assms(3) by (simp add: add_mult_distrib)
  ultimately show ?thesis
    unfolding utf8_encode_def by (simp only: if_True if_False sextet assms)
qed

lemma utf8_encode_four:
  assumes "b < 64" "c < 64" "d < 64" "0x10000 \<le> ((a * 64 + b) * 64 + c) * 64 + d"
  shows "utf8_encode (((a * 64 + b) * 64 + c) * 64 + d)
    = map char_of [0xF0 + a, 0x80 + b, 0x80 + c, 0x80 + d :: nat]"
proof -
  let ?p = "((a * 64 + b) * 64 + c) * 64 + d"
  have "?p div 4096 = ?p div 64 div 64" "?p div 262144 = ?p div 64 div 64 div 64"
    by (simp_all flip: div_mult2_eq)
  then have "?p div 4096 = a * 64 + b" "?p div 262144 = a" by (simp_all only: sextet assms)
  moreover have "\<not> ?p < 0x80" "\<not> ?p < 0x800" "\<not> ?p < 0x10000" using assms by linarith+
  ultimately show ?thesis
    unfolding utf8_encode_def by (simp only: if_False sextet assms)
qed

lemma utf8_cont_Suc:
  assumes "utf8_cont (Suc k) lo hi acc bs = (Some p, n)" and "0x80 \<le> lo" and "hi \<le> 0xBF"
  obtains c cs y m where "bs = c # cs" "unat c = 0x80 + y" "y < 64" "lo \<le> 0x80 + y" "0x80 + y \<le> hi"
    "utf8_cont k 0x80 0xBF (acc * 64 + y) cs = (Some p, m)" "n = Suc m"
proof -
  from assms(1) obtain c cs m where c: "bs = c # cs" "lo \<le> unat c" "unat c \<le> hi" "n = Suc m"
    "utf8_cont k 0x80 0xBF (acc * 64 + unat c mod 64) cs = (Some p, m)"
    by (cases bs) (auto split: if_splits prod.splits)
  define y where "y = unat c - 0x80"
  have y: "unat c = 0x80 + y" "y < 64" using c(2,3) assms(2,3) by (simp_all add: y_def)
  then have "unat c mod 64 = y" by (simp add: mod_add_left_eq [of 128 64 y, symmetric])
  with c y that show ?thesis by simp
qed

lemma utf8_lead_cont:
  assumes "utf8_lead (unat b) = Some (k, lo, hi, acc)" and "utf8_cont k lo hi acc bs = (Some p, n)"
  shows "utf8_encode p = decode (b # take n bs) \<and> scalar p"
proof -
  define x where "x = unat b"
  have ch: "char_of_byte d = char_of (unat d)" for d by (simp add: char_of_byte_def)
  note lead = assms(1) [folded x_def]
  have bounds: "0x80 \<le> lo" "hi \<le> 0xBF" "k \<le> 3"
    using lead by (auto simp: utf8_lead_def split: if_splits)
  consider "k = 0" | "k = 1" | "k = 2" | "k = 3" using bounds(3) by linarith
  then show ?thesis
  proof cases
    case 1
    then have "p = x" "x < 0x80" "n = 0"
      using lead assms(2) by (auto simp: utf8_lead_def split: if_splits)
    then show ?thesis by (simp add: utf8_encode_def scalar_def decode_def ch x_def)
  next
    case 2
    then have x: "0xC2 \<le> x" "x < 0xE0" "acc = x mod 32" "lo = 0x80" "hi = 0xBF"
      using lead by (auto simp: utf8_lead_def split: if_splits)
    define a where "a = x - 0xC0"
    have a: "x = 0xC0 + a" "2 \<le> a" "a < 32" using x by (simp_all add: a_def)
    then have "acc = a" using x(3) by (simp add: mod_add_left_eq [of 192 32 a, symmetric])
    with assms(2) 2 bounds obtain c cs y where c: "bs = c # cs" "unat c = 0x80 + y" "y < 64"
      "p = a * 64 + y" "n = 1"
      by (auto elim!: utf8_cont_Suc)
    then show ?thesis using utf8_encode_two [OF a(2,3) c(3)] a
      by (simp add: decode_def ch scalar_def flip: x_def)
  next
    case 3
    then have x: "0xE0 \<le> x" "x < 0xF0" "acc = x mod 16" "x = 0xE0 \<longrightarrow> lo = 0xA0" "x = 0xED \<longrightarrow> hi = 0x9F"
      using lead by (auto simp: utf8_lead_def split: if_splits)
    define a where "a = x - 0xE0"
    have a: "x = 0xE0 + a" "a < 16" using x by (simp_all add: a_def)
    then have "acc = a" using x(3) by (simp add: mod_add_left_eq [of 224 16 a, symmetric])
    then have cont: "utf8_cont (Suc (Suc 0)) lo hi a bs = (Some p, n)"
      using assms(2) 3 by (simp add: numeral_2_eq_2)
    obtain c cs y m where c: "bs = c # cs" "unat c = 0x80 + y" "y < 64"
      "lo \<le> 0x80 + y" "0x80 + y \<le> hi" "utf8_cont (Suc 0) 0x80 0xBF (a * 64 + y) cs = (Some p, m)" "n = Suc m"
      by (rule utf8_cont_Suc [OF cont bounds(1,2)]) (rule that)
    obtain d ds z m' where d': "cs = d # ds" "unat d = 0x80 + z" "z < 64"
      "utf8_cont 0 0x80 0xBF ((a * 64 + y) * 64 + z) ds = (Some p, m')" "m = Suc m'"
      by (rule utf8_cont_Suc [OF c(6) order_refl order_refl]) (rule that)
    then have d: "cs = d # ds" "unat d = 0x80 + z" "z < 64" "p = (a * 64 + y) * 64 + z" "m = 1"
      by simp_all
    have low: "0x800 \<le> p" using x(4) c(4) a(1) d(4) by (cases "a = 0") simp_all
    have p: "p = 4096 * a + 64 * y + z" using d(4) by simp
    have "a = 0xD \<Longrightarrow> p < 0xD800" using x(5) c(5) a(1) d(3) p by simp
    moreover have "a < 0xD \<Longrightarrow> p < 0xD800" "0xD < a \<Longrightarrow> 0xE000 \<le> p" "p < 0x110000"
      using a(2) c(3) d(3) p by linarith+
    moreover have "a < 0xD \<or> a = 0xD \<or> 0xD < a" by linarith
    ultimately have "scalar p" unfolding scalar_def by blast
    then show ?thesis using utf8_encode_three [OF a(2) c(3) d(3)] low c d a
      by (simp add: decode_def ch flip: x_def)
  next
    case 4
    have "x mod 8 = x - 0xF0" if "0xF0 \<le> x" "x < 0xF4" using that by presburger
    with 4 have x: "0xF0 \<le> x" "x \<le> 0xF4" "acc = x - 0xF0" "x = 0xF0 \<longrightarrow> lo = 0x90" "x = 0xF4 \<longrightarrow> hi = 0x8F"
      using lead by (auto simp: utf8_lead_def split: if_splits) 
    define a where "a = x - 0xF0"
    have a: "x = 0xF0 + a" "a \<le> 4" using x by (simp_all add: a_def)
    then have cont: "utf8_cont (Suc (Suc (Suc 0))) lo hi a bs = (Some p, n)"
      using assms(2) 4 x(3) by (simp add: numeral_3_eq_3 a_def)
    obtain c cs y m where c: "bs = c # cs" "unat c = 0x80 + y" "y < 64"
      "lo \<le> 0x80 + y" "0x80 + y \<le> hi" "utf8_cont (Suc (Suc 0)) 0x80 0xBF (a * 64 + y) cs = (Some p, m)" "n = Suc m"
      by (rule utf8_cont_Suc [OF cont bounds(1,2)]) (rule that)
    obtain d ds z m' where d: "cs = d # ds" "unat d = 0x80 + z" "z < 64"
      "utf8_cont (Suc 0) 0x80 0xBF ((a * 64 + y) * 64 + z) ds = (Some p, m')" "m = Suc m'"
      by (rule utf8_cont_Suc [OF c(6) order_refl order_refl]) (rule that)
    obtain e es v m'' where e': "ds = e # es" "unat e = 0x80 + v" "v < 64"
      "utf8_cont 0 0x80 0xBF (((a * 64 + y) * 64 + z) * 64 + v) es = (Some p, m'')" "m' = Suc m''"
      by (rule utf8_cont_Suc [OF d(4) order_refl order_refl]) (rule that)
    then have e: "ds = e # es" "unat e = 0x80 + v" "v < 64" "p = ((a * 64 + y) * 64 + z) * 64 + v" "m' = 1"
      by simp_all
    have p: "p = 262144 * a + 4096 * y + 64 * z + v" using e(4) by simp
    have low: "0x10000 \<le> p" using x(4) c(4) a(1) p by (cases "a = 0") simp_all
    have "a = 4 \<Longrightarrow> p < 0x110000" using x(5) c(5) a(1) d(3) e(3) p by simp
    moreover have "a < 4 \<Longrightarrow> p < 0x110000" using c(3) d(3) e(3) p by linarith
    moreover have "a < 4 \<or> a = 4" using a(2) by linarith
    moreover have "0xE000 \<le> p" using low by linarith
    ultimately have "scalar p" unfolding scalar_def by blast
    then show ?thesis using utf8_encode_four [OF c(3) d(3) e(3)] low c d e a
      by (simp add: decode_def ch flip: x_def)
  qed
qed

lemma utf8_points_encode:
  "list_all (\<lambda>p. p \<noteq> None) (utf8_points bs) \<Longrightarrow>
     concat (map (utf8_encode \<circ> the) (utf8_points bs)) = decode bs \<and>
     list_all (scalar \<circ> the) (utf8_points bs)"
proof (induction bs rule: utf8_points.induct)
  case (2 b bs)
  obtain k lo hi acc where lead: "utf8_lead (unat b) = Some (k, lo, hi, acc)"
    using "2.prems" by (cases "utf8_lead (unat b)") auto
  obtain q n where cont: "utf8_cont k lo hi acc bs = (q, n)" by (cases "utf8_cont k lo hi acc bs")
  have pts: "utf8_points (b # bs) = q # utf8_points (drop n bs)" using lead cont by simp
  with "2.prems" obtain p where p: "q = Some p" and rest: "list_all (\<lambda>p. p \<noteq> None) (utf8_points (drop n bs))"
    by auto
  have ih: "concat (map (utf8_encode \<circ> the) (utf8_points (drop n bs))) = decode (drop n bs) \<and>
     list_all (scalar \<circ> the) (utf8_points (drop n bs))"
    using "2.IH"(2) [OF lead refl refl refl cont [symmetric] rest] by blast
  have "utf8_encode p = decode (b # take n bs)" "scalar p"
    using utf8_lead_cont [OF lead] cont p by blast+
  moreover have "decode (b # take n bs) @ decode (drop n bs) = decode (b # bs)"
    by (simp add: decode_def flip: map_append)
  ultimately show ?case unfolding pts using ih p by (simp add: comp_def)
qed (simp add: decode_def)

lemma utf8_text_points:
  assumes "utf8_text s"
  obtains ps where "utf8_points (encode s) = map Some ps" "list_all scalar ps"
    "concat (map utf8_encode ps) = s"
proof
  let ?ps = "map the (utf8_points (encode s))"
  have all: "list_all (\<lambda>p. p \<noteq> None) (utf8_points (encode s))" using assms by (simp add: utf8_text_def)
  then show "utf8_points (encode s) = map Some ?ps"
    by (auto simp: list_all_iff intro!: map_idI [symmetric])
  show "list_all scalar ?ps" "concat (map utf8_encode ?ps) = s"
    using utf8_points_encode [OF all] by (simp_all add: list.pred_map comp_def)
qed

section \<open>Strings\<close>

lemma digit_char_hex: "d < 16 \<Longrightarrow> hex_val (digit_char d) = Some d"
  by (rule hex_val_digit_char)

lemma hex4_digits:
  assumes "n < 0x10000"
  shows "hex4 n = map digit_char [n div 16 div 16 div 16, n div 16 div 16 mod 16, n div 16 mod 16, n mod 16]"
proof -
  have zero: "CHR ''0'' = digit_char 0" by code_simp
  have step: "nat_str 16 m = (if m < 16 then [digit_char m] else nat_str 16 (m div 16) @ [digit_char (m mod 16)])" for m
    by (subst nat_str.simps) simp
  have top: "n div 16 div 16 div 16 < 16" using assms by (simp add: div_mult2_eq [symmetric])
  consider "n < 16" | "\<not> n < 16" "n div 16 < 16" | "\<not> n < 16" "\<not> n div 16 < 16" "n div 16 div 16 < 16"
    | "\<not> n < 16" "\<not> n div 16 < 16" "\<not> n div 16 div 16 < 16" by blast
  then show ?thesis
    by cases (simp_all add: hex4_def pad_left_def step [of n] step [of "n div 16"] step [of "n div 16 div 16"]
      step [of "n div 16 div 16 div 16"] top zero numeral_3_eq_3)
qed

lemma hex4_value:
  "n < 0x10000 \<Longrightarrow> n div 16 div 16 div 16 < (16 :: nat)"
  "((n div 16 div 16 div 16 * 16 + n div 16 div 16 mod 16) * 16 + n div 16 mod 16) * 16 + n mod 16 = (n :: nat)"
proof -
  show "((n div 16 div 16 div 16 * 16 + n div 16 div 16 mod 16) * 16 + n div 16 mod 16) * 16 + n mod 16 = n"
    by (simp only: div_mult_mod_eq)
qed (simp add: div_mult2_eq [symmetric])

lemma read_hex4_hex4: "n < 0x10000 \<Longrightarrow> read_hex4 (hex4 n @ s) = Some n"
  by (simp add: hex4_digits read_hex4_def digit_char_hex hex4_value)

lemma length_hex4: "n < 0x10000 \<Longrightarrow> length (hex4 n) = 4"
  by (simp add: hex4_digits)

lemma scan_str_escape:
  assumes "u < 0x10000" and "\<not> (0xD800 \<le> u \<and> u \<le> 0xDBFF)"
  shows "scan_str acc (backslash # CHR ''u'' # hex4 u @ s) = scan_str (acc @ utf8_encode u) s"
  using assms by (auto simp: backslash_def dquote_def read_hex4_hex4 length_hex4)

lemma scan_str_pair:
  assumes "0xD800 \<le> u" "u \<le> 0xDBFF" "0xDC00 \<le> l" "l \<le> 0xDFFF"
  shows "scan_str acc (backslash # CHR ''u'' # hex4 u @ backslash # CHR ''u'' # hex4 l @ s)
    = scan_str (acc @ utf8_encode (0x10000 + (u - 0xD800) * 1024 + (l - 0xDC00))) s"
  using assms by (simp add: backslash_def dquote_def read_hex4_hex4 length_hex4 low_surrogate_def)

lemma scan_str_simple:
  "simple_escape e = Some x \<Longrightarrow> scan_str acc (backslash # e # s) = scan_str (acc @ [x]) s"
  by (auto simp: backslash_def dquote_def simple_escape_def split: if_splits)

lemma simple_dump_point:
  assumes "p \<in> {0x22, 0x5C, 0x0A, 0x0D, 0x09, 0x08, 0x0C}"
  shows "\<exists>e. dump_point p = [backslash, e] \<and> simple_escape e = Some (char_of p) \<and> is_ascii e"
proof -
  let ?S = "[0x22, 0x5C, 0x0A, 0x0D, 0x09, 0x08, 0x0C] :: nat list"
  have "list_all (\<lambda>p. length (dump_point p) = 2 \<and> dump_point p ! 0 = backslash \<and> is_ascii (dump_point p ! 1) \<and>
      simple_escape (dump_point p ! 1) = Some (char_of p)) ?S"
    by code_simp
  moreover have "p \<in> set ?S" using assms by simp
  ultimately have "length (dump_point p) = 2" "dump_point p ! 0 = backslash" "is_ascii (dump_point p ! 1)"
      "simple_escape (dump_point p ! 1) = Some (char_of p)"
    unfolding list_all_iff by blast+
  then show ?thesis by (intro exI [where x = "dump_point p ! 1"]) (simp add: list_eq_iff_nth_eq less_2_cases_iff nth_Cons')
qed

text \<open>The four forms in which a code point is printed.\<close>

lemma dump_point_cases:
  assumes "scalar p"
  obtains (simple) e where "dump_point p = [backslash, e]" "simple_escape e = Some (char_of p)"
      "utf8_encode p = [char_of p]" "is_ascii e"
  | (plain) "dump_point p = [char_of p]" "0x20 \<le> p" "p \<le> 0x7E" "p \<noteq> 0x22" "p \<noteq> 0x5C"
      "utf8_encode p = [char_of p]"
  | (escape) "dump_point p = backslash # CHR ''u'' # hex4 p" "p < 0x10000" "\<not> (0xD800 \<le> p \<and> p \<le> 0xDBFF)"
  | (pair) u l where "dump_point p = (backslash # CHR ''u'' # hex4 u) @ (backslash # CHR ''u'' # hex4 l)"
      "0xD800 \<le> u" "u \<le> 0xDBFF" "0xDC00 \<le> l" "l \<le> 0xDFFF"
      "0x10000 + (u - 0xD800) * 1024 + (l - 0xDC00) = p"
proof -
  let ?S = "{0x22, 0x5C, 0x0A, 0x0D, 0x09, 0x08, 0x0C}"
  consider "p \<in> ?S" | "p \<notin> ?S" "0x20 \<le> p" "p \<le> 0x7E"
    | "p \<notin> ?S" "\<not> (0x20 \<le> p \<and> p \<le> 0x7E)" "p < 0x10000" | "0x10000 \<le> p" by (metis not_less)
  then show ?thesis
  proof cases
    case 1
    then have "utf8_encode p = [char_of p]" by (auto simp: utf8_encode_def)
    with 1 show ?thesis using simple_dump_point simple by blast
  next
    case 2
    then show ?thesis using plain by (simp add: dump_point_def utf8_encode_def)
  next
    case 3
    then have "dump_point p = backslash # CHR ''u'' # hex4 p" by (auto simp: dump_point_def)
    moreover have "\<not> (0xD800 \<le> p \<and> p \<le> 0xDBFF)" using assms by (auto simp: scalar_def)
    ultimately show ?thesis using escape 3(3) by blast
  next
    case 4
    have "(p - 0x10000) div 1024 < 1024" using 4 assms by (simp add: scalar_def less_mult_imp_div_less)
    moreover have "(p - 0x10000) mod 1024 < 1024" by simp
    moreover have "0x10000 + ((p - 0x10000) div 1024 * 1024 + (p - 0x10000) mod 1024) = p"
      using 4 by (simp only: div_mult_mod_eq le_add_diff_inverse)
    ultimately show ?thesis
      using 4 by (intro pair [of "0xD800 + (p - 0x10000) div 1024" "0xDC00 + (p - 0x10000) mod 1024"])
        (simp_all add: dump_point_def)
  qed
qed

lemma scan_str_dump_point:
  assumes "scalar p"
  shows "scan_str acc (dump_point p @ s) = scan_str (acc @ utf8_encode p) s"
  using assms
proof (cases rule: dump_point_cases)
  case (simple e)
  then show ?thesis by (simp add: scan_str_simple del: scan_str.simps)
next
  case plain
  then have "code_of (char_of p) = p" by (simp add: code_of_char_of)
  moreover have "code_of dquote = 0x22" "code_of backslash = 0x5C" by code_simp+
  ultimately have "char_of p \<noteq> dquote" "char_of p \<noteq> backslash" "\<not> code_of (char_of p) < 0x20"
    using plain by auto
  with plain show ?thesis by (simp add: scan_str.simps(2))
next
  case escape
  then show ?thesis using scan_str_escape [of p] by (simp del: scan_str.simps)
next
  case (pair u l)
  then show ?thesis using scan_str_pair [of u l acc s] by (simp del: scan_str.simps)
qed

lemma is_ascii_digit_char: "d < 36 \<Longrightarrow> is_ascii (digit_char d)"
  by (simp add: is_ascii_def digit_char_def code_of_char_of)

lemma is_ascii_hex4:
  assumes "n < 0x10000"
  shows "list_all is_ascii (hex4 n)"
proof -
  have "list_all (\<lambda>d. d < 16) [n div 16 div 16 div 16, n div 16 div 16 mod 16, n div 16 mod 16, n mod 16]"
    using hex4_value(1) [OF assms] by simp
  then show ?thesis unfolding hex4_digits [OF assms] list.pred_map
    by (rule list.pred_mono_strong) (simp add: is_ascii_digit_char)
qed

lemma is_ascii_dump_point:
  assumes "scalar p"
  shows "list_all is_ascii (dump_point p)"
proof -
  have "is_ascii backslash" "is_ascii CHR ''u''" by code_simp+
  with assms show ?thesis
    by (cases rule: dump_point_cases) (simp_all add: is_ascii_hex4 is_ascii_def [of "char_of p"] code_of_char_of)
qed

lemma scan_str_dump:
  assumes "utf8_text s"
  obtains t where "dump_str s = dquote # t" "\<And>r. scan_str [] (t @ r) = Some (s, r)"
    "list_all is_ascii t"
proof -
  obtain ps where ps: "utf8_points (encode s) = map Some ps" "list_all scalar ps"
    "concat (map utf8_encode ps) = s" using utf8_text_points [OF assms] by blast
  have scan: "scan_str acc (concat (map dump_point ps) @ dquote # r) = Some (acc @ concat (map utf8_encode ps), r)"
    for acc r
    using ps(2)
  proof (induction ps arbitrary: acc)
    case (Cons p ps)
    then show ?case by (simp add: scan_str_dump_point del: scan_str.simps)
  qed simp
  have "is_ascii dquote" by code_simp
  then have "list_all is_ascii (concat (map dump_point ps) @ [dquote])"
    using ps(2) is_ascii_dump_point by (auto simp: list_all_iff)
  moreover have "dump_str s = dquote # concat (map dump_point ps) @ [dquote]"
    by (simp add: dump_str_def ps(1) comp_def)
  ultimately show ?thesis using that scan [of "[]"] ps(3) by simp
qed

text \<open>A string literal that is cut anywhere is not read.\<close>

lemma read_hex4_short: "length s < 4 \<Longrightarrow> read_hex4 s = None"
  by (simp add: read_hex4_def)

lemma scan_str_cut_escape:
  assumes "u < 0x10000" and "i < 6"
  shows "scan_str acc (take i (backslash # CHR ''u'' # hex4 u)) = None"
proof -
  consider "i = 0" | "i = 1" | j where "i = Suc (Suc j)" "j < 4"
    using assms(2) by (cases i; cases "i - 1") auto
  then show ?thesis
    by cases (simp_all add: backslash_def dquote_def read_hex4_short)
qed

lemma scan_str_cut_point:
  assumes "scalar p" and "i < length (dump_point p)"
  shows "scan_str acc (take i (dump_point p)) = None"
  using assms(1)
proof (cases rule: dump_point_cases)
  case (simple e)
  then show ?thesis using assms(2) by (auto simp: less_Suc_eq backslash_def dquote_def)
next
  case plain
  then show ?thesis using assms(2) by simp
next
  case escape
  then show ?thesis using scan_str_cut_escape [of p i acc] assms(2) length_hex4 by simp
next
  case (pair u l)
  let ?low = "backslash # CHR ''u'' # hex4 l"
  have u: "u < 0x10000" and l: "l < 0x10000" using pair by simp_all
  have high: "length (backslash # CHR ''u'' # hex4 u) = 6" using length_hex4 [OF u] by simp
  show ?thesis
  proof (cases "i < 6")
    case True
    then have "take i (dump_point p) = take i (backslash # CHR ''u'' # hex4 u)"
      unfolding pair(1) take_append high by simp
    then show ?thesis using scan_str_cut_escape [OF u True] by simp
  next
    case False
    define j where "j = i - 6"
    have "take i (backslash # CHR ''u'' # hex4 u) = backslash # CHR ''u'' # hex4 u"
      using False high by (intro take_all) simp
    then have i: "take i (dump_point p) = backslash # CHR ''u'' # hex4 u @ take j ?low"
      unfolding pair(1) take_append high j_def by simp
    have j: "j < 6" using assms(2) False length_hex4 [OF l] high unfolding pair(1) length_append j_def by simp
    have "low_surrogate (take j ?low) = None"
      using j length_hex4 [OF l] by (auto simp: low_surrogate_def read_hex4_short split: option.splits)
    then have "scan_str acc (take i (dump_point p)) = scan_str (acc @ utf8_encode u) (take j ?low)"
      unfolding i using u pair(2,3) length_hex4 [OF u]
      by (subst scan_str.simps) (simp add: backslash_def dquote_def read_hex4_hex4 del: scan_str.simps)
    then show ?thesis using scan_str_cut_escape [OF l j] by simp
  qed
qed

lemma scan_str_cut:
  "list_all scalar ps \<Longrightarrow> scan_str acc (take i (concat (map dump_point ps))) = None"
proof (induction ps arbitrary: acc i)
  case (Cons p ps)
  show ?case
  proof (cases "i < length (dump_point p)")
    case True
    then show ?thesis using scan_str_cut_point [of p i acc] Cons.prems by simp
  next
    case False
    then show ?thesis using Cons scan_str_dump_point [of p acc] by (simp del: scan_str.simps)
  qed
qed simp

section \<open>Numbers and constants\<close>

text \<open>What may follow a number without being read as part of it.\<close>

definition ends :: "string \<Rightarrow> bool" where
  "ends r \<longleftrightarrow> r = [] \<or> (\<not> py_digit (hd r) \<and> hd r \<notin> set ''.eE'')"

lemma py_digit_digit_char: "d < 10 \<Longrightarrow> py_digit (digit_char d)"
  by (simp add: py_digit_def digit_char_def code_of_char_of)

lemma nat_str_digits: "list_all py_digit (nat_str 10 n)"
  unfolding list_all_iff using set_nat_str [of 10 _ n] py_digit_digit_char by fastforce

lemma hd_nat_str: "0 < n \<Longrightarrow> hd (nat_str 10 n) \<noteq> CHR ''0''"
proof (induction n rule: less_induct)
  case (less n)
  show ?case
  proof (cases "n < 10")
    case True
    have "code_of (digit_char n) = 48 + n" using True by (simp add: digit_char_def code_of_char_of)
    moreover have "code_of CHR ''0'' = 48" by code_simp
    ultimately show ?thesis using less.prems True by (subst nat_str.simps) auto
  next
    case False
    then have "nat_str 10 n = nat_str 10 (n div 10) @ [digit_char (n mod 10)]" by (subst nat_str.simps) simp
    then show ?thesis using less.IH [of "n div 10"] False by simp
  qed
qed

lemma scan_digits_text: "list_all py_digit ds \<Longrightarrow> ends r \<Longrightarrow> scan_digits (ds @ r) = (ds, r)"
  by (cases r) (auto simp: scan_digits_def ends_def list_all_iff takeWhile_append2 dropWhile_append2)

lemma scan_frac_ends: "ends r \<Longrightarrow> scan_frac r = ([], r)"
  by (cases r) (simp_all add: scan_frac_def ends_def scan_digits_def)

lemma scan_exp_ends: "ends r \<Longrightarrow> scan_exp r = ([], r)"
  by (cases r) (simp_all add: scan_exp_def ends_def scan_digits_def)

lemma scan_digits_chosen:
  "(if hd (nat_str 10 m) = CHR ''0'' then ''0'' else nat_str 10 m) = nat_str 10 m"
proof (cases "m = 0")
  case True
  then show ?thesis by (simp add: nat_str.simps digit_char_def)
qed (simp add: hd_nat_str)

lemma scan_number_text:
  assumes "ends r"
  shows "scan_number (str_int n @ r) = Some (JInt n, r)"
proof -
  define m where "m = nat \<bar>n\<bar>"
  have digits: "scan_digits (nat_str 10 m @ r) = (nat_str 10 m, r)"
    by (rule scan_digits_text [OF nat_str_digits assms])
  note rest = scan_frac_ends [OF assms] scan_exp_ends [OF assms] py_int_str_int [of n] scan_digits_chosen [of m]
  show ?thesis
  proof (cases "n < 0")
    case True
    then have "str_int n = CHR ''-'' # nat_str 10 m" by (simp add: str_int_def m_def)
    then show ?thesis using digits rest by (simp add: scan_number_def Let_def startswith_def)
  next
    case False
    then have "str_int n = nat_str 10 m" by (simp add: str_int_def m_def)
    moreover have "hd (nat_str 10 m) \<noteq> CHR ''-''"
      using nat_str_chars(2) [of 10 "hd (nat_str 10 m)" m] by simp
    then have "\<not> startswith (nat_str 10 m @ r) ''-''"
      by (cases "nat_str 10 m") (auto simp: startswith_def)
    ultimately show ?thesis using digits rest by (simp add: scan_number_def Let_def)
  qed
qed

lemma str_int_head: "\<exists>c t. str_int n = c # t \<and> (py_digit c \<or> (c = CHR ''-'' \<and> list_all py_digit t \<and> t \<noteq> []))"
proof (cases "n < 0")
  case True
  then show ?thesis by (simp add: str_int_def nat_str_digits)
next
  case False
  moreover obtain c t where "nat_str 10 (nat n) = c # t" by (cases "nat_str 10 (nat n)") simp_all
  ultimately show ?thesis using nat_str_digits [of "nat n"] by (simp add: str_int_def)
qed

lemma not_digits: "\<not> py_digit CHR ''n''" "\<not> py_digit CHR ''t''" "\<not> py_digit CHR ''f''"
  "\<not> py_digit CHR ''N''" "\<not> py_digit CHR ''I''" "\<not> py_digit CHR ''-''" "\<not> py_digit CHR ''[''"
  "\<not> py_digit CHR ''{''" "\<not> py_digit dquote" "\<not> py_digit CHR '']''" "\<not> py_digit CHR ''}''" "\<not> py_digit CHR '',''"
  by code_simp+

lemma digits_not_space: "py_digit c \<Longrightarrow> \<not> json_space c"
  by (auto simp: json_space_def py_digit_def code_of_def)

lemma scan_const_int:
  assumes "ends r"
  shows "scan_const (str_int n @ r) = Some (JInt n, r)"
proof -
  obtain c t where ct: "str_int n = c # t" "py_digit c \<or> (c = CHR ''-'' \<and> list_all py_digit t \<and> t \<noteq> [])"
    using str_int_head by blast
  have head: "startswith (x # s) (y # p) \<longleftrightarrow> x = y \<and> startswith s p" for x y s p
    by (simp add: startswith_def)
  have "c \<notin> set ''ntfNI''" using ct(2) not_digits by auto
  moreover have "\<not> (c = CHR ''-'' \<and> startswith (t @ r) ''Infinity'')"
  proof
    assume a: "c = CHR ''-'' \<and> startswith (t @ r) ''Infinity''"
    then obtain d t' where "t = d # t'" "py_digit d" using ct(2) not_digits by (cases t) auto
    then show False using a not_digits by (simp add: head)
  qed
  ultimately show ?thesis
    using scan_number_text [OF assms, of n] unfolding ct(1) append_Cons scan_const_def head by simp
qed

section \<open>The grammar\<close>

definition blank :: "string \<Rightarrow> bool" where
  "blank s \<longleftrightarrow> list_all json_space s"

inductive is_text :: "json \<Rightarrow> string \<Rightarrow> bool"
  and elems_text :: "json list \<Rightarrow> string \<Rightarrow> bool"
  and members_text :: "(string \<times> json) list \<Rightarrow> string \<Rightarrow> bool"
where
  null_text: "is_text JNull ''null''"
| true_text: "is_text (JBool True) ''true''"
| false_text: "is_text (JBool False) ''false''"
| int_text: "is_text (JInt n) (str_int n)"
| str_text: "utf8_text s \<Longrightarrow> is_text (JStr s) (dump_str s)"
| no_elems: "blank a \<Longrightarrow> is_text (JArr []) (CHR ''['' # a @ '']'')"
| arr_text: "elems_text vs t \<Longrightarrow> is_text (JArr vs) (CHR ''['' # t)"
| no_members: "blank a \<Longrightarrow> is_text (JObj []) (CHR ''{'' # a @ ''}'')"
| obj_text: "members_text ms t \<Longrightarrow> distinct (map fst ms) \<Longrightarrow> is_text (JObj ms) (CHR ''{'' # t)"
| last_elem: "blank a \<Longrightarrow> is_text v t \<Longrightarrow> blank b \<Longrightarrow> elems_text [v] (a @ t @ b @ '']'')"
| next_elem: "blank a \<Longrightarrow> is_text v t \<Longrightarrow> blank b \<Longrightarrow> elems_text vs u \<Longrightarrow>
    elems_text (v # vs) (a @ t @ b @ CHR '','' # u)"
| last_member: "blank a \<Longrightarrow> utf8_text k \<Longrightarrow> blank b \<Longrightarrow> blank c \<Longrightarrow> is_text v t \<Longrightarrow> blank d \<Longrightarrow>
    members_text [(k, v)] (a @ dump_str k @ b @ CHR '':'' # c @ t @ d @ ''}'')"
| next_member: "blank a \<Longrightarrow> utf8_text k \<Longrightarrow> blank b \<Longrightarrow> blank c \<Longrightarrow> is_text v t \<Longrightarrow> blank d \<Longrightarrow>
    members_text ms u \<Longrightarrow>
    members_text ((k, v) # ms) (a @ dump_str k @ b @ CHR '':'' # c @ t @ d @ CHR '','' # u)"

lemma skip_blank: "blank a \<Longrightarrow> skip_space (a @ s) = skip_space s"
  by (induction a) (simp_all add: blank_def skip_space_def)

lemma skip_head: "\<not> json_space c \<Longrightarrow> skip_space (c # s) = c # s"
  by (simp add: skip_space_def)

lemma not_json_space: "\<not> json_space CHR '']''" "\<not> json_space CHR ''}''" "\<not> json_space CHR '',''"
  "\<not> json_space CHR '':''" "\<not> json_space CHR ''[''" "\<not> json_space CHR ''{''" "\<not> json_space dquote"
  "\<not> json_space CHR ''n''" "\<not> json_space CHR ''t''" "\<not> json_space CHR ''f''" "\<not> json_space CHR ''-''"
  by code_simp+

lemma ends_blank: "blank a \<Longrightarrow> \<not> py_digit c \<Longrightarrow> c \<notin> set ''.eE'' \<Longrightarrow> ends (a @ c # s)"
  using digits_not_space by (cases a) (auto simp: ends_def blank_def json_space_def)

lemma dump_str_head: "\<exists>t. dump_str s = dquote # t"
  by (simp add: dump_str_def)

lemma is_text_head:
  assumes "is_text v t"
  shows "\<exists>c u. t = c # u \<and> \<not> json_space c \<and> c \<noteq> CHR '']'' \<and> c \<noteq> CHR ''}''"
  using assms
proof (cases rule: is_text.cases)
  case (int_text n)
  obtain c u where c: "str_int n = c # u" "py_digit c \<or> c = CHR ''-''" using str_int_head [of n] by blast
  then have "\<not> json_space c" "c \<noteq> CHR '']''" "c \<noteq> CHR ''}''"
    using digits_not_space not_json_space not_digits by auto
  then show ?thesis using int_text c(1) by simp
next
  case (str_text s)
  moreover have "dquote \<noteq> CHR '']''" "dquote \<noteq> CHR ''}''" by code_simp+
  ultimately show ?thesis using dump_str_head [of s] not_json_space by auto
qed (simp_all add: not_json_space)

lemma is_text_skip: "is_text v t \<Longrightarrow> skip_space (t @ s) = t @ s"
  using is_text_head [of v t] by (auto simp: skip_head)

lemma elems_text_head:
  assumes "elems_text vs t"
  shows "\<exists>c u. skip_space (t @ r) = c # u \<and> c \<noteq> CHR '']''"
  using assms
proof (cases rule: elems_text.cases)
  case (last_elem a v t' b)
  then show ?thesis using is_text_head [of v t'] by (auto simp: skip_blank is_text_skip)
next
  case (next_elem a v t' b vs u)
  then show ?thesis using is_text_head [of v t'] by (auto simp: skip_blank is_text_skip)
qed

lemma dump_str_skip: "skip_space (dump_str k @ s) = dump_str k @ s"
  using dump_str_head [of k] by (auto simp: skip_head not_json_space)

lemma members_text_head:
  assumes "members_text ms t"
  shows "\<exists>u. skip_space (t @ r) = dquote # u"
  using assms
proof (cases rule: members_text.cases)
  case (last_member a k b c v t' d)
  then show ?thesis using dump_str_head [of k] by (auto simp: skip_blank dump_str_skip)
next
  case (next_member a k b c v t' d ms u)
  then show ?thesis using dump_str_head [of k] by (auto simp: skip_blank dump_str_skip)
qed

lemma fold_dict_set:
  "distinct (map fst (d @ ms)) \<Longrightarrow> fold (\<lambda>(k, v). dict_set k v) ms d = d @ ms"
proof (induction ms arbitrary: d)
  case (Cons m ms)
  then show ?case by (cases m) (simp add: dict_set_new)
qed simp

section \<open>Reading every text\<close>

text \<open>The first character decides which branch of the scanner reads the value.\<close>

lemma scan_value_head:
  "n \<noteq> 0 \<Longrightarrow> c \<noteq> dquote \<Longrightarrow> c \<noteq> CHR ''['' \<Longrightarrow> c \<noteq> CHR ''{'' \<Longrightarrow> scan_value n (c # s) = scan_const (c # s)"
  by (cases n) simp_all

lemma scan_value_str: "n \<noteq> 0 \<Longrightarrow> utf8_text s \<Longrightarrow> scan_value n (dump_str s @ r) = Some (JStr s, r)"
  by (rule scan_str_dump [of s]) (cases n; simp)+

lemma scan_value_int:
  assumes "n \<noteq> 0" and "ends r"
  shows "scan_value n (str_int i @ r) = Some (JInt i, r)"
proof -
  obtain c u where c: "str_int i = c # u" "py_digit c \<or> c = CHR ''-''" using str_int_head [of i] by blast
  then have "c \<noteq> dquote" "c \<noteq> CHR ''[''" "c \<noteq> CHR ''{''" using not_digits by (auto simp: dquote_def)
  then show ?thesis using scan_const_int [OF assms(2), of i] scan_value_head [OF assms(1)] c(1) by simp
qed

text \<open>One member of an object, up to the character \<open>x\<close> after its value.\<close>

lemma scan_member:
  assumes "utf8_text k" "blank b" "blank c" "is_text v t" "blank d"
    and "scan_value n (t @ d @ x # s) = Some (v, d @ x # s)" and "x = CHR ''}'' \<or> x = CHR '',''"
  shows "scan_members (Suc n) acc (dump_str k @ b @ CHR '':'' # c @ t @ d @ x # s)
    = (if x = CHR ''}'' then Some (dict_set k v acc, s) else scan_members n (dict_set k v acc) (skip_space s))"
proof -
  obtain y where y: "dump_str k = dquote # y" "\<And>r. scan_str [] (y @ r) = Some (k, r)"
    using scan_str_dump [OF assms(1)] by blast
  have "skip_space (d @ x # s) = x # s" using assms(5,7) not_json_space by (auto simp: skip_blank skip_head)
  then show ?thesis using assms(6,7)
    by (auto simp: y skip_blank [OF assms(2)] skip_head not_json_space skip_blank [OF assms(3)] is_text_skip [OF assms(4)]
      simp del: scan_str.simps)
qed

lemma scan_text:
  "is_text v t \<Longrightarrow> (\<forall>n r. 2 * length t \<le> n \<longrightarrow> ends r \<longrightarrow> scan_value n (t @ r) = Some (v, r))"
  "elems_text vs u \<Longrightarrow> (\<forall>n r. 2 * length u < n \<longrightarrow> scan_elems n (skip_space (u @ r)) = Some (vs, r))"
  "members_text ms x \<Longrightarrow> (\<forall>n r acc. 2 * length x < n \<longrightarrow>
     scan_members n acc (skip_space (x @ r)) = Some (fold (\<lambda>(k, v). dict_set k v) ms acc, r))"
proof (induction rule: is_text_elems_text_members_text.inducts)
  case (int_text i)
  show ?case using str_int_head [of i] by (auto intro!: scan_value_int)
next
  case (str_text s)
  then show ?case using dump_str_head [of s] by (auto intro!: scan_value_str)
next
  case (no_elems a)
  then show ?case
    apply (intro allI impI)
    subgoal for n r by (cases n) (simp_all add: dquote_def skip_blank skip_head not_json_space)
    done
next
  case (arr_text vs t)
  show ?case
  proof (intro allI impI)
    fix n r assume n: "2 * length (CHR ''['' # t) \<le> n"
    then obtain n' where n': "n = Suc n'" "2 * length t < n'" by (cases n) auto
    obtain c u where "skip_space (t @ r) = c # u" "c \<noteq> CHR '']''" using elems_text_head [OF arr_text.hyps] by blast
    moreover have "scan_elems n' (skip_space (t @ r)) = Some (vs, r)" using arr_text.IH n'(2) by blast
    ultimately show "scan_value n ((CHR ''['' # t) @ r) = Some (JArr vs, r)"
      using n'(1) by (simp add: dquote_def)
  qed
next
  case (no_members a)
  then show ?case
    apply (intro allI impI)
    subgoal for n r by (cases n) (simp_all add: dquote_def skip_blank skip_head not_json_space)
    done
next
  case (obj_text ms t)
  show ?case
  proof (intro allI impI)
    fix n r assume n: "2 * length (CHR ''{'' # t) \<le> n"
    then obtain n' where n': "n = Suc n'" "2 * length t < n'" by (cases n) auto
    obtain u where "skip_space (t @ r) = dquote # u" using members_text_head [OF obj_text.hyps(1)] by blast
    moreover have "scan_members n' [] (skip_space (t @ r)) = Some (ms, r)"
      using obj_text.IH n'(2) fold_dict_set [of "[]" ms] obj_text.hyps(2) by simp
    ultimately show "scan_value n ((CHR ''{'' # t) @ r) = Some (JObj ms, r)"
      using n' by (simp add: dquote_def)
  qed
next
  case (last_elem a v t b)
  show ?case
  proof (intro allI impI)
    fix n r assume n: "2 * length (a @ t @ b @ '']'') < n"
    then obtain n' where n': "n = Suc n'" "2 * length t \<le> n'" by (cases n) auto
    have "ends (b @ CHR '']'' # r)" by (rule ends_blank [OF last_elem.hyps(3)]) (simp_all add: not_digits)
    then have "scan_value n' (t @ b @ CHR '']'' # r) = Some (v, b @ CHR '']'' # r)" using last_elem.IH n'(2) by blast
    then show "scan_elems n (skip_space ((a @ t @ b @ '']'') @ r)) = Some ([v], r)"
      using last_elem.hyps by (simp add: n'(1) is_text_skip skip_blank skip_head not_json_space)
  qed
next
  case (next_elem a v t b vs u)
  show ?case
  proof (intro allI impI)
    fix n r assume n: "2 * length (a @ t @ b @ CHR '','' # u) < n"
    then obtain n' where n': "n = Suc n'" "2 * length t \<le> n'" "2 * length u < n'" by (cases n) auto
    have "ends (b @ CHR '','' # u @ r)" by (rule ends_blank [OF next_elem.hyps(3)]) (simp_all add: not_digits)
    then have "scan_value n' (t @ b @ CHR '','' # u @ r) = Some (v, b @ CHR '','' # u @ r)"
      using next_elem.IH(1) n'(2) by blast
    then show "scan_elems n (skip_space ((a @ t @ b @ CHR '','' # u) @ r)) = Some (v # vs, r)"
      using next_elem.hyps next_elem.IH(2) n'(3)
      by (simp add: n'(1) is_text_skip skip_blank skip_head not_json_space)
  qed
next
  case (last_member a k b c v t d)
  show ?case
  proof (intro allI impI)
    fix n r acc assume n: "2 * length (a @ dump_str k @ b @ CHR '':'' # c @ t @ d @ ''}'') < n"
    then obtain n' where n': "n = Suc n'" "2 * length t \<le> n'" by (cases n) auto
    have "ends (d @ CHR ''}'' # r)" by (rule ends_blank [OF last_member.hyps(6)]) (simp_all add: not_digits)
    then have "scan_value n' (t @ d @ CHR ''}'' # r) = Some (v, d @ CHR ''}'' # r)"
      using last_member.IH n'(2) by blast
    from scan_member [OF last_member.hyps(2-6) this]
    show "scan_members n acc (skip_space ((a @ dump_str k @ b @ CHR '':'' # c @ t @ d @ ''}'') @ r))
        = Some (fold (\<lambda>(k, v). dict_set k v) [(k, v)] acc, r)"
      using last_member.hyps(1) by (simp add: n'(1) skip_blank dump_str_skip del: scan_members.simps)
  qed
next
  case (next_member a k b c v t d ms u)
  show ?case
  proof (intro allI impI)
    fix n r acc assume n: "2 * length (a @ dump_str k @ b @ CHR '':'' # c @ t @ d @ CHR '','' # u) < n"
    then obtain n' where n': "n = Suc n'" "2 * length t \<le> n'" "2 * length u < n'" by (cases n) auto
    have "ends (d @ CHR '','' # u @ r)" by (rule ends_blank [OF next_member.hyps(6)]) (simp_all add: not_digits)
    then have "scan_value n' (t @ d @ CHR '','' # u @ r) = Some (v, d @ CHR '','' # u @ r)"
      using next_member.IH(1) n'(2) by blast
    from scan_member [OF next_member.hyps(2-6) this]
    show "scan_members n acc (skip_space ((a @ dump_str k @ b @ CHR '':'' # c @ t @ d @ CHR '','' # u) @ r))
        = Some (fold (\<lambda>(k, v). dict_set k v) ((k, v) # ms) acc, r)"
      using next_member.hyps(1) next_member.IH(2) n'(3)
      by (simp add: n'(1) skip_blank dump_str_skip del: scan_members.simps)
  qed
qed (auto simp: scan_value_head scan_const_def startswith_def dquote_def)

text \<open>\<^verbatim>\<open>json.loads\<close> reads every text of a value, in whatever layout, as the value.\<close>

theorem loads_text:
  assumes "is_text v t" and "blank a" and "blank b"
  shows "loads (a @ t @ b) = Inr v"
proof -
  have "ends b" using assms(3) digits_not_space by (cases b) (auto simp: ends_def blank_def json_space_def)
  moreover have "2 * length t \<le> 2 * length (a @ t @ b) + 2" by simp
  ultimately have "scan_value (2 * length (a @ t @ b) + 2) (t @ b) = Some (v, b)"
    using scan_text(1) [OF assms(1)] by blast
  moreover have "skip_space (b @ []) = []" unfolding skip_blank [OF assms(3)] by (simp add: skip_space_def)
  then have "skip_space b = []" by simp
  moreover have "skip_space (a @ t @ b) = t @ b" using assms(1,2) by (simp add: skip_blank is_text_skip)
  ultimately show ?thesis by (simp only: loads_def option.case prod.case simp_thms if_True)
qed

section \<open>Printing one of them\<close>

fun json_ok :: "json \<Rightarrow> bool"
  and elems_ok :: "json list \<Rightarrow> bool"
  and members_ok :: "(string \<times> json) list \<Rightarrow> bool" where
  "json_ok JNull = True"
| "json_ok (JBool b) = True"
| "json_ok (JInt n) = True"
| "json_ok (JFloat t) = False"
| "json_ok (JStr s) = utf8_text s"
| "json_ok (JArr vs) = elems_ok vs"
| "json_ok (JObj ms) = (members_ok ms \<and> distinct (map fst ms))"
| "elems_ok [] = True"
| "elems_ok (v # vs) = (json_ok v \<and> elems_ok vs)"
| "members_ok [] = True"
| "members_ok ((k, v) # ms) = (utf8_text k \<and> json_ok v \<and> members_ok ms)"

lemma blank_Nil [simp]: "blank []"
  by (simp add: blank_def)

lemma dumps_text:
  "json_ok v \<Longrightarrow> is_text v (dumps v)"
  "elems_ok vs \<Longrightarrow> vs \<noteq> [] \<Longrightarrow> elems_text vs (join '','' (dump_list vs) @ '']'')"
  "members_ok ms \<Longrightarrow> ms \<noteq> [] \<Longrightarrow> members_text ms (join '','' (dump_members ms) @ ''}'')"
proof (induction v and vs and ms rule: dumps_dump_list_dump_members.induct)
  case (2 b)
  then show ?case using true_text false_text by (cases b) simp_all
next
  case (6 xs)
  then show ?case using no_elems [of "[]"] arr_text by (cases "xs = []") simp_all
next
  case (7 ms)
  then show ?case using no_members [of "[]"] obj_text by (cases "ms = []") simp_all
next
  case (9 x xs)
  then show ?case using last_elem [of "[]" x "dumps x" "[]"] next_elem [of "[]" x "dumps x" "[]" xs]
    by (cases xs) simp_all
next
  case (11 k v ms)
  then show ?case
    using last_member [of "[]" k "[]" "[]" v "dumps v" "[]"] next_member [of "[]" k "[]" "[]" v "dumps v" "[]" ms]
    by (cases ms; cases "hd ms") simp_all
qed (auto intro: is_text_elems_text_members_text.intros)

text \<open>A text is ASCII, so it survives being sent as UTF-8.\<close>

lemma is_ascii_space: "json_space c \<Longrightarrow> is_ascii c"
proof -
  have "is_ascii CHR '' ''" "is_ascii CHR 0x09" "is_ascii CHR 0x0A" "is_ascii CHR 0x0D" by code_simp+
  then show "json_space c \<Longrightarrow> is_ascii c" by (auto simp: json_space_def)
qed

lemma is_ascii_blank: "blank a \<Longrightarrow> list_all is_ascii a"
  by (auto simp: blank_def list_all_iff is_ascii_space)

lemma is_ascii_dump_str: "utf8_text s \<Longrightarrow> list_all is_ascii (dump_str s)"
proof -
  have "is_ascii dquote" by code_simp
  then show "utf8_text s \<Longrightarrow> list_all is_ascii (dump_str s)" by (rule_tac scan_str_dump [of s]) auto
qed

lemma is_ascii_str_int: "list_all is_ascii (str_int n)"
proof -
  have "is_ascii CHR ''-''" by code_simp
  moreover have "list_all is_ascii (nat_str 10 m)" for m
    using nat_str_digits [of m] by (auto simp: list_all_iff py_digit_def is_ascii_def Let_def)
  ultimately show ?thesis by (simp add: str_int_def)
qed

lemma is_text_ascii:
  "is_text v t \<Longrightarrow> list_all is_ascii t"
  "elems_text vs u \<Longrightarrow> list_all is_ascii u"
  "members_text ms x \<Longrightarrow> list_all is_ascii x"
proof -
  have punct: "list_all is_ascii ''nulltruefalse[]{},:''" by code_simp
  show "is_text v t \<Longrightarrow> list_all is_ascii t"
    "elems_text vs u \<Longrightarrow> list_all is_ascii u"
    "members_text ms x \<Longrightarrow> list_all is_ascii x"
    by (induction rule: is_text_elems_text_members_text.inducts)
      (use punct in \<open>simp_all add: is_ascii_blank is_ascii_dump_str is_ascii_str_int\<close>)
qed

text \<open>What is printed and sent is received and read as the same value.\<close>

lemma loads_dumps: "json_ok v \<Longrightarrow> loads (dumps v) = Inr v"
  using loads_text [OF dumps_text(1), of v "[]" "[]"] by simp

lemma decode_dumps: "json_ok v \<Longrightarrow> decode_strict (encode (dumps v)) = Inr (dumps v)"
  by (rule decode_strict_ascii [OF is_text_ascii(1) [OF dumps_text(1)]])

end
