(* ===== verification/Output.thy ===== *)
theory Output
  imports Environment Json_Text "HOL-Library.Multiset" "HOL-Library.Sublist"
begin

text \<open>
  \<^verbatim>\<open>sev_verify/output.py\<close>: the JSON and the Markdown report of a certification. The JSON document
  is a value of type \<open>json\<close>, printed as \<^verbatim>\<open>json.dumps(doc, indent=2)\<close> does; the Markdown report is
  a list of lines.
\<close>

section \<open>Indented JSON\<close>

definition indent :: "nat \<Rightarrow> string" where
  "indent n = nl @ times (2 * n) '' ''"

definition pretty_block :: "nat \<Rightarrow> string \<Rightarrow> string \<Rightarrow> string list \<Rightarrow> string" where
  "pretty_block n opening closing items =
     (if items = [] then opening @ closing
      else opening @ indent (Suc n) @ join ('','' @ indent (Suc n)) items @ indent n @ closing)"

fun dumps_pretty :: "nat \<Rightarrow> json \<Rightarrow> string"
  and pretty_list :: "nat \<Rightarrow> json list \<Rightarrow> string list"
  and pretty_members :: "nat \<Rightarrow> (string \<times> json) list \<Rightarrow> string list" where
  "dumps_pretty n (JArr xs) = pretty_block n ''['' '']'' (pretty_list n xs)"
| "dumps_pretty n (JObj ms) = pretty_block n ''{'' ''}'' (pretty_members n ms)"
| "dumps_pretty n v = dumps v"
| "pretty_list n [] = []"
| "pretty_list n (x # xs) = dumps_pretty (Suc n) x # pretty_list n xs"
| "pretty_members n [] = []"
| "pretty_members n ((k, v) # ms) = (dump_str k @ '': '' @ dumps_pretty (Suc n) v) # pretty_members n ms"

section \<open>The JSON report\<close>

definition json_text :: "string option \<Rightarrow> json" where
  "json_text s = (case s of None \<Rightarrow> JNull | Some t \<Rightarrow> JStr t)"

definition labelled :: "test_result \<Rightarrow> bool" where
  "labelled tr = (test_level (tr_test tr) \<noteq> [])"

text \<open>\<^verbatim>\<open>_group_tests_by_level\<close>: the tests of each level, and those without one.\<close>

definition group_tests_by_level ::
  "test_result list \<Rightarrow> (string \<times> test_result list) list \<times> test_result list" where
  "group_tests_by_level trs =
     (group_by labelled (\<lambda>tr. test_level (tr_test tr)) (\<lambda>tr. tr) trs, filter (\<lambda>tr. \<not> labelled tr) trs)"

definition step_dict :: "step_result \<Rightarrow> bool \<Rightarrow> json" where
  "step_dict sr include_output =
     JObj
      ([(''name'', JStr (step_name (sr_step sr))),
        (''type'', JStr (severity_str (step_type (sr_step sr)))),
        (''kind'', JStr (kind_str (step_kind (sr_step sr)))),
        (''result'', JStr (outcome_str (sr_result sr)))]
       @ (if step_kind (sr_step sr) = Callable \<and> step_handler (sr_step sr) \<noteq> []
          then [(''handler'', JStr (step_handler (sr_step sr)))] else [])
       @ (case sr_duration_ms sr of None \<Rightarrow> [] | Some ms \<Rightarrow> [(''duration_ms'', JInt ms)])
       @ (if include_output then
            (if given (sr_stdout sr) then [(''stdout'', json_text (sr_stdout sr))] else [])
            @ (if given (sr_stderr sr) then [(''stderr'', json_text (sr_stderr sr))] else [])
            @ (case sr_exit_code sr of None \<Rightarrow> [] | Some c \<Rightarrow> [(''exit_code'', JInt c)])
          else []))"

definition test_dict :: "test_result \<Rightarrow> json" where
  "test_dict tr =
     JObj
      [(''name'', JStr (test_name (tr_test tr))),
       (''description'', JStr (test_description (tr_test tr))),
       (''scope'', JStr (scope_str (test_scope (tr_test tr)))),
       (''level'', if labelled tr then JStr (test_level (tr_test tr)) else JNull),
       (''result'', JStr (outcome_str (tr_result tr))),
       (''started_at'', json_text (tr_started_at tr)),
       (''completed_at'', json_text (tr_completed_at tr)),
       (''steps'', JArr (map (\<lambda>sr. step_dict sr (tr_result tr \<noteq> Pass)) (tr_step_results tr)))]"

definition level_dict :: "(string \<times> test_result list) list \<Rightarrow> string \<Rightarrow> json" where
  "level_dict by_level level =
     (let trs = group_get by_level level;
          level_result = (if trs = [] then ''skip''
                          else if list_all (\<lambda>t. tr_result t = Pass) trs then ''pass'' else ''fail'') in
      JObj [(''level'', JStr level), (''result'', JStr level_result),
            (''tests'', JArr (map test_dict trs))])"

definition json_report :: "certification_result \<Rightarrow> string option \<Rightarrow> environment option \<Rightarrow> json" where
  "json_report cr certified_level env =
     (case group_tests_by_level (cr_test_results cr) of (by_level, unlabeled) \<Rightarrow>
      let cert = cr_certification cr in
      JObj
       ([(''schema_version'', JStr ''1.0''),
         (''certification_version'', JStr (cert_version cert)),
         (''description'', JStr (cert_description cert)),
         (''result'', JStr (outcome_str (cr_result cr))),
         (''certified_level'', json_text certified_level),
         (''max_certification_level'', json_text (cert_max_level cert)),
         (''started_at'', json_text (cr_started_at cr)),
         (''completed_at'', json_text (cr_completed_at cr)),
         (''levels'', JArr (map (level_dict by_level) (cert_all_levels cert)))]
        @ (if env \<noteq> None \<and> env \<noteq> Some []
           then [(''environment'', JObj (map (\<lambda>(k, v). (k, json_text v)) (the env)))] else [])
        @ (if unlabeled \<noteq> [] then [(''unlabeled_tests'', JArr (map test_dict unlabeled))] else [])))"

definition report_path :: "path \<Rightarrow> certification_result \<Rightarrow> string \<Rightarrow> path" where
  "report_path output_dir cr ending =
     path_sub output_dir (''cert-'' @ cert_version (cr_certification cr) @ ending)"

definition write_json ::
  "certification_result \<Rightarrow> string option \<Rightarrow> path \<Rightarrow> environment option \<Rightarrow> ('e world, path) io" where
  "write_json cr certified_level output_dir env =
     iseq (mkdir_parents output_dir)
      (let dest = report_path output_dir cr ''.json'' in
       iseq (write_bytes dest (encode (dumps_pretty 0 (json_report cr certified_level env) @ nl)))
            (iret dest))"

section \<open>The Markdown report\<close>

fun result_icon :: "outcome \<Rightarrow> string" where
  "result_icon Pass = '':white_check_mark:''"
| "result_icon Fail = '':x:''"
| "result_icon Error = '':boom:''"
| "result_icon Skip = '':fast_forward:''"
| "result_icon (OtherOutcome s) = s"

definition fmt_duration_md :: "int option \<Rightarrow> string" where
  "fmt_duration_md d =
     (case d of None \<Rightarrow> []
      | Some ms \<Rightarrow> if ms \<ge> 1000 then seconds_text (nat ms) else str_int ms @ ''ms'')"

text \<open>A value in an f-string.\<close>

definition shown :: "string option \<Rightarrow> string" where
  "shown s = (case s of None \<Rightarrow> ''None'' | Some t \<Rightarrow> t)"

definition md_head :: "certification_result \<Rightarrow> string option \<Rightarrow> string list" where
  "md_head cr certified_level =
     [if given certified_level then ''# Achieved Certification Level '' @ the certified_level
      else ''# Failed to Achieve a Certification Level'',
      [],
      ''**Certified level:** '' @ (if given certified_level then the certified_level else ''none'')]
     @ (if given (cert_max_level (cr_certification cr))
        then [''**Max certification level:** '' @ the (cert_max_level (cr_certification cr))] else [])
     @ [''**Started:** '' @ shown (cr_started_at cr), ''**Completed:** '' @ shown (cr_completed_at cr), []]"

definition env_get :: "environment \<Rightarrow> string \<Rightarrow> string option" where
  "env_get env k = (case map_of env k of None \<Rightarrow> None | Some v \<Rightarrow> v)"

definition md_os :: "environment \<Rightarrow> string \<Rightarrow> string \<Rightarrow> string \<Rightarrow> string \<Rightarrow> string list" where
  "md_os env label pretty name release =
     (if given (env_get env pretty) then [''- **'' @ label @ '':** '' @ the (env_get env pretty)]
      else if given (env_get env name) then
        [''- **'' @ label @ '':** '' @ the (env_get env name)
          @ (if given (env_get env release) then '' '' @ the (env_get env release) else [])]
      else [])"

definition md_tool :: "environment \<Rightarrow> string \<Rightarrow> string \<Rightarrow> string \<Rightarrow> string list" where
  "md_tool env label version path =
     (if given (env_get env version) then [''- **'' @ label @ '':** '' @ the (env_get env version)]
      else if given (env_get env path) then [''- **'' @ label @ '':** '' @ the (env_get env path)]
      else [])"

definition md_environment :: "environment option \<Rightarrow> string list" where
  "md_environment environment =
     (if environment = None \<or> environment = Some [] then []
      else
        let env = the environment;
            env_lines =
              md_os env ''Host OS'' ''host_os_pretty_name'' ''host_os_name'' ''host_os_release''
              @ (if given (env_get env ''kernel_version'')
                 then [''- **Host kernel:** '' @ the (env_get env ''kernel_version'')] else [])
              @ md_os env ''Guest OS'' ''guest_os_pretty_name'' ''guest_os_name'' ''guest_os_release''
              @ md_tool env ''QEMU'' ''qemu_version'' ''qemu_binary''
              @ md_tool env ''OVMF'' ''ovmf_version'' ''ovmf_path'' in
        if env_lines = [] then [] else [''## Environment'', []] @ env_lines @ [[]])"

definition md_row :: "test_result \<Rightarrow> string" where
  "md_row tr = ''| '' @ test_name (tr_test tr) @ '' | '' @ test_description (tr_test tr) @ '' | ''
     @ result_icon (tr_result tr) @ '' |''"

definition md_table :: "string \<Rightarrow> test_result list \<Rightarrow> string list" where
  "md_table title trs =
     (if trs = [] then []
      else [title, [], ''| Test | Description | Result |'', ''|------|-------------|--------|'']
           @ map md_row trs @ [[]])"

text \<open>The list \<^verbatim>\<open>failures\<close>: level by level, then the tests without a level.\<close>

definition md_failures :: "certification_result \<Rightarrow> test_result list" where
  "md_failures cr =
     (case group_tests_by_level (cr_test_results cr) of (by_level, unlabeled) \<Rightarrow>
        filter (\<lambda>tr. tr_result tr \<noteq> Pass)
          (concat (map (group_get by_level) (cert_all_levels (cr_certification cr))) @ unlabeled))"

definition md_step :: "step_result \<Rightarrow> string list" where
  "md_step sr =
     (if sr_result sr = Pass \<or> sr_result sr = Skip then []
      else
        [''**'' @ step_name (sr_step sr) @ ''** '' @ em_dash @ '' '' @ outcome_str (sr_result sr)]
        @ (if fmt_duration_md (sr_duration_ms sr) \<noteq> []
           then [''Duration: '' @ fmt_duration_md (sr_duration_ms sr)] else [])
        @ (if given (sr_stderr sr) then [''```'', rstrip (the (sr_stderr sr)), ''```'']
           else if given (sr_stdout sr) then [''```'', rstrip (the (sr_stdout sr)), ''```'']
           else []))"

definition md_failure :: "test_result \<Rightarrow> string list" where
  "md_failure tr =
     [''<details>'',
      ''<summary>'' @ test_name (tr_test tr) @ '' ('' @ outcome_str (tr_result tr) @ '')</summary>'', []]
     @ concat (map md_step (tr_step_results tr)) @ [[], ''</details>'', []]"

definition markdown_report ::
  "certification_result \<Rightarrow> string option \<Rightarrow> environment option \<Rightarrow> string list" where
  "markdown_report cr certified_level env =
     (case group_tests_by_level (cr_test_results cr) of (by_level, unlabeled) \<Rightarrow>
        md_head cr certified_level @ md_environment env
        @ concat (map (\<lambda>level. md_table (''### Level '' @ level) (group_get by_level level))
            (cert_all_levels (cr_certification cr)))
        @ md_table ''### Other Tests'' unlabeled
        @ (if md_failures cr = [] then []
           else [''### Failure Details'', []] @ concat (map md_failure (md_failures cr))))"

definition write_markdown ::
  "certification_result \<Rightarrow> string option \<Rightarrow> path \<Rightarrow> environment option \<Rightarrow> ('e world, path) io" where
  "write_markdown cr certified_level output_dir env =
     iseq (mkdir_parents output_dir)
      (let dest = report_path output_dir cr ''.md'' in
       iseq (write_bytes dest (encode (join nl (markdown_report cr certified_level env) @ nl)))
            (iret dest))"

section \<open>Reading a report\<close>

definition json_at :: "string \<Rightarrow> json \<Rightarrow> json option" where
  "json_at k d = (case d of JObj ms \<Rightarrow> map_of ms k | _ \<Rightarrow> None)"

definition json_array :: "string \<Rightarrow> json \<Rightarrow> json list" where
  "json_array k d = (case json_at k d of Some (JArr xs) \<Rightarrow> xs | _ \<Rightarrow> [])"

text \<open>Every test the report lists: level by level, then those without a level.\<close>

definition listed_tests :: "json \<Rightarrow> json list" where
  "listed_tests doc =
     concat (map (json_array ''tests'') (json_array ''levels'' doc)) @ json_array ''unlabeled_tests'' doc"

lemma report_arrays:
  "json_array ''levels'' (json_report cr l env)
     = map (level_dict (fst (group_tests_by_level (cr_test_results cr)))) (cert_all_levels (cr_certification cr))"
  "json_array ''unlabeled_tests'' (json_report cr l env)
     = map test_dict (filter (\<lambda>tr. \<not> labelled tr) (cr_test_results cr))"
  "json_array ''tests'' (level_dict by_level level) = map test_dict (group_get by_level level)"
  by (auto simp: json_report_def json_array_def json_at_def level_dict_def Let_def group_tests_by_level_def)

lemma level_group:
  assumes "level \<noteq> []"
  shows "group_get (fst (group_tests_by_level trs)) level = filter (\<lambda>tr. test_level (tr_test tr) = level) trs"
proof -
  have "filter (\<lambda>tr. labelled tr \<and> test_level (tr_test tr) = level) trs
      = filter (\<lambda>tr. test_level (tr_test tr) = level) trs"
    using assms by (intro filter_cong) (auto simp: labelled_def)
  then show ?thesis by (simp add: group_tests_by_level_def group_get_by)
qed

text \<open>Sorting a list into distinct buckets loses nothing that has a bucket.\<close>

lemma mset_buckets:
  "distinct ls \<Longrightarrow>
     mset (concat (map (\<lambda>l. filter (\<lambda>x. f x = l) xs) ls)) = filter_mset (\<lambda>x. f x \<in> set ls) (mset xs)"
proof (induction ls)
  case (Cons l ls)
  have "filter_mset (\<lambda>x. f x = l \<or> f x \<in> set ls) (mset xs)
      = filter_mset (\<lambda>x. f x = l) (mset xs) + filter_mset (\<lambda>x. f x \<in> set ls) (mset xs)"
    using Cons.prems by (intro multiset_eqI) auto
  with Cons show ?case by simp
qed simp

text \<open>The levels of a certification: what its construction makes of the manifest's tests.\<close>

definition levels_cover :: "certification_result \<Rightarrow> bool" where
  "levels_cover cr \<longleftrightarrow>
     (let levels = cert_all_levels (cr_certification cr) in
      distinct levels \<and> [] \<notin> set levels \<and>
      (\<forall>tr \<in> set (cr_test_results cr). labelled tr \<longrightarrow> test_level (tr_test tr) \<in> set levels))"

lemma report_buckets:
  assumes "levels_cover cr"
  shows "mset (concat (map (group_get (fst (group_tests_by_level (cr_test_results cr))))
      (cert_all_levels (cr_certification cr))) @ filter (\<lambda>tr. \<not> labelled tr) (cr_test_results cr))
    = mset (cr_test_results cr)"
proof -
  let ?L = "cert_all_levels (cr_certification cr)" and ?T = "cr_test_results cr"
  note c = assms [unfolded levels_cover_def Let_def]
  have "map (group_get (fst (group_tests_by_level ?T))) ?L
      = map (\<lambda>l. filter (\<lambda>tr. test_level (tr_test tr) = l) ?T) ?L"
    using c by (intro map_cong refl level_group) auto
  then have "mset (concat (map (group_get (fst (group_tests_by_level ?T))) ?L))
      = filter_mset (\<lambda>tr. test_level (tr_test tr) \<in> set ?L) (mset ?T)"
    using c by (simp only: mset_buckets)
  also have "\<dots> = filter_mset labelled (mset ?T)"
    using c by (intro filter_mset_cong) (auto simp: labelled_def)
  finally show ?thesis
    using multiset_partition [of "mset ?T" labelled] by simp
qed


section \<open>The levels in the report\<close>

lemma level_dict_result:
  assumes "level \<noteq> []"
  shows "json_at ''result'' (level_dict (fst (group_tests_by_level (cr_test_results cr))) level)
    = Some (JStr (if level_passed cr level then ''pass''
        else if \<exists>tr \<in> set (cr_test_results cr). test_level (tr_test tr) = level then ''fail'' else ''skip''))"
  using assms
  by (auto simp: json_at_def level_dict_def Let_def level_group level_passed_def list_all_iff filter_empty_conv)

lemma certified_level_prefix:
  assumes "highest_certified_level cr = Inr (Some l)" and "distinct (cert_all_levels (cr_certification cr))"
  shows "\<exists>k < length (achieved cr). cert_all_levels (cr_certification cr) ! k = l"
proof -
  let ?L = "cert_all_levels (cr_certification cr)" and ?A = "achieved cr"
  have h: "level_chain (results_by_level cr) None ?L = (if ?A = [] then None else Some (last ?A))"
    by (simp add: level_chain_last achieved_def Let_def)
  with assms(1) have ne: "?A \<noteq> []" by (auto simp: highest_certified_level_def Let_def split: option.splits)
  let ?j = "length ?A - 1"
  have j: "?j < length ?A" using ne by simp
  have len: "length ?A \<le> length ?L" unfolding achieved_def by (rule length_takeWhile_le)
  have last: "last ?A = ?L ! ?j"
    using ne j takeWhile_nth [of ?j "level_passed cr" ?L] by (simp add: last_conv_nth achieved_def)
  from list_index_nth [OF assms(2), of ?j] j len have idx: "list_index ?L (last ?A) = Inr ?j"
    by (simp add: last)
  show ?thesis
  proof (cases "l = last ?A")
    case True
    then show ?thesis using last j by auto
  next
    case False
    with assms(1) h ne obtain cap i where cap: "cert_max_level (cr_certification cr) = Some cap"
      and i: "list_index ?L cap = Inr i" "i < ?j" "l = cap"
      by (auto simp: highest_certified_level_def Let_def idx rbind_eq_Inr split: option.splits if_splits)
    have "list_index xs x = Inr n \<Longrightarrow> n < length xs \<and> xs ! n = x" for xs x n
      by (induction xs arbitrary: n) (auto simp: rbind_eq_Inr split: if_splits)
    then have "?L ! i = cap" using i(1) by blast
    then show ?thesis using i j by (intro exI [of _ i]) auto
  qed
qed

text \<open>
  C24: the levels of the JSON report agree with the certification: one entry per level of the
  manifest, in order, \<^verbatim>\<open>pass\<close> exactly when the level was run and all its tests passed, \<^verbatim>\<open>skip\<close>
  exactly when it was not run; and when a level is certified, it and every level before it are
  reported as passed.
\<close>

theorem report_levels_agree:
  fixes cr :: certification_result and env :: "environment option"
  assumes "levels_cover cr"
  defines "levels \<equiv> cert_all_levels (cr_certification cr)"
    and "entries \<equiv> json_array ''levels'' (json_report cr (projr (highest_certified_level cr)) env)"
  shows "map (json_at ''level'') entries = map (Some \<circ> JStr) levels \<and>
    (\<forall>i < length levels. json_at ''result'' (entries ! i) = Some (JStr
       (if level_passed cr (levels ! i) then ''pass''
        else if \<exists>tr \<in> set (cr_test_results cr). test_level (tr_test tr) = levels ! i then ''fail''
        else ''skip''))) \<and>
    (\<forall>l. highest_certified_level cr = Inr (Some l) \<longrightarrow>
       (\<exists>k < length levels. levels ! k = l \<and>
          (\<forall>i \<le> k. json_at ''result'' (entries ! i) = Some (JStr ''pass''))))"
proof -
  note c = assms(1) [unfolded levels_cover_def Let_def, folded levels_def]
  have e: "entries = map (level_dict (fst (group_tests_by_level (cr_test_results cr)))) levels"
    unfolding entries_def levels_def by (rule report_arrays)
  have names: "map (json_at ''level'') entries = map (Some \<circ> JStr) levels"
    unfolding e by (simp add: json_at_def level_dict_def Let_def)
  have results: "json_at ''result'' (entries ! i) = Some (JStr
       (if level_passed cr (levels ! i) then ''pass''
        else if \<exists>tr \<in> set (cr_test_results cr). test_level (tr_test tr) = levels ! i then ''fail''
        else ''skip''))" if "i < length levels" for i
  proof -
    have "levels ! i \<noteq> []" using c nth_mem [OF that] by metis
    then show ?thesis using that by (simp add: e level_dict_result)
  qed
  have "\<exists>k < length levels. levels ! k = l \<and> (\<forall>i \<le> k. json_at ''result'' (entries ! i) = Some (JStr ''pass''))"
    if certified: "highest_certified_level cr = Inr (Some l)" for l
  proof -
    obtain k where k: "k < length (achieved cr)" "levels ! k = l"
      using certified_level_prefix [OF certified] c by (auto simp: levels_def)
    have len: "length (achieved cr) \<le> length levels"
      unfolding achieved_def levels_def by (rule length_takeWhile_le)
    have "level_passed cr (levels ! i)" if "i \<le> k" for i
    proof -
      have i: "i < length (takeWhile (level_passed cr) levels)"
        using that k(1) by (simp add: achieved_def levels_def)
      show ?thesis using nth_mem [OF i] takeWhile_nth [OF i] by (metis set_takeWhileD)
    qed
    then show ?thesis using k len results by (intro exI [of _ k]) (auto simp: le_less_trans)
  qed
  with names results show ?thesis by blast
qed

section \<open>The report reads back\<close>

lemma blank_indent: "blank (indent n)"
proof -
  have "json_space CHR '' ''" "json_space CHR 0x0A" by code_simp+
  moreover have "list_all json_space (times k '' '')" for k
    using calculation by (induction k) (simp_all add: times_def)
  ultimately show ?thesis by (simp add: blank_def indent_def nl_def)
qed

lemma pretty_text:
  "json_ok v \<longrightarrow> is_text v (dumps_pretty n v)"
  "elems_ok vs \<longrightarrow> vs \<noteq> [] \<longrightarrow> (\<forall>a z. blank a \<longrightarrow> blank z \<longrightarrow>
     elems_text vs (a @ join (CHR '','' # a) (pretty_list n vs) @ z @ '']''))"
  "members_ok ms \<longrightarrow> ms \<noteq> [] \<longrightarrow> (\<forall>a z. blank a \<longrightarrow> blank z \<longrightarrow>
     members_text ms (a @ join (CHR '','' # a) (pretty_members n ms) @ z @ ''}''))"
proof (induction n v and n vs and n ms rule: dumps_pretty_pretty_list_pretty_members.induct)
  case (1 n xs)
  then show ?case using no_elems [of "[]"] arr_text blank_indent [of n] blank_indent [of "Suc n"]
    by (cases xs) (auto simp: pretty_block_def)
next
  case (2 n ms)
  then show ?case using no_members [of "[]"] obj_text blank_indent [of n] blank_indent [of "Suc n"]
    by (cases ms) (auto simp: pretty_block_def)
next
  case (5 n x xs)
  then show ?case using last_elem [of _ x "dumps_pretty (Suc n) x"] next_elem [of _ x "dumps_pretty (Suc n) x" "[]" xs]
    by (cases xs) auto
next
  case (7 n k v ms)
  have "blank '' ''" by code_simp
  with 7 show ?case
    using last_member [of _ k "[]" "'' ''" v "dumps_pretty (Suc n) v"]
      next_member [of _ k "[]" "'' ''" v "dumps_pretty (Suc n) v" "[]" ms]
    by (cases ms; cases "hd ms") auto
qed (auto intro: is_text_elems_text_members_text.intros)

text \<open>The texts a report consists of are valid: what the program reads and decodes always is.\<close>

definition texts :: "string option \<Rightarrow> bool" where
  "texts s \<longleftrightarrow> (\<forall>t \<in> set_option s. utf8_text t)"

definition step_texts :: "step_result \<Rightarrow> bool" where
  "step_texts sr \<longleftrightarrow>
     list_all utf8_text [step_name (sr_step sr), severity_str (step_type (sr_step sr)), kind_str (step_kind (sr_step sr)),
       outcome_str (sr_result sr), step_handler (sr_step sr)] \<and> texts (sr_stdout sr) \<and> texts (sr_stderr sr)"

definition test_texts :: "test_result \<Rightarrow> bool" where
  "test_texts tr \<longleftrightarrow>
     list_all utf8_text [test_name (tr_test tr), test_description (tr_test tr), scope_str (test_scope (tr_test tr)),
       test_level (tr_test tr), outcome_str (tr_result tr)] \<and>
     texts (tr_started_at tr) \<and> texts (tr_completed_at tr) \<and> list_all step_texts (tr_step_results tr)"

definition report_texts :: "certification_result \<Rightarrow> bool" where
  "report_texts cr \<longleftrightarrow>
     list_all utf8_text (cert_version (cr_certification cr) # cert_description (cr_certification cr)
       # outcome_str (cr_result cr) # cert_all_levels (cr_certification cr)) \<and>
     texts (cert_max_level (cr_certification cr)) \<and> texts (cr_started_at cr) \<and> texts (cr_completed_at cr) \<and>
     list_all test_texts (cr_test_results cr)"

definition environment_texts :: "environment option \<Rightarrow> bool" where
  "environment_texts env \<longleftrightarrow> (\<forall>e \<in> set_option env. distinct (map fst e) \<and> list_all (\<lambda>(k, v). utf8_text k \<and> texts v) e)"

lemma key_texts:
  "list_all utf8_text [''name'', ''type'', ''kind'', ''result'', ''handler'', ''duration_ms'', ''stdout'', ''stderr'',
     ''exit_code'', ''description'', ''scope'', ''level'', ''started_at'', ''completed_at'', ''steps'', ''tests'',
     ''schema_version'', ''certification_version'', ''certified_level'', ''max_certification_level'', ''levels'',
     ''environment'', ''unlabeled_tests'', ''1.0'', ''pass'', ''fail'', ''skip'']"
  by (simp add: utf8_text_ascii is_ascii_def code_of_def)

lemmas key_text = key_texts [unfolded list.pred_inject(2) list.pred_inject(1)]

lemma elems_ok_iff: "elems_ok vs \<longleftrightarrow> (\<forall>v \<in> set vs. json_ok v)"
  by (induction vs) auto

lemma members_ok_iff: "members_ok ms \<longleftrightarrow> (\<forall>(k, v) \<in> set ms. utf8_text k \<and> json_ok v)"
  by (induction ms) auto

lemma json_ok_text: "texts s \<Longrightarrow> json_ok (json_text s)"
  by (auto simp: json_text_def texts_def split: option.split)

lemma members_ok_append: "members_ok (a @ b) \<longleftrightarrow> members_ok a \<and> members_ok b"
  by (auto simp: members_ok_iff)

lemma distinct_subseq: "subseq xs ys \<Longrightarrow> distinct ys \<Longrightarrow> distinct xs"
  by (auto simp: subseq_conv_nths distinct_nthsI)

lemma subseq_keys:
  "subseq (map fst a) ks \<Longrightarrow> subseq (map fst b) ls \<Longrightarrow> subseq (map fst (a @ b)) (ks @ ls)"
  by (simp add: list_emb_append_mono)

lemma subseq_optional:
  "subseq (map fst (if b then [(k, v)] else [])) [k]"
  "subseq (map fst (case x of None \<Rightarrow> [] | Some y \<Rightarrow> [(k, f y)])) [k]"
  "subseq (map fst ms) ks \<Longrightarrow> subseq (map fst (if b then ms else [])) ks"
  by (simp_all split: option.split)

lemma json_ok_step:
  assumes "step_texts sr"
  shows "json_ok (step_dict sr include_output)"
proof -
  have "members_ok ms" if "step_dict sr include_output = JObj ms" for ms
    using assms that unfolding step_texts_def step_dict_def
    by (auto simp: key_text members_ok_append json_ok_text split: option.splits if_splits)
  moreover have "distinct (map fst ms)" if "step_dict sr include_output = JObj ms" for ms
  proof -
    have "subseq (map fst ms) ([''name'', ''type'', ''kind'', ''result''] @ [''handler''] @ [''duration_ms'']
        @ ([''stdout''] @ [''stderr''] @ [''exit_code'']))"
      using that unfolding step_dict_def json.inject
      by (elim subst) (intro subseq_keys subseq_optional, simp)
    then show ?thesis by (rule distinct_subseq) simp
  qed
  ultimately show ?thesis by (simp add: step_dict_def)
qed

lemma json_ok_test:
  assumes "test_texts tr"
  shows "json_ok (test_dict tr)"
proof -
  have "json_ok (step_dict sr b)" if "sr \<in> set (tr_step_results tr)" for sr b
    using assms that json_ok_step by (simp add: test_texts_def list_all_iff)
  then show ?thesis
    using assms by (simp add: test_dict_def test_texts_def key_text elems_ok_iff json_ok_text)
qed

lemma json_ok_level:
  assumes "utf8_text level" and "list_all test_texts trs"
  shows "json_ok (level_dict (fst (group_tests_by_level trs)) level)"
proof -
  have "set (group_get (fst (group_tests_by_level trs)) level) \<subseteq> set trs"
    by (auto simp: group_tests_by_level_def group_get_by)
  then show ?thesis
    using assms json_ok_test by (auto simp: level_dict_def Let_def key_text elems_ok_iff list_all_iff)
qed

lemma json_ok_environment: "environment_texts (Some e) \<Longrightarrow> json_ok (JObj (map (\<lambda>(k, v). (k, json_text v)) e))"
  by (auto simp: environment_texts_def members_ok_iff list_all_iff json_ok_text case_prod_unfold comp_def)

lemma json_ok_report:
  assumes "report_texts cr" and "texts certified_level" and "environment_texts env"
  shows "json_ok (json_report cr certified_level env)"
proof -
  let ?trs = "cr_test_results cr" and ?levels = "cert_all_levels (cr_certification cr)"
  have t: "list_all test_texts ?trs" using assms(1) by (simp add: report_texts_def)
  then have "json_ok (JArr (map (level_dict (fst (group_tests_by_level ?trs))) ?levels))"
    using assms(1) json_ok_level by (auto simp: elems_ok_iff report_texts_def list_all_iff)
  moreover have "json_ok (JArr (map test_dict (snd (group_tests_by_level ?trs))))"
    using t json_ok_test by (auto simp: elems_ok_iff list_all_iff group_tests_by_level_def)
  moreover have "env \<noteq> None \<Longrightarrow> json_ok (JObj (map (\<lambda>(k, v). (k, json_text v)) (the env)))"
    using assms(3) json_ok_environment by auto
  moreover have "members_ok ms" if "json_report cr certified_level env = JObj ms" for ms
    using calculation assms(1,2) that unfolding report_texts_def json_report_def
    by (auto simp: Let_def case_prod_unfold key_text members_ok_append json_ok_text simp del: json_ok.simps(6,7))
  moreover have "distinct (map fst ms)" if "json_report cr certified_level env = JObj ms" for ms
  proof -
    have "subseq (map fst ms) ([''schema_version'', ''certification_version'', ''description'', ''result'', ''certified_level'',
        ''max_certification_level'', ''started_at'', ''completed_at'', ''levels''] @ [''environment''] @ [''unlabeled_tests''])"
      using that unfolding json_report_def Let_def case_prod_unfold json.inject
      by (elim subst) (intro subseq_keys subseq_optional, simp)
    then show ?thesis by (rule distinct_subseq) simp
  qed
  moreover obtain ms where "json_report cr certified_level env = JObj ms"
    by (simp add: json_report_def Let_def case_prod_unfold)
  ultimately show ?thesis by simp
qed

text \<open>
  C16: the written report reads back: when the JSON report is written, the file at the path that is
  returned decodes and parses to exactly the report, whatever the tests put into their output.
\<close>

theorem report_reads_back:
  assumes "report_texts cr" and "texts certified_level" and "environment_texts env"
    and "write_json cr certified_level dir env w = (Inr dest, w')"
  shows "\<exists>file. w_files w' dest = Some file \<and>
    rbind (decode_strict file) loads = Inr (json_report cr certified_level env)"
proof -
  let ?doc = "json_report cr certified_level env" and ?text = "dumps_pretty 0 (json_report cr certified_level env)"
  have ok: "is_text ?doc ?text" using pretty_text(1) json_ok_report [OF assms(1-3)] by blast
  have nl: "blank nl" by code_simp
  have "list_all is_ascii (?text @ nl)" using is_text_ascii(1) [OF ok] is_ascii_blank [OF nl] by simp
  then have "decode_strict (encode (?text @ nl)) = Inr (?text @ nl)" by (rule decode_strict_ascii)
  moreover have "loads (?text @ nl) = Inr ?doc" using loads_text [OF ok, of "[]" nl] nl by simp
  moreover have "w_files w' dest = Some (encode (?text @ nl))"
    using assms(4) by (auto simp: write_json_def Let_def iseq_def ibind_eq_Inr write_bytes_def split: option.splits)
  ultimately show ?thesis by simp
qed

section \<open>Concrete instances\<close>

lemma capped_covered: "levels_cover capped_result"
  by (simp add: levels_cover_def capped_result_def level_result_def demo_test_def labelled_def)


theorem report_levels_agree_witness:
  "let entries = json_array ''levels'' (json_report capped_result (projr (highest_certified_level capped_result)) None) in
   json_at ''result'' (entries ! 0) = Some (JStr ''pass'') \<and>
   json_at ''result'' (entries ! 2) = Some (JStr ''fail'')"
proof -
  have l: "length (cert_all_levels (cr_certification capped_result)) = 3"
    "level_passed capped_result (cert_all_levels (cr_certification capped_result) ! 0)"
    "\<not> level_passed capped_result (cert_all_levels (cr_certification capped_result) ! 2)"
    "\<exists>tr \<in> set (cr_test_results capped_result). test_level (tr_test tr)
       = cert_all_levels (cr_certification capped_result) ! 2"
    by (simp_all add: level_passed_def capped_result_def level_result_def demo_test_def)
  from report_levels_agree [OF capped_covered, of None] l show ?thesis
    unfolding Let_def by (elim conjE) (intro conjI, simp_all)
qed

theorem report_reads_back_witness:
  "\<exists>dest w'. write_json capped_result (Some ''3.0.0-0'') (Path [] [''out'']) None (empty_world ()) = (Inr dest, w') \<and>
     (\<exists>file. w_files w' dest = Some file \<and>
        rbind (decode_strict file) loads = Inr (json_report capped_result (Some ''3.0.0-0'') None))"
proof -
  let ?dest = "Path [] [''out'', ''cert-3.0.json'']"
  have "report_path (Path [] [''out'']) capped_result ''.json'' = ?dest" by code_simp
  then obtain w' where w: "write_json capped_result (Some ''3.0.0-0'') (Path [] [''out'']) None (empty_world ()) = (Inr ?dest, w')"
    by (simp add: write_json_def Let_def iseq_def ibind_def mkdir_parents_def write_bytes_def open_error_def empty_world_def
      path_parent_def)
  have "report_texts capped_result" "texts (Some ''3.0.0-0'')" "environment_texts None"
    by (simp_all add: report_texts_def texts_def environment_texts_def test_texts_def capped_result_def level_result_def
      demo_test_def demo_cert_def utf8_text_ascii is_ascii_def code_of_def)
  from report_reads_back [OF this w] w show ?thesis by blast
qed

end
