(* ===== verification/Selection.thy ===== *)
theory Selection
  imports Output "HOL-Library.List_Lexorder"
begin

text \<open>
  Which tests run, \<^verbatim>\<open>sev_verify/cli.py\<close>: the manifests and the prerequisites read from TOML, the
  version filters of the command line, the manifests they select, and the notice of host changes.

  \<^verbatim>\<open>tomllib\<close> is the parameter \<open>toml\<close>: a table is the list of its members (type \<open>json\<close>; dates
  are not represented). A field of a test whose value has another type than it is declared with
  is represented by its text.
\<close>

type_synonym toml = "bytes \<Rightarrow> exc + (string \<times> json) list"

section \<open>Entries\<close>

definition field_text :: "(string \<Rightarrow> string) \<Rightarrow> json \<Rightarrow> string" where
  "field_text fs v = (case v of JStr s \<Rightarrow> s | _ \<Rightarrow> if truthy v then json_str fs v else [])"

definition required_test_fields :: "string list" where
  "required_test_fields = [''name'', ''module'', ''scope'']"

definition test_fields :: "string list" where
  "test_fields = required_test_fields @ [''description'', ''level'', ''host_changes'']"

text \<open>The names in a message of a call with missing arguments.\<close>

fun and_list :: "string list \<Rightarrow> string" where
  "and_list [] = []"
| "and_list [a] = a"
| "and_list [a, b] = a @ '' and '' @ b"
| "and_list (a # rest) = a @ '', '' @ join '', '' (butlast rest) @ '', and '' @ last rest"

text \<open>\<^verbatim>\<open>TestDefinition(**entry)\<close>: the keywords are matched with the fields, then the defaults filled in.\<close>

definition unknown_field :: "(string \<times> json) list \<Rightarrow> string option" where
  "unknown_field entry = find (\<lambda>k. \<not> List.member test_fields k) (map fst entry)"

definition missing_fields :: "(string \<times> json) list \<Rightarrow> string list" where
  "missing_fields entry = filter (\<lambda>k. map_of entry k = None) required_test_fields"

definition entry_text :: "(string \<Rightarrow> string) \<Rightarrow> (string \<times> json) list \<Rightarrow> string \<Rightarrow> string" where
  "entry_text fs entry k = (case map_of entry k of None \<Rightarrow> [] | Some v \<Rightarrow> field_text fs v)"

definition test_of_entry :: "(string \<Rightarrow> string) \<Rightarrow> (string \<times> json) list \<Rightarrow> exc + test_definition" where
  "test_of_entry fs entry =
     (case unknown_field entry of
        Some k \<Rightarrow> raise TypeError (''TestDefinition.__init__() got an unexpected keyword argument '' @ repr_str k)
      | None \<Rightarrow>
          if missing_fields entry \<noteq> [] then
            raise TypeError (''TestDefinition.__init__() missing '' @ nat_str 10 (length (missing_fields entry))
              @ '' required positional argument'' @ (if length (missing_fields entry) = 1 then [] else ''s'') @ '': ''
              @ and_list (map repr_str (missing_fields entry)))
          else
            test_post_init
              \<lparr>test_name = entry_text fs entry ''name'', test_module = entry_text fs entry ''module'',
               test_scope = scope_of (entry_text fs entry ''scope''),
               test_description = entry_text fs entry ''description'', test_level = entry_text fs entry ''level'',
               test_host_changes = (case map_of entry ''host_changes'' of None \<Rightarrow> False | Some v \<Rightarrow> truthy v)\<rparr>)"

fun load_entries :: "(string \<Rightarrow> string) \<Rightarrow> path \<Rightarrow> nat \<Rightarrow> json list \<Rightarrow> exc + test_definition list" where
  "load_entries fs p i [] = Inr []"
| "load_entries fs p i (entry # entries) =
     (let here = path_str p @ '': tests['' @ nat_str 10 i @ '']'' in
      rbind (case entry of
          JObj ms \<Rightarrow>
            (case test_of_entry fs ms of
               Inr t \<Rightarrow> Inr t
             | Inl e \<Rightarrow>
                 if is_a e TypeError then raise ValueError (here @ '' has invalid fields: '' @ msg_of e)
                 else if is_a e ValueError then raise ValueError (here @ '': '' @ msg_of e)
                 else Inl e)
        | _ \<Rightarrow> raise ValueError (here @ '' must be a table''))
      (\<lambda>t. rbind (load_entries fs p (Suc i) entries) (\<lambda>ts. Inr (t # ts))))"

definition load_test_entries ::
  "(string \<Rightarrow> string) \<Rightarrow> path \<Rightarrow> (string \<times> json) list \<Rightarrow> exc + test_definition list" where
  "load_test_entries fs p data =
     (case map_of data ''tests'' of
        None \<Rightarrow> Inr []
      | Some (JArr entries) \<Rightarrow> load_entries fs p 0 entries
      | Some _ \<Rightarrow> raise ValueError (path_str p @ '': '' @ repr_str ''tests'' @ '' must be an array of tables''))"

section \<open>Manifests\<close>

definition read_toml :: "toml \<Rightarrow> path \<Rightarrow> ('e world, (string \<times> json) list) io" where
  "read_toml toml p = ibind (read_bytes p) (\<lambda>b. ilift (toml b))"

definition manifest_of :: "(string \<Rightarrow> string) \<Rightarrow> path \<Rightarrow> (string \<times> json) list \<Rightarrow> exc + certification" where
  "manifest_of fs p data =
     (case find (\<lambda>k. map_of data k = None) [''version'', ''description''] of
        Some k \<Rightarrow> raise ValueError (path_str p @ '': missing required key '' @ repr_str k)
      | None \<Rightarrow>
          rbind (load_test_entries fs p data) (\<lambda>tests.
            certification_post_init
              \<lparr>cert_version = json_str fs (the (map_of data ''version'')),
               cert_description = json_str fs (the (map_of data ''description'')),
               cert_tests = tests, cert_all_levels = [],
               cert_max_level = map_option (json_str fs) (map_of data ''max_certification_level'')\<rparr>))"

definition load_manifest :: "'e ops \<Rightarrow> toml \<Rightarrow> path \<Rightarrow> ('e world, certification) io" where
  "load_manifest ops toml p =
     ibind
       (\<lambda>w. case read_toml toml p w of
          (Inl e, w') \<Rightarrow>
            (if is_a e OSError then raise ValueError (''Cannot read manifest '' @ path_str p @ '': '' @ msg_of e)
             else if is_a e TOMLDecodeError then
               raise ValueError (''Malformed TOML in '' @ path_str p @ '': '' @ msg_of e)
             else Inl e, w')
        | (Inr data, w') \<Rightarrow> (Inr data, w'))
       (\<lambda>data. ilift (manifest_of (op_float_str ops) p data))"

definition load_prereqs :: "'e ops \<Rightarrow> toml \<Rightarrow> path \<Rightarrow> ('e world, test_definition list) io" where
  "load_prereqs ops toml cert_dir =
     (let p = path_sub (path_sub cert_dir ''common'') ''prereqs.toml'' in
      ibind (iget (path_exists p)) (\<lambda>there.
        if \<not> there then iret []
        else
          ibind
            (\<lambda>w. case read_toml toml p w of
               (Inl e, w') \<Rightarrow>
                 (if is_a e OSError \<or> is_a e TOMLDecodeError
                  then raise ValueError (''Cannot load prereqs '' @ path_str p @ '': '' @ msg_of e)
                  else Inl e, w')
             | (Inr data, w') \<Rightarrow> (Inr data, w'))
            (\<lambda>data. ilift (load_test_entries (op_float_str ops) p data))))"

section \<open>Filters\<close>

definition parse_version_filters :: "string list \<Rightarrow> string list" where
  "parse_version_filters raw =
     filter (\<lambda>part. part \<noteq> []) (map strip (concat (map (split_on CHR '','') raw)))"

definition manifest_version :: "string \<Rightarrow> string" where
  "manifest_version f = join ''.'' (take 2 (split_on CHR ''.'' f))"

definition matches_level :: "string \<Rightarrow> string \<Rightarrow> bool" where
  "matches_level level f =
     (if level = [] then False
      else if f = level then True
      else if \<not> contains ''-'' f \<and> startswith level (f @ ''-'') then True
      else False)"

definition filter_tests :: "certification \<Rightarrow> string list \<Rightarrow> exc + certification" where
  "filter_tests cert filters =
     (if filters = [] then Inr cert
      else certification_post_init
        \<lparr>cert_version = cert_version cert, cert_description = cert_description cert,
         cert_tests = filter (\<lambda>t. list_ex (matches_level (test_level t)) filters) (cert_tests cert),
         cert_all_levels = cert_all_levels cert, cert_max_level = cert_max_level cert\<rparr>)"

section \<open>Discovery\<close>

definition manifest_path :: "path \<Rightarrow> string \<Rightarrow> path" where
  "manifest_path cert_dir subfolder = path_sub (path_sub cert_dir subfolder) ''manifest.toml''"

definition version_folder :: "string \<Rightarrow> string" where
  "version_folder mv = ''c'' @ map (\<lambda>c. if c = CHR ''.'' then CHR ''_'' else c) mv"

text \<open>\<^verbatim>\<open>sorted(cert_dir.glob("*/manifest.toml"))\<close>\<close>

definition all_manifests :: "'e host \<Rightarrow> path \<Rightarrow> 'e world \<Rightarrow> path list" where
  "all_manifests host cert_dir w =
     filter (\<lambda>p. path_exists p w)
       (map (\<lambda>name. Path (path_root cert_dir) (path_parts cert_dir @ [name, ''manifest.toml'']))
         (sort (host_listing host cert_dir w)))"

text \<open>The level filters of a version: none when the bare version is among the filters.\<close>

definition level_filters :: "string list \<Rightarrow> string \<Rightarrow> string list" where
  "level_filters version_filters mv =
     (let run_all = filter (\<lambda>f. f = manifest_version f) version_filters;
          per_manifest = group_by (\<lambda>f. f \<noteq> manifest_version f) manifest_version (\<lambda>f. f) version_filters in
      if List.member run_all mv then [] else group_get per_manifest mv)"

fun selected_manifests ::
  "path \<Rightarrow> string list \<Rightarrow> string list \<Rightarrow> ('e world, (path \<times> string list) list) io" where
  "selected_manifests cert_dir version_filters [] = iret []"
| "selected_manifests cert_dir version_filters (mv # mvs) =
     (let mpath = manifest_path cert_dir (version_folder mv) in
      ibind (iget (path_exists mpath)) (\<lambda>there.
        if \<not> there then
          iseq (print_err (''Error: no manifest for version '' @ repr_str mv @ '' (expected ''
                  @ path_str mpath @ '')''))
               (selected_manifests cert_dir version_filters mvs)
        else
          ibind (selected_manifests cert_dir version_filters mvs) (\<lambda>rest.
            iret ((mpath, level_filters version_filters mv) # rest))))"

definition discover_manifests ::
  "'e host \<Rightarrow> path \<Rightarrow> string list \<Rightarrow> ('e world, (path \<times> string list) list) io" where
  "discover_manifests host cert_dir version_filters =
     ibind (iget (\<lambda>w. w_dirs w cert_dir)) (\<lambda>is_dir.
       if \<not> is_dir then iret []
       else if version_filters = [] then
         iget (\<lambda>w. map (\<lambda>p. (p, [])) (all_manifests host cert_dir w))
       else selected_manifests cert_dir version_filters (dedup (map manifest_version version_filters)))"

section \<open>The notice of host changes\<close>

text \<open>The selected tests of the manifests that load, with the level or version they are shown under.\<close>

fun host_change_tests ::
  "'e ops \<Rightarrow> toml \<Rightarrow> (path \<times> string list) list \<Rightarrow> ('e world, (string \<times> string) list) io" where
  "host_change_tests ops toml [] = iret []"
| "host_change_tests ops toml ((p, filters) # entries) =
     ibind (itry ValueError
              (ibind (load_manifest ops toml p) (\<lambda>cert.
               ibind (ilift (filter_tests cert filters)) (\<lambda>sub.
                 iret (map (\<lambda>t. (if test_level t \<noteq> [] then test_level t else cert_version sub, test_name t))
                   (filter test_host_changes (cert_tests sub))))))
              (\<lambda>_. iret [])) (\<lambda>here.
     ibind (host_change_tests ops toml entries) (\<lambda>rest. iret (here @ rest)))"

definition bullet :: string where "bullet = [CHR 0xE2, CHR 0x80, CHR 0xA2]"

definition host_changes_lines :: "bool \<Rightarrow> (string \<times> string) list \<Rightarrow> string list" where
  "host_changes_lines allowed tests =
     (let by_level = group_by (\<lambda>_. True) fst snd tests in
      if by_level = [] then []
      else
        [''   Host changes: --allow-host-changes ''
           @ (if allowed then ''enabled'' else ''disabled (tests skipped/downgraded)''),
         ''   Tests that may change host state (boot-session-only, reset on reboot):'']
        @ concat (map (\<lambda>level. map (\<lambda>name. ''     '' @ bullet @ '' '' @ level @ ''  '' @ name)
             (group_get by_level level)) (sort (map fst by_level)))
        @ [[]])"

definition print_host_changes_notice ::
  "'e ops \<Rightarrow> toml \<Rightarrow> (path \<times> string list) list \<Rightarrow> bool \<Rightarrow> ('e world, unit) io" where
  "print_host_changes_notice ops toml entries allowed =
     ibind (host_change_tests ops toml entries) (\<lambda>tests.
       iforeach (host_changes_lines allowed tests) flush_line)"

section \<open>Properties: filters\<close>

lemma matches_level_iff:
  "matches_level level f \<longleftrightarrow>
     level \<noteq> [] \<and> (f = level \<or> (\<not> contains ''-'' f \<and> (\<exists>rest. level = f @ ''-'' @ rest)))"
  by (auto simp: matches_level_def startswith_iff)

lemma first_raise_error:
  "first_raise gs = Inl e \<Longrightarrow> e \<in> snd ` set gs"
  by (induction gs rule: first_raise.induct) (auto split: if_splits)

lemma test_post_init_Inr:
  assumes "test_post_init t = Inr t'"
  shows "t' = t" "test_name t \<noteq> []" "test_module t \<noteq> []" "\<not> is_other_scope (test_scope t)"
  using assms by (auto simp: test_post_init_def rbind_eq_Inr split: if_splits)

lemma load_entries_Inr:
  "load_entries fs p i entries = Inr ts \<Longrightarrow>
     list_all2 (\<lambda>entry t. \<exists>ms. entry = JObj ms \<and> test_of_entry fs ms = Inr t) entries ts"
proof (induction fs p i entries arbitrary: ts rule: load_entries.induct)
  case (2 fs p i entry entries)
  then show ?case
    by (auto simp: Let_def rbind_eq_Inr split: json.splits sum.splits if_splits)
qed simp

text \<open>What an accepted entry holds, and the test made of it.\<close>

definition entry_holds :: "(string \<Rightarrow> string) \<Rightarrow> json \<Rightarrow> test_definition \<Rightarrow> bool" where
  "entry_holds fs entry t \<longleftrightarrow>
     (\<exists>ms. entry = JObj ms \<and> fst ` set ms \<subseteq> set test_fields \<and>
        (\<forall>k \<in> set required_test_fields. map_of ms k \<noteq> None) \<and>
        test_name t = entry_text fs ms ''name'' \<and> test_module t = entry_text fs ms ''module'' \<and>
        test_scope t = scope_of (entry_text fs ms ''scope'') \<and> test_level t = entry_text fs ms ''level'')"

lemma test_of_entry_Inr:
  assumes "test_of_entry fs ms = Inr t"
  shows "entry_holds fs (JObj ms) t" "test_name t \<noteq> []" "test_module t \<noteq> []"
    "\<not> is_other_scope (test_scope t)"
proof -
  have known: "unknown_field ms = None" and here: "missing_fields ms = []"
    using assms by (auto simp: test_of_entry_def split: option.split_asm if_split_asm)
  let ?t = "\<lparr>test_name = entry_text fs ms ''name'', test_module = entry_text fs ms ''module'',
      test_scope = scope_of (entry_text fs ms ''scope''), test_description = entry_text fs ms ''description'',
      test_level = entry_text fs ms ''level'',
      test_host_changes = (case map_of ms ''host_changes'' of None \<Rightarrow> False | Some v \<Rightarrow> truthy v)\<rparr>"
  have "test_post_init ?t = Inr t" using assms by (simp add: test_of_entry_def known here)
  note i = test_post_init_Inr [OF this]
  have "fst ` set ms \<subseteq> set test_fields"
    using known by (auto simp: unknown_field_def find_None_iff)
  moreover have "\<forall>k \<in> set required_test_fields. map_of ms k \<noteq> None"
    using here by (simp add: missing_fields_def filter_empty_conv)
  ultimately show "entry_holds fs (JObj ms) t" using i(1) by (simp add: entry_holds_def)
  show "test_name t \<noteq> []" "test_module t \<noteq> []" "\<not> is_other_scope (test_scope t)"
    using i(1) i(2-4) by simp_all
qed

text \<open>
  What the manifest declares is what can run: when the entries load, there is one test per
  entry in order, with the entry's name, module, scope and level; every test has a name, a module
  and a known scope, and no entry has a field the tests do not have.
\<close>

theorem loaded_tests_valid:
  assumes "load_test_entries fs p data = Inr ts" and "map_of data ''tests'' = Some raw"
  shows "\<exists>entries. raw = JArr entries \<and> list_all2 (entry_holds fs) entries ts \<and>
    (\<forall>t \<in> set ts. test_name t \<noteq> [] \<and> test_module t \<noteq> [] \<and>
       test_scope t \<in> {HostScope, GuestScope, MixedScope})"
proof -
  obtain entries where raw: "raw = JArr entries" and l: "load_entries fs p 0 entries = Inr ts"
    using assms by (auto simp: load_test_entries_def split: json.splits)
  have "list_all2 (\<lambda>entry t. entry_holds fs entry t \<and> test_name t \<noteq> [] \<and> test_module t \<noteq> [] \<and>
      test_scope t \<in> {HostScope, GuestScope, MixedScope}) entries ts"
    by (rule list_all2_mono [OF load_entries_Inr [OF l]])
      (auto dest: test_of_entry_Inr simp: is_other_scope_def split: scope.splits)
  then have "list_all2 (entry_holds fs) entries ts" "\<forall>t \<in> set ts. test_name t \<noteq> [] \<and>
      test_module t \<noteq> [] \<and> test_scope t \<in> {HostScope, GuestScope, MixedScope}"
    by (induction rule: list_all2_induct) auto
  with raw show ?thesis by blast
qed

text \<open>
  Filtering keeps the manifest's identity: version, levels and cap, so the certified level is
  computed over the whole manifest.
\<close>

lemma filter_tests_Inr:
  assumes "filter_tests cert filters = Inr sub"
  shows "cert_version sub = cert_version cert" "cert_max_level sub = cert_max_level cert"
    "cert_all_levels cert \<noteq> [] \<Longrightarrow> cert_all_levels sub = cert_all_levels cert"
    "filters \<noteq> [] \<Longrightarrow> cert_tests sub
       = filter (\<lambda>t. list_ex (matches_level (test_level t)) filters) (cert_tests cert)"
    "filters = [] \<Longrightarrow> sub = cert"
  using assms by (auto simp: filter_tests_def dest: certification_post_init_Inr split: if_splits)

text \<open>A manifest's level list covers its tests.\<close>

definition manifest_cert :: "certification \<Rightarrow> bool" where
  "manifest_cert cert \<longleftrightarrow>
     cert_version cert \<noteq> [] \<and> cert_all_levels cert = declared_levels (cert_tests cert) \<and>
     (\<forall>cap. cert_max_level cert = Some cap \<longrightarrow> cert_all_levels cert = [] \<or> cap \<in> set (cert_all_levels cert))"

lemma manifest_of_cert: "manifest_of fs p data = Inr cert \<Longrightarrow> manifest_cert cert"
proof -
  assume "manifest_of fs p data = Inr cert"
  then obtain c where c: "certification_post_init c = Inr cert" "cert_all_levels c = []"
    by (auto simp: manifest_of_def rbind_eq_Inr split: option.splits)
  note i = certification_post_init_Inr [OF c(1)]
  show ?thesis unfolding manifest_cert_def
    using i(1,2,5,6) c(2) i(7) by simp
qed

lemma load_manifest_cert:
  "load_manifest ops toml p w = (Inr cert, w') \<Longrightarrow> manifest_cert cert"
  unfolding load_manifest_def
  by (auto simp: ibind_eq_Inr intro: manifest_of_cert split: prod.splits sum.splits)

lemma filter_manifest:
  assumes "manifest_cert cert"
  shows "\<exists>sub. filter_tests cert filters = Inr sub \<and> cert_all_levels sub = cert_all_levels cert"
proof (cases "filters = []")
  case False
  let ?T = "filter (\<lambda>t. list_ex (matches_level (test_level t)) filters) (cert_tests cert)"
  have none: "?T = []" if "cert_all_levels cert = []"
  proof -
    have "set (declared_levels (cert_tests cert)) = {}" using that assms by (simp add: manifest_cert_def)
    then show ?thesis unfolding set_declared_levels by (auto simp: filter_empty_conv matches_level_iff list_ex_iff)
  qed
  then show ?thesis using assms False
    by (auto simp: filter_tests_def certification_post_init_def manifest_cert_def Let_def split: option.splits)
qed (simp add: filter_tests_def)

section \<open>Properties: discovery\<close>

lemma selected_manifests_Inr:
  "selected_manifests d vfs mvs w = (Inr entries, w') \<Longrightarrow>
     entries = map (\<lambda>mv. (manifest_path d (version_folder mv), level_filters vfs mv))
       (filter (\<lambda>mv. path_exists (manifest_path d (version_folder mv)) w) mvs) \<and> w_files w' = w_files w"
proof (induction mvs arbitrary: w entries w')
  case (Cons mv mvs)
  let ?p = "manifest_path d (version_folder mv)"
  have same: "path_exists q (w\<lparr>w_err := x\<rparr>) = path_exists q w" for q x by (simp add: path_exists_def)
  show ?case
  proof (cases "path_exists ?p w")
    case False
    with Cons.prems obtain x where "selected_manifests d vfs mvs (w\<lparr>w_err := x\<rparr>) = (Inr entries, w')"
      by (auto simp: Let_def iseq_def ibind_def print_err_def)
    from Cons.IH [OF this] False show ?thesis by (simp add: same)
  next
    case True
    with Cons.prems obtain rest where "selected_manifests d vfs mvs w = (Inr rest, w')"
      "entries = (?p, level_filters vfs mv) # rest"
      by (auto simp: Let_def ibind_eq_Inr)
    with Cons.IH True show ?thesis by simp
  qed
qed simp

text \<open>The filters of one manifest, read together.\<close>

definition wanted :: "string list \<Rightarrow> string \<Rightarrow> string \<Rightarrow> bool" where
  "wanted version_filters mv level \<longleftrightarrow>
     (\<exists>f \<in> set version_filters. manifest_version f = mv \<and> (f = mv \<or> matches_level level f))"

lemma level_filters_wanted:
  assumes "mv \<in> manifest_version ` set vfs"
  shows "level_filters vfs mv = [] \<or> list_ex (matches_level level) (level_filters vfs mv) \<longleftrightarrow> wanted vfs mv level"
proof (cases "mv \<in> set vfs \<and> manifest_version mv = mv")
  case True
  then have "level_filters vfs mv = []" by (auto simp: level_filters_def Let_def)
  then show ?thesis using True by (auto simp: wanted_def)
next
  case False
  have g: "level_filters vfs mv = filter (\<lambda>f. f \<noteq> manifest_version f \<and> manifest_version f = mv) vfs"
    using False by (auto simp: level_filters_def Let_def group_get_by)
  obtain f where "f \<in> set vfs" "manifest_version f = mv" using assms by blast
  moreover from this have "f \<noteq> mv" using False by blast
  ultimately have "f \<in> set (level_filters vfs mv)" by (simp add: g)
  then have "level_filters vfs mv \<noteq> []" by auto
  then show ?thesis using False by (auto simp: g wanted_def list_ex_iff)
qed

text \<open>
  C23: the filters select exactly what they name: with filters, the entries found are those of the
  named versions whose manifest exists, in the order they were first named; and a test of such a
  manifest is kept exactly when some filter names its version, bare or with a level that is the
  test's own or that its level refines.
\<close>

theorem selection_exact:
  assumes "discover_manifests host d vfs w = (Inr entries, w')" and "vfs \<noteq> []" and "w_dirs w d"
  shows "map fst entries = map (\<lambda>mv. manifest_path d (version_folder mv))
      (filter (\<lambda>mv. path_exists (manifest_path d (version_folder mv)) w) (dedup (map manifest_version vfs))) \<and>
    (\<forall>(p, filters) \<in> set entries. \<exists>mv. p = manifest_path d (version_folder mv) \<and>
       (\<forall>cert sub t. filter_tests cert filters = Inr sub \<longrightarrow>
          (t \<in> set (cert_tests sub) \<longleftrightarrow> t \<in> set (cert_tests cert) \<and> wanted vfs mv (test_level t))))"
proof -
  from assms have "selected_manifests d vfs (dedup (map manifest_version vfs)) w = (Inr entries, w')"
    by (simp add: discover_manifests_def)
  from selected_manifests_Inr [OF this] have
    e: "entries = map (\<lambda>mv. (manifest_path d (version_folder mv), level_filters vfs mv))
       (filter (\<lambda>mv. path_exists (manifest_path d (version_folder mv)) w) (dedup (map manifest_version vfs)))"
    by blast
  have kept: "t \<in> set (cert_tests sub) \<longleftrightarrow> t \<in> set (cert_tests cert) \<and> wanted vfs mv (test_level t)"
    if "mv \<in> manifest_version ` set vfs" "filter_tests cert (level_filters vfs mv) = Inr sub" for mv cert sub t
    using filter_tests_Inr(4,5) [OF that(2)] level_filters_wanted [OF that(1), of "test_level t"]
    by (cases "level_filters vfs mv = []") auto
  have "\<exists>mv. p = manifest_path d (version_folder mv) \<and>
       (\<forall>cert sub t. filter_tests cert filters = Inr sub \<longrightarrow>
          (t \<in> set (cert_tests sub) \<longleftrightarrow> t \<in> set (cert_tests cert) \<and> wanted vfs mv (test_level t)))"
    if "(p, filters) \<in> set entries" for p filters
  proof -
    from that obtain mv where "mv \<in> manifest_version ` set vfs" "p = manifest_path d (version_folder mv)"
      "filters = level_filters vfs mv" unfolding e by auto
    with kept show ?thesis by blast
  qed
  then have "\<forall>(p, filters) \<in> set entries. \<exists>mv. p = manifest_path d (version_folder mv) \<and>
       (\<forall>cert sub t. filter_tests cert filters = Inr sub \<longrightarrow>
          (t \<in> set (cert_tests sub) \<longleftrightarrow> t \<in> set (cert_tests cert) \<and> wanted vfs mv (test_level t)))"
    by blast
  then show ?thesis unfolding e by simp
qed

section \<open>Properties: a filtered run certifies nothing it did not test\<close>

text \<open>The test belongs to the level or to an earlier one.\<close>

definition covered :: "certification \<Rightarrow> string \<Rightarrow> test_definition \<Rightarrow> bool" where
  "covered cert l t \<longleftrightarrow>
     (\<exists>k < length (cert_all_levels cert). cert_all_levels cert ! k = l \<and>
        test_level t \<in> set (take (Suc k) (cert_all_levels cert)))"

lemma certified_levels_passed:
  assumes "load_manifest ops toml p w0 = (Inr cert, w1)" and "filter_tests cert filters = Inr sub"
    and "execute_certification ops mods cfg sub w = (Inr cr, w')"
    and "highest_certified_level cr = Inr (Some l)"
  obtains k where "k < length (cert_all_levels cert)" "cert_all_levels cert ! k = l"
    "\<forall>lv \<in> set (take (Suc k) (cert_all_levels cert)). level_passed cr lv"
proof -
  note m = load_manifest_cert [OF assms(1)]
  note runs = execute_certification_Inr [OF assms(3)]
  let ?L = "cert_all_levels cert"
  obtain sub' where "filter_tests cert filters = Inr sub'" "cert_all_levels sub' = ?L"
    using filter_manifest [OF m, of filters] by blast
  with assms(2) have L: "cert_all_levels (cr_certification cr) = ?L" by (simp add: runs(1))
  have d: "distinct ?L" using m by (simp add: manifest_cert_def)
  obtain k where k: "k < length (achieved cr)" "?L ! k = l"
    using certified_level_prefix [OF assms(4)] d L by auto
  have len: "length (achieved cr) \<le> length ?L" unfolding achieved_def L by (rule length_takeWhile_le)
  have "level_passed cr lv" if "lv \<in> set (take (Suc k) ?L)" for lv
  proof -
    have "take (Suc k) ?L = take (Suc k) (achieved cr)"
      using k(1) unfolding achieved_def L by (metis Suc_leI takeWhile_eq_take take_take min.absorb1)
    then show ?thesis using that unfolding achieved_def by (metis in_set_takeD set_takeWhileD)
  qed
  then have "\<forall>lv \<in> set (take (Suc k) ?L). level_passed cr lv" by blast
  from that [OF _ k(2) this] k(1) len show thesis by simp
qed

text \<open>A level that passed was not thinned out by the filters: every test the manifest declares there ran and passed.\<close>

lemma level_test_passed:
  assumes "filter_tests cert filters = Inr sub" and "execute_certification ops mods cfg sub w = (Inr cr, w')"
    and "level_passed cr (test_level t)" and "t \<in> set (cert_tests cert)"
  shows "\<exists>tr \<in> set (cr_test_results cr). tr_test tr = t \<and> tr_result tr = Pass \<and>
    (\<exists>w1 w2. execute_test ops mods cfg (Some (cert_version sub)) t w1 = (Inr tr, w2))"
proof -
  note runs = execute_certification_Inr [OF assms(2)]
  note p = assms(3) [unfolded level_passed_def]
  from p obtain tr where tr: "tr \<in> set (cr_test_results cr)" "test_level (tr_test tr) = test_level t" by blast
  have "tr_test tr \<in> set (cert_tests sub)" using tr(1) runs(2) by (metis image_eqI list.set_map)
  then have "t \<in> set (cert_tests sub)"
    using filter_tests_Inr(4,5) [OF assms(1)] assms(4) tr(2) by (cases "filters = []") auto
  from list_all2_mem [OF runs(4) this] obtain tr' w1 w2 where tr': "tr' \<in> set (cr_test_results cr)"
    "execute_test ops mods cfg (Some (cert_version sub)) t w1 = (Inr tr', w2)" by blast
  moreover have "tr_test tr' = t" using execute_test_test [OF tr'(2)] .
  ultimately show ?thesis using p by blast
qed

text \<open>
  C3: a certified level covers the whole manifest: whatever filters were given, when the run of
  the filtered certification certifies a level, every test the manifest declares at that level or
  at an earlier one was run and passed.
\<close>

theorem certified_run_complete:
  assumes "load_manifest ops toml p w0 = (Inr cert, w1)" and "filter_tests cert filters = Inr sub"
    and "execute_certification ops mods cfg sub w = (Inr cr, w')"
    and "highest_certified_level cr = Inr (Some l)"
  shows "\<exists>k < length (cert_all_levels cert). cert_all_levels cert ! k = l \<and>
    (\<forall>t \<in> set (cert_tests cert). test_level t \<in> set (take (Suc k) (cert_all_levels cert)) \<longrightarrow>
       (\<exists>tr \<in> set (cr_test_results cr). tr_test tr = t \<and> tr_result tr = Pass))"
proof -
  obtain k where k: "k < length (cert_all_levels cert)" "cert_all_levels cert ! k = l"
    "\<forall>lv \<in> set (take (Suc k) (cert_all_levels cert)). level_passed cr lv"
    by (rule certified_levels_passed [OF assms])
  then show ?thesis using level_test_passed [OF assms(2,3)] by (metis (no_types, lifting))
qed

text \<open>The levels are distinct, so what passed is what is covered.\<close>

lemma covered_test_passed:
  assumes "load_manifest ops toml p w0 = (Inr cert, w1)" and "filter_tests cert filters = Inr sub"
    and "execute_certification ops mods cfg sub w = (Inr cr, w')"
    and "highest_certified_level cr = Inr (Some l)"
    and "t \<in> set (cert_tests cert)" and "covered cert l t"
  obtains tr w1 w2 where "execute_test ops mods cfg (Some (cert_version sub)) t w1 = (Inr tr, w2)" "tr_result tr = Pass"
proof -
  have d: "distinct (cert_all_levels cert)" using load_manifest_cert [OF assms(1)] by (simp add: manifest_cert_def)
  obtain k where k: "k < length (cert_all_levels cert)" "cert_all_levels cert ! k = l"
    "\<forall>lv \<in> set (take (Suc k) (cert_all_levels cert)). level_passed cr lv"
    by (rule certified_levels_passed [OF assms(1-4)])
  from assms(6) d k(1,2) have "test_level t \<in> set (take (Suc k) (cert_all_levels cert))"
    unfolding covered_def by (metis nth_eq_iff_index_eq)
  from level_test_passed [OF assms(2,3) bspec [OF k(3) this] assms(5)] that show thesis by blast
qed

section \<open>Properties: the notice never stops the run\<close>

lemma test_post_init_error: "test_post_init t = Inl e \<Longrightarrow> is_a e ValueError"
  unfolding test_post_init_def
  by (auto simp: rbind_eq_Inl is_a_def dest!: first_raise_error simp del: first_raise.simps)

lemma test_of_entry_error: "test_of_entry fs ms = Inl e \<Longrightarrow> is_a e TypeError \<or> is_a e ValueError"
  unfolding test_of_entry_def
  by (auto simp: is_a_def [of "Exc _ _"] dest: test_post_init_error split: option.split_asm if_split_asm)

lemma load_entries_error: "load_entries fs p i entries = Inl e \<Longrightarrow> class_of e = ValueError"
proof (induction entries arbitrary: i)
  case (Cons entry entries)
  show ?case
  proof (cases entry)
    case (JObj ms)
    show ?thesis
    proof (cases "test_of_entry fs ms")
      case (Inl e')
      with Cons.prems JObj test_of_entry_error [OF Inl] show ?thesis
        by (auto simp: Let_def split: if_splits)
    next
      case (Inr t)
      with Cons JObj show ?thesis by (auto simp: Let_def rbind_eq_Inl)
    qed
  qed (use Cons.prems in \<open>auto simp: Let_def\<close>)
qed simp

lemma manifest_of_error: "manifest_of fs p data = Inl e \<Longrightarrow> class_of e = ValueError"
  by (auto simp: manifest_of_def load_test_entries_def certification_post_init_def rbind_eq_Inl Let_def
      dest: load_entries_error split: option.splits json.splits if_splits)

text \<open>What \<^verbatim>\<open>tomllib.load\<close> raises.\<close>

definition toml_errors :: "toml \<Rightarrow> bool" where
  "toml_errors toml \<longleftrightarrow> (\<forall>b e. toml b = Inl e \<longrightarrow> is_a e ValueError)"

lemma load_manifest_error:
  assumes "toml_errors toml" and "load_manifest ops toml p w = (Inl e, w')"
  shows "is_a e ValueError"
proof -
  have "is_a e OSError" if "read_bytes p w = (Inl e, w')" for e w'
    using that by (auto simp: read_bytes_def is_a_def split: option.splits if_splits)
  moreover have "is_a e ValueError" if "manifest_of (op_float_str ops) p data = Inl e" for data
    using manifest_of_error [OF that] by (simp add: is_a_def)
  ultimately show ?thesis
    using assms
    by (auto simp: load_manifest_def read_toml_def toml_errors_def ibind_def is_a_def
        split: prod.splits sum.splits if_splits)
qed

text \<open>Reading a manifest changes nothing and depends on the files alone.\<close>

lemma read_bytes_world: "read_bytes p w = (fst (read_bytes p w), w)"
  by (simp add: read_bytes_def split: option.splits)

lemma load_manifest_world:
  "load_manifest ops toml p w = (fst (load_manifest ops toml p w), w)"
  by (simp add: load_manifest_def read_toml_def ibind_def read_bytes_def split: option.splits sum.splits)

lemma load_manifest_files:
  assumes "w_files w = w_files v" and "w_dirs w = w_dirs v"
  shows "fst (load_manifest ops toml p w) = fst (load_manifest ops toml p v)"
  using assms
  by (simp add: load_manifest_def read_toml_def ibind_def read_bytes_def split: option.splits sum.splits)

text \<open>
  A broken manifest does not stop the notice: when \<^verbatim>\<open>tomllib\<close> raises nothing but errors that
  are \<^verbatim>\<open>ValueError\<close>s, the notice of host changes always returns, whatever the manifests hold.
\<close>

theorem notice_never_raises:
  assumes "toml_errors toml"
  shows "\<exists>w'. print_host_changes_notice ops toml entries allowed w = (Inr (), w')"
proof -
  have filter_error: "is_a e ValueError" if "filter_tests cert filters = Inl e" for cert filters e
    using that by (auto simp: filter_tests_def certification_post_init_def is_a_def Let_def
        split: if_splits option.splits)
  have "settles (itry ValueError
              (ibind (load_manifest ops toml p) (\<lambda>cert.
               ibind (ilift (filter_tests cert filters)) (\<lambda>sub. iret (f sub)))) (\<lambda>_. iret []))"
    for p filters and f :: "certification \<Rightarrow> (string \<times> string) list"
    using load_manifest_error [OF assms] filter_error
    by (fastforce simp: settles_def itry_def ibind_def split: prod.splits sum.splits)
  then have "settles (host_change_tests ops toml entries)"
    by (induction entries) (auto intro!: settles_intro)
  then obtain tests w1 where t: "host_change_tests ops toml entries w = (Inr tests, w1)"
    using settlesD [of "host_change_tests ops toml entries" w] by blast
  have "\<exists>w'. iforeach ls flush_line w = (Inr (), w')" for ls and w :: "'a world"
    by (induction ls arbitrary: w) (simp_all add: iseq_def ibind_def flush_run)
  with t show ?thesis by (simp add: print_host_changes_notice_def ibind_def)
qed

section \<open>Concrete instances\<close>

definition demo_entry :: "string \<Rightarrow> string \<Rightarrow> json" where
  "demo_entry name level = JObj [(''name'', JStr name), (''module'', JStr ''m''), (''scope'', JStr ''host''),
     (''level'', JStr level)]"

definition demo_data :: "(string \<times> json) list" where
  "demo_data = [(''version'', JStr ''3.0''), (''description'', JStr ''d''),
     (''tests'', JArr [demo_entry ''a'' ''3.0.0-0'', demo_entry ''b'' ''3.0.0-1''])]"

definition demo_toml :: toml where
  "demo_toml b = (if b = [1] then Inr demo_data else raise TOMLDecodeError ''Invalid statement'')"

definition level_test :: "string \<Rightarrow> string \<Rightarrow> test_definition" where
  "level_test name level = demo_test\<lparr>test_name := name, test_level := level\<rparr>"

definition demo_manifest :: certification where
  "demo_manifest = \<lparr>cert_version = ''3.0'', cert_description = ''d'',
     cert_tests = [level_test ''a'' ''3.0.0-0'', level_test ''b'' ''3.0.0-1''],
     cert_all_levels = [''3.0.0-0'', ''3.0.0-1''], cert_max_level = None\<rparr>"

definition tests_dir :: path where "tests_dir = Path ''/'' [''cert_tests'']"

definition demo_manifest_path :: path where
  "demo_manifest_path = Path ''/'' [''cert_tests'', ''c3_0'', ''manifest.toml'']"

definition manifest_world :: "unit world" where
  "manifest_world = (empty_world ())\<lparr>w_files := [demo_manifest_path \<mapsto> [1], Path [] [''g.efi''] \<mapsto> []],
     w_dirs := (\<lambda>p. p = tests_dir)\<rparr>"

definition demo_host :: "unit host" where
  "demo_host = \<lparr>host_which = (\<lambda>_ _. None), host_release = ''6.12'', host_resolve = (\<lambda>p. p),
     host_listing = (\<lambda>_ _. [''c3_0'', ''common''])\<rparr>"

lemma demo_entry_test: "name \<noteq> [] \<Longrightarrow> test_of_entry fs [(''name'', JStr name), (''module'', JStr ''m''),
    (''scope'', JStr ''host''), (''level'', JStr level)] = Inr (level_test name level)"
  by (simp add: test_of_entry_def unknown_field_def missing_fields_def entry_text_def field_text_def
      test_fields_def required_test_fields_def test_post_init_def scope_of_def is_other_scope_def
      level_test_def demo_test_def)

lemma demo_entries: "load_test_entries fs p demo_data
    = Inr [level_test ''a'' ''3.0.0-0'', level_test ''b'' ''3.0.0-1'']"
  by (simp add: load_test_entries_def demo_data_def demo_entry_def demo_entry_test Let_def)

lemma demo_manifest_loads:
  "load_manifest ops demo_toml demo_manifest_path manifest_world = (Inr demo_manifest, manifest_world)"
proof -
  have "manifest_of fs p demo_data = Inr demo_manifest" for fs p
  proof -
    have "map_of demo_data ''version'' = Some (JStr ''3.0'')" "map_of demo_data ''description'' = Some (JStr ''d'')"
      "map_of demo_data ''max_certification_level'' = None" by (simp_all add: demo_data_def)
    then show ?thesis
      by (simp add: manifest_of_def demo_entries certification_post_init_def Let_def demo_manifest_def
          level_test_def)
  qed
  then show ?thesis
    by (simp add: load_manifest_def read_toml_def ibind_def read_bytes_def manifest_world_def
        demo_manifest_path_def demo_toml_def)
qed

theorem loaded_tests_valid_witness:
  "\<exists>entries. JArr [demo_entry ''a'' ''3.0.0-0'', demo_entry ''b'' ''3.0.0-1''] = JArr entries \<and>
     list_all2 (entry_holds (\<lambda>t. t)) entries [level_test ''a'' ''3.0.0-0'', level_test ''b'' ''3.0.0-1'']"
proof -
  have "map_of demo_data ''tests'' = Some (JArr [demo_entry ''a'' ''3.0.0-0'', demo_entry ''b'' ''3.0.0-1''])"
    by (simp add: demo_data_def)
  from loaded_tests_valid [OF demo_entries this, of "\<lambda>t. t"] show ?thesis by blast
qed

lemma demo_versions:
  "manifest_version ''3.0.0-0'' = ''3.0''" "manifest_version ''3.0.0-7'' = ''3.0''"
  "manifest_path tests_dir (version_folder ''3.0'') = demo_manifest_path"
  unfolding tests_dir_def demo_manifest_path_def by code_simp+

lemma demo_discovery:
  assumes "f = ''3.0.0-0'' \<or> f = ''3.0.0-7''" and "w_files w = w_files manifest_world" "w_dirs w = w_dirs manifest_world"
  shows "discover_manifests demo_host tests_dir [f] w = (Inr [(demo_manifest_path, [f])], w)"
proof -
  have v: "manifest_version f = ''3.0''" "f \<noteq> ''3.0''" using assms(1) demo_versions by auto
  then have "level_filters [f] ''3.0'' = [f]" by (simp add: level_filters_def Let_def group_get_by)
  moreover have "path_exists demo_manifest_path w" "w_dirs w tests_dir"
    using assms(2,3) by (simp_all add: path_exists_def manifest_world_def)
  moreover have "dedup [''3.0'' :: string] = [''3.0'']" by (simp add: dedup_def)
  ultimately show ?thesis
    by (simp add: discover_manifests_def v demo_versions(3) Let_def)
qed

theorem selection_exact_witness:
  "\<exists>mv. demo_manifest_path = manifest_path tests_dir (version_folder mv) \<and>
    (\<forall>cert sub t. filter_tests cert [''3.0.0-0''] = Inr sub \<longrightarrow>
       (t \<in> set (cert_tests sub) \<longleftrightarrow> t \<in> set (cert_tests cert) \<and> wanted [''3.0.0-0''] mv (test_level t)))"
proof -
  have d: "discover_manifests demo_host tests_dir [''3.0.0-0''] manifest_world
      = (Inr [(demo_manifest_path, [''3.0.0-0''])], manifest_world)"
    by (rule demo_discovery) simp_all
  have "w_dirs manifest_world tests_dir" by (simp add: manifest_world_def)
  from selection_exact [OF d _ this] show ?thesis by simp
qed

theorem notice_never_raises_witness:
  "\<exists>w'. print_host_changes_notice (idle_ops :: unit ops) (\<lambda>_. raise TOMLDecodeError ''Invalid statement'')
     [(demo_manifest_path, [])] True manifest_world = (Inr (), w')"
  by (rule notice_never_raises) (simp add: toml_errors_def is_a_def)

definition empty_mod :: "unit test_mod" where
  "empty_mod = demo_mod\<lparr>tm_steps := iret []\<rparr>"

text \<open>A test without steps passes.\<close>

lemma empty_plan: "load_test_execution_plan (\<lambda>_. Inr empty_mod) t w = (Inr ([], None), w)"
  by (simp add: load_test_execution_plan_def import_test_module_def empty_mod_def demo_mod_def)

lemma empty_passes:
  "execute_test idle_ops (\<lambda>_. Inr empty_mod) demo_config v t w = (Inr tr, w') \<Longrightarrow> tr_result tr = Pass"
  using execute_test_Inr [OF _ empty_plan] follows_steps [of "[]" "tr_step_results tr"] by fastforce

lemma empty_runs:
  assumes "w_files w = (\<lambda>_. None)"
  shows "\<exists>tr w'. execute_test idle_ops (\<lambda>_. Inr empty_mod) demo_config v t w = (Inr tr, w')"
proof -
  have utc: "\<exists>t. ext (op_utcnow idle_ops) w = (Inr t, w)" for w :: "unit world"
    by (simp add: idle_ops_def ext_def)
  have imp: "import_test_module (\<lambda>_. Inr empty_mod) t = Inr empty_mod"
    by (simp add: import_test_module_def)
  have mk: "\<exists>w'. mkdir_parents a (snd (print_test_heading t w)) = (Inr (), w')" for a
    using assms by (simp add: print_test_heading_def flush_run mkdir_parents_def list_ex_iff)
  have runs: "\<exists>tr s2. run_steps idle_ops empty_mod demo_config t a started []
      (initial_state demo_config t a None w') = (Inr tr, s2)" for started a w'
    by (rule run_steps_returns [OF _ _ utc], simp) (simp add: initial_state_def)
  show ?thesis by (rule execute_test_returns [OF empty_plan imp utc mk runs])
qed

text \<open>A run of the demonstration manifest, filtered to its first level, which is certified.\<close>

definition demo_level :: certification where
  "demo_level = demo_manifest\<lparr>cert_tests := [level_test ''a'' ''3.0.0-0'']\<rparr>"

lemma demo_level_filtered: "filter_tests demo_manifest [''3.0.0-0''] = Inr demo_level"
proof -
  have "matches_level ''3.0.0-0'' ''3.0.0-0''" "\<not> matches_level ''3.0.0-1'' ''3.0.0-0''" by code_simp+
  then show ?thesis
    by (simp add: demo_level_def filter_tests_def demo_manifest_def level_test_def certification_post_init_def Let_def)
qed

lemma demo_certified:
  obtains cr w' where "execute_certification idle_ops (\<lambda>_. Inr empty_mod) demo_config demo_level (empty_world ()) = (Inr cr, w')"
    "highest_certified_level cr = Inr (Some ''3.0.0-0'')"
proof -
  let ?run = "execute_certification idle_ops (\<lambda>_. Inr empty_mod) demo_config demo_level (empty_world ())"
  have utc: "\<exists>t. ext (op_utcnow idle_ops) w = (Inr t, w)" for w :: "unit world"
    by (simp add: idle_ops_def ext_def)
  have "\<exists>rs o' w'. run_tests idle_ops (\<lambda>_. Inr empty_mod) demo_config (cert_version demo_level) None [] Pass
      (cert_tests demo_level) w = (Inr (rs, o'), w')" if "w_files w = w_files (empty_world ())" for w
  proof -
    let ?w = "w\<lparr>w_out := w_out w @ [''   '' @ hbar @ hbar @ '' 3.0.0-0 '' @ hbar @ hbar @ nl]\<rparr>"
    have "w_files ?w = (\<lambda>_. None)" using that by (simp add: empty_world_def)
    then obtain tr w' where "execute_test idle_ops (\<lambda>_. Inr empty_mod) demo_config (Some ''3.0'')
        (level_test ''a'' ''3.0.0-0'') ?w = (Inr tr, w')"
      using empty_runs by blast
    then show ?thesis
      by (simp add: demo_level_def demo_manifest_def level_test_def iwhen_def iseq_def ibind_def flush_run)
  qed
  from execute_certification_returns [OF utc this] obtain cr w' where cr: "?run = (Inr cr, w')" by blast
  note runs = execute_certification_Inr [OF cr]
  obtain tr where tr: "cr_test_results cr = [tr]" "tr_test tr = level_test ''a'' ''3.0.0-0''"
    using runs(2) by (auto simp: map_eq_Cons_conv demo_level_def)
  have "tr_result tr = Pass" using runs(4) tr(1) empty_passes by (auto simp: list_all2_Cons2)
  then have "highest_certified_level cr = Inr (Some ''3.0.0-0'')"
    using runs(1) tr
    by (simp add: highest_certified_level_def results_by_level_def group_by_def group_get_def demo_level_def
        demo_manifest_def level_test_def Let_def)
  with cr that show thesis by blast
qed

theorem certified_run_complete_witness:
  "\<exists>cr w'. execute_certification idle_ops (\<lambda>_. Inr empty_mod) demo_config demo_level (empty_world ()) = (Inr cr, w') \<and>
     (\<exists>tr \<in> set (cr_test_results cr). tr_test tr = level_test ''a'' ''3.0.0-0'' \<and> tr_result tr = Pass)"
proof -
  obtain cr w' where cr: "execute_certification idle_ops (\<lambda>_. Inr empty_mod) demo_config demo_level (empty_world ()) = (Inr cr, w')"
    "highest_certified_level cr = Inr (Some ''3.0.0-0'')" by (rule demo_certified)
  from certified_run_complete [OF demo_manifest_loads demo_level_filtered cr] obtain k where
    k: "k < length (cert_all_levels demo_manifest)" "cert_all_levels demo_manifest ! k = ''3.0.0-0''"
      "\<forall>t \<in> set (cert_tests demo_manifest). test_level t \<in> set (take (Suc k) (cert_all_levels demo_manifest)) \<longrightarrow>
         (\<exists>tr \<in> set (cr_test_results cr). tr_test tr = t \<and> tr_result tr = Pass)" by blast
  from k(1,2) have "k = 0" by (auto simp: demo_manifest_def less_Suc_eq)
  with bspec [OF k(3), of "level_test ''a'' ''3.0.0-0''"]
  have "\<exists>tr \<in> set (cr_test_results cr). tr_test tr = level_test ''a'' ''3.0.0-0'' \<and> tr_result tr = Pass"
    by (simp add: level_test_def demo_manifest_def)
  with cr show ?thesis by blast
qed

end
