(* ===== verification/Main_Run.thy ===== *)
theory Main_Run
  imports Selection
begin

text \<open>
  \<^verbatim>\<open>main\<close> of \<^verbatim>\<open>sev_verify/cli.py\<close>: from the parsed arguments to the exit status. The prerequisites
  gate the certifications; every certification run is reported in both formats. The record of
  arguments is what \<^verbatim>\<open>argparse\<close> returns; \<open>cert_dir\<close> is the package's directory \<^verbatim>\<open>cert_tests\<close>.
\<close>

record cli_args =
  args_guest :: string
  args_versions :: "string list"
  args_output_dir :: path
  args_artifacts_dir :: path
  args_qemu :: "path option"
  args_ovmf :: "path option"
  args_allow_host_changes :: bool
  args_debug :: bool

type_synonym manifest_entries = "(path \<times> string list) list"

section \<open>The start of a run\<close>

text \<open>An override from the command line: the message when the file is missing.\<close>

definition override_path :: "'e host \<Rightarrow> string \<Rightarrow> path option \<Rightarrow> 'e world \<Rightarrow> string + string option" where
  "override_path host what p w =
     (case p of
        None \<Rightarrow> Inr None
      | Some q \<Rightarrow>
          if \<not> is_file q w then Inl (''Error: '' @ what @ '' not found: '' @ path_str q)
          else Inr (Some (path_str (host_resolve host q))))"

definition exit_with :: "string \<Rightarrow> ('e world, int + 'a) io" where
  "exit_with msg = iseq (print_err msg) (iret (Inl 1))"

definition banner_tool :: "environment \<Rightarrow> string \<Rightarrow> string \<Rightarrow> string option \<Rightarrow> string list" where
  "banner_tool env label key fallback =
     (if given (env_get env key) then [label @ the (env_get env key)]
      else if given fallback then [label @ the fallback] else [])"

definition banner :: "path \<Rightarrow> environment \<Rightarrow> string \<Rightarrow> string option \<Rightarrow> string list" where
  "banner guest_path env qemu ovmf =
     [''   Guest:  '' @ path_str guest_path]
     @ banner_tool env ''   Host:   '' ''host_os_pretty_name'' None
     @ banner_tool env ''   Kernel: '' ''kernel_version'' None
     @ banner_tool env ''   QEMU:   '' ''qemu_version'' (Some qemu)
     @ banner_tool env ''   OVMF:   '' ''ovmf_version'' ovmf
     @ [[]]"

definition config_of :: "cli_args \<Rightarrow> string option \<Rightarrow> string option \<Rightarrow> run_config" where
  "config_of args qemu ovmf =
     \<lparr>rc_guest_path = path_of (args_guest args), rc_artifacts_root = args_artifacts_dir args,
      rc_qemu_binary = qemu, rc_ovmf_path = ovmf,
      rc_allow_host_changes = args_allow_host_changes args, rc_debug = args_debug args\<rparr>"

text \<open>Up to the banner: an exit status, or the configuration and the manifests to run.\<close>

definition main_start ::
  "'e ops \<Rightarrow> 'e host \<Rightarrow> path \<Rightarrow> cli_args \<Rightarrow> ('e world, int + run_config \<times> manifest_entries) io" where
  "main_start ops host cert_dir args =
     (let guest_path = path_of (args_guest args) in
      ibind (iget (path_exists guest_path)) (\<lambda>there.
      if \<not> there then exit_with (''Error: guest path does not exist: '' @ path_str guest_path)
      else ibind (iget (override_path host ''QEMU binary'' (args_qemu args))) (\<lambda>qemu_override.
      case qemu_override of Inl msg \<Rightarrow> exit_with msg | Inr qemu \<Rightarrow>
      ibind (iget (override_path host ''OVMF image'' (args_ovmf args))) (\<lambda>ovmf_override.
      case ovmf_override of Inl msg \<Rightarrow> exit_with msg | Inr ovmf \<Rightarrow>
      ibind (iget find_ovmf_path) (\<lambda>found.
      let effective_qemu = (if given qemu then the qemu else default_qemu_binary);
          effective_ovmf = (if given ovmf then ovmf else found) in
      ibind (detect_environment ops host effective_qemu effective_ovmf) (\<lambda>env.
      iseq (imodify (\<lambda>w. w\<lparr>w_environment := Some env\<rparr>))
     (ibind (discover_manifests host cert_dir (parse_version_filters (args_versions args))) (\<lambda>entries.
      if entries = [] then exit_with ''Error: no manifest.toml found in cert_tests/*/''
      else iseq (iforeach (banner guest_path env effective_qemu effective_ovmf) flush_line)
             (iret (Inr (config_of args qemu ovmf, entries)))))))))))"

section \<open>Prerequisites\<close>

fun run_prereqs ::
  "'e ops \<Rightarrow> 'e modules \<Rightarrow> run_config \<Rightarrow> test_definition list \<Rightarrow> ('e world, test_result list) io" where
  "run_prereqs ops mods cfg [] = iret []"
| "run_prereqs ops mods cfg (test # tests) =
     ibind (execute_test ops mods cfg None test) (\<lambda>tr.
     iseq (flush_line [])
    (ibind (run_prereqs ops mods cfg tests) (\<lambda>trs. iret (tr # trs))))"

definition prereq_line :: "test_result list \<Rightarrow> string \<Rightarrow> string" where
  "prereq_line trs label =
     padded ''   Prerequisites:'' ('' '' @ nat_str 10 (count_passed trs) @ ''/'' @ nat_str 10 (length trs)
       @ '' passed ['' @ label @ '']'')"

text \<open>Whether the run goes on.\<close>

definition prereq_gate ::
  "'e ops \<Rightarrow> 'e modules \<Rightarrow> run_config \<Rightarrow> test_definition list \<Rightarrow> ('e world, bool) io" where
  "prereq_gate ops mods cfg prereqs =
     (if prereqs = [] then iret True
      else
        iseq (flush_line (section_line ''Prerequisites''))
       (iseq (flush_line [])
       (ibind (run_prereqs ops mods cfg prereqs) (\<lambda>trs.
          if list_ex (\<lambda>tr. tr_result tr \<noteq> Pass) trs then
            iseq (flush_line (prereq_line trs ''FAIL''))
           (iseq (flush_line ''   Skipping all certifications.'') (iret False))
          else
            iseq (flush_line (prereq_line trs ''PASS'')) (iseq (flush_line []) (iret True))))))"

section \<open>Certifications\<close>

definition report_certification ::
  "path \<Rightarrow> certification_result \<Rightarrow> ('e world, unit) io" where
  "report_certification output_dir cr =
     ibind (ilift (highest_certified_level cr)) (\<lambda>certified_level.
     ibind (iget w_environment) (\<lambda>env.
     ibind (write_json cr certified_level output_dir env) (\<lambda>json_path.
     ibind (write_markdown cr certified_level output_dir env) (\<lambda>md_path.
     iseq (flush_line (''   Wrote '' @ path_str json_path))
    (iseq (flush_line (''   Wrote '' @ path_str md_path)) (flush_line []))))))"

fun run_certifications ::
  "'e ops \<Rightarrow> toml \<Rightarrow> 'e modules \<Rightarrow> run_config \<Rightarrow> path \<Rightarrow> manifest_entries
     \<Rightarrow> ('e world, certification_result list) io" where
  "run_certifications ops toml mods cfg output_dir [] = iret []"
| "run_certifications ops toml mods cfg output_dir ((p, filters) # entries) =
     ibind (load_manifest ops toml p) (\<lambda>manifest.
     ibind (ilift (filter_tests manifest filters)) (\<lambda>cert.
       if cert_tests cert = [] then
         iseq (print_err (''Warning: no tests match level filter(s) '' @ repr_str (join '', '' filters)
                 @ '' in certification '' @ cert_version cert))
              (run_certifications ops toml mods cfg output_dir entries)
       else
         ibind (execute_certification ops mods cfg cert) (\<lambda>cr.
         iseq (report_certification output_dir cr)
        (ibind (run_certifications ops toml mods cfg output_dir entries) (\<lambda>crs. iret (cr # crs))))))"

definition summary_of :: "certification_result \<Rightarrow> ('e world, unit) io" where
  "summary_of cr =
     ibind (ilift (highest_certified_level cr)) (\<lambda>highest.
       flush_line (padded (''   Certification '' @ cert_version (cr_certification cr) @ '':'')
         ('' ['' @ (if given highest then the highest else ''---'') @ '']'')))"

definition main_summary :: "certification_result list \<Rightarrow> ('e world, unit) io" where
  "main_summary crs =
     iseq (flush_line (section_line ''Summary'')) (iseq (iforeach crs summary_of) (flush_line []))"

definition main_run ::
  "'e ops \<Rightarrow> 'e host \<Rightarrow> toml \<Rightarrow> 'e modules \<Rightarrow> path \<Rightarrow> cli_args \<Rightarrow> ('e world, int) io" where
  "main_run ops host toml mods cert_dir args =
     ibind (main_start ops host cert_dir args) (\<lambda>start.
     case start of Inl code \<Rightarrow> iret code | Inr (cfg, entries) \<Rightarrow>
     iseq (print_host_changes_notice ops toml entries (args_allow_host_changes args))
    (ibind (load_prereqs ops toml cert_dir) (\<lambda>prereqs.
     ibind (prereq_gate ops mods cfg prereqs) (\<lambda>go_on.
     if \<not> go_on then iret 1
     else
       ibind (run_certifications ops toml mods cfg (args_output_dir args) entries) (\<lambda>crs.
       iseq (main_summary crs)
            (iret (if list_ex (\<lambda>cr. cr_result cr \<noteq> Pass) crs then 1 else 0)))))))"

section \<open>Properties\<close>

text \<open>What happened to an entry of the list of manifests that were run.\<close>

definition certified_from ::
  "'e ops \<Rightarrow> toml \<Rightarrow> 'e modules \<Rightarrow> run_config \<Rightarrow> path \<times> string list \<Rightarrow> certification_result option \<Rightarrow> bool" where
  "certified_from ops toml mods cfg entry result \<longleftrightarrow>
     (\<exists>manifest cert w0 w1 w2 w3. load_manifest ops toml (fst entry) w0 = (Inr manifest, w1) \<and>
        filter_tests manifest (snd entry) = Inr cert \<and>
        (case result of None \<Rightarrow> cert_tests cert = []
         | Some cr \<Rightarrow> cert_tests cert \<noteq> [] \<and>
             execute_certification ops mods cfg cert w2 = (Inr cr, w3)))"

lemma run_certifications_Inr:
  "run_certifications ops toml mods cfg out entries w = (Inr crs, w') \<Longrightarrow>
     \<exists>results. list_all2 (certified_from ops toml mods cfg) entries results \<and>
       crs = map the (filter (\<lambda>r. r \<noteq> None) results)"
proof (induction entries arbitrary: w crs)
  case (Cons entry entries)
  obtain p filters where entry: "entry = (p, filters)" by (cases entry)
  from Cons.prems obtain manifest w1 cert where
    m: "load_manifest ops toml p w = (Inr manifest, w1)" "filter_tests manifest filters = Inr cert"
    by (auto simp: entry ibind_eq_Inr)
  show ?case
  proof (cases "cert_tests cert = []")
    case True
    with Cons.prems m obtain w2 where "run_certifications ops toml mods cfg out entries w2 = (Inr crs, w')"
      by (auto simp: entry ibind_def iseq_def print_err_def)
    from Cons.IH [OF this] obtain results where
      "list_all2 (certified_from ops toml mods cfg) entries results" "crs = map the (filter (\<lambda>r. r \<noteq> None) results)"
      by blast
    moreover have "certified_from ops toml mods cfg entry None"
      using m True by (auto simp: certified_from_def entry)
    ultimately show ?thesis by (intro exI [of _ "None # results"]) simp
  next
    case False
    with Cons.prems m obtain cr w2 w3 rest where cr: "execute_certification ops mods cfg cert w1 = (Inr cr, w2)"
      and more: "run_certifications ops toml mods cfg out entries w3 = (Inr rest, w')" and crs: "crs = cr # rest"
      by (auto simp: entry ibind_eq_Inr iseq_def)
    from Cons.IH [OF more] obtain results where
      "list_all2 (certified_from ops toml mods cfg) entries results" "rest = map the (filter (\<lambda>r. r \<noteq> None) results)"
      by blast
    moreover have "certified_from ops toml mods cfg entry (Some cr)"
      unfolding certified_from_def entry using m cr False by auto
    ultimately show ?thesis by (intro exI [of _ "Some cr # results"]) (simp add: crs)
  qed
qed simp

lemma run_prereqs_Inr:
  "run_prereqs ops mods cfg tests w = (Inr trs, w') \<Longrightarrow>
     list_all2 (\<lambda>t tr. tr_test tr = t \<and> (\<exists>w1 w2. execute_test ops mods cfg None t w1 = (Inr tr, w2))) tests trs"
proof (induction tests arbitrary: w trs)
  case (Cons t ts)
  then show ?case by (fastforce simp: ibind_eq_Inr iseq_def dest: execute_test_test)
qed simp

text \<open>The prerequisites that were run, and their results.\<close>

definition prereqs_ran ::
  "'e ops \<Rightarrow> 'e modules \<Rightarrow> run_config \<Rightarrow> test_definition list \<Rightarrow> test_result list \<Rightarrow> bool" where
  "prereqs_ran ops mods cfg tests trs \<longleftrightarrow>
     list_all2 (\<lambda>t tr. tr_test tr = t \<and> (\<exists>w1 w2. execute_test ops mods cfg None t w1 = (Inr tr, w2))) tests trs"

lemma prereq_gate_Inr:
  assumes "prereq_gate ops mods cfg prereqs w = (Inr go_on, w')"
  shows "\<exists>trs. prereqs_ran ops mods cfg prereqs trs \<and> (go_on \<longleftrightarrow> (\<forall>tr \<in> set trs. tr_result tr = Pass))"
proof (cases "prereqs = []")
  case True
  then show ?thesis using assms by (auto simp: prereq_gate_def prereqs_ran_def)
next
  case False
  with assms obtain w1 trs w2 where run: "run_prereqs ops mods cfg prereqs w1 = (Inr trs, w2)"
    and go: "go_on = (\<not> list_ex (\<lambda>tr. tr_result tr \<noteq> Pass) trs)"
    by (auto simp: prereq_gate_def iseq_def ibind_eq_Inr flush_run split: if_splits)
  from run_prereqs_Inr [OF run] go show ?thesis by (auto simp: prereqs_ran_def list_ex_iff)
qed

lemma main_start_code:
  "main_start ops host d args w = (Inr (Inl c), w') \<Longrightarrow> c = 1"
  by (auto simp: main_start_def exit_with_def Let_def ibind_eq_Inr iseq_def split: sum.splits if_splits)

text \<open>
  C5: the exit status tells the truth: a run that returns does so with 0 or 1, and with 0 exactly
  when the start succeeded, every prerequisite passed and every certification that was run
  passed; the certifications are the selected manifests with at least one selected test, each run
  only when all the prerequisites had passed.
\<close>

theorem exit_status_sound:
  assumes "main_run ops host toml mods d args w = (Inr c, w')"
  shows "(c = 1 \<and> (\<exists>w1. main_start ops host d args w = (Inr (Inl 1), w1))) \<or>
    (\<exists>cfg entries prereqs trs w1 w2 w3.
       main_start ops host d args w = (Inr (Inr (cfg, entries)), w1) \<and>
       load_prereqs ops toml d w2 = (Inr prereqs, w3) \<and> prereqs_ran ops mods cfg prereqs trs \<and>
       (if \<forall>tr \<in> set trs. tr_result tr = Pass then
          (\<exists>results. list_all2 (certified_from ops toml mods cfg) entries results \<and>
             c = (if \<forall>cr. Some cr \<in> set results \<longrightarrow> cr_result cr = Pass then 0 else 1))
        else c = 1))"
proof -
  from assms obtain start w1 where s: "main_start ops host d args w = (Inr start, w1)"
    by (auto simp: main_run_def ibind_eq_Inr)
  show ?thesis
  proof (cases start)
    case (Inl code)
    with s assms have "c = code" by (auto simp: main_run_def ibind_def)
    then show ?thesis using s Inl main_start_code [of ops host d args w code w1] by auto
  next
    case (Inr start')
    obtain cfg entries where start: "start' = (cfg, entries)" by (cases start')
    from assms s Inr start obtain w2 prereqs w3 go_on w4 where
      p: "load_prereqs ops toml d w2 = (Inr prereqs, w3)"
      and g: "prereq_gate ops mods cfg prereqs w3 = (Inr go_on, w4)"
      and rest: "(if \<not> go_on then iret 1
         else ibind (run_certifications ops toml mods cfg (args_output_dir args) entries) (\<lambda>crs.
           iseq (main_summary crs) (iret (if list_ex (\<lambda>cr. cr_result cr \<noteq> Pass) crs then 1 else 0)))) w4
         = (Inr c, w')"
      by (auto simp: main_run_def iseq_def ibind_eq_Inr)
    from prereq_gate_Inr [OF g] obtain trs where
      trs: "prereqs_ran ops mods cfg prereqs trs" "go_on \<longleftrightarrow> (\<forall>tr \<in> set trs. tr_result tr = Pass)" by blast
    have "if \<forall>tr \<in> set trs. tr_result tr = Pass then
          (\<exists>results. list_all2 (certified_from ops toml mods cfg) entries results \<and>
             c = (if \<forall>cr. Some cr \<in> set results \<longrightarrow> cr_result cr = Pass then 0 else 1))
        else c = 1"
    proof (cases go_on)
      case True
      with rest obtain crs w5 where r: "run_certifications ops toml mods cfg (args_output_dir args) entries w4 = (Inr crs, w5)"
        and c: "c = (if list_ex (\<lambda>cr. cr_result cr \<noteq> Pass) crs then 1 else 0)"
        by (auto simp: iseq_def ibind_eq_Inr)
      from run_certifications_Inr [OF r] obtain results where
        a: "list_all2 (certified_from ops toml mods cfg) entries results"
        and crs: "crs = map the (filter (\<lambda>r. r \<noteq> None) results)" by blast
      have "list_ex (\<lambda>cr. cr_result cr \<noteq> Pass) crs \<longleftrightarrow> \<not> (\<forall>cr. Some cr \<in> set results \<longrightarrow> cr_result cr = Pass)"
        unfolding crs list_ex_iff by force
      then show ?thesis using True trs(2) a c by auto
    next
      case False
      then show ?thesis using rest trs(2) by auto
    qed
    then show ?thesis using s Inr start p trs(1) by blast
  qed
qed

section \<open>A run that tests nothing\<close>

text \<open>Every selected manifest loads, and no test of it is selected.\<close>

definition selects_nothing ::
  "'e ops \<Rightarrow> toml \<Rightarrow> manifest_entries \<Rightarrow> 'e world \<Rightarrow> bool" where
  "selects_nothing ops toml entries w \<longleftrightarrow>
     (\<forall>(p, filters) \<in> set entries. \<exists>manifest cert. load_manifest ops toml p w = (Inr manifest, w) \<and>
        filter_tests manifest filters = Inr cert \<and> cert_tests cert = [])"

text \<open>The same files and directories: what reading manifests depends on.\<close>

definition same_files :: "'e world \<Rightarrow> 'e world \<Rightarrow> bool" where
  "same_files v w \<longleftrightarrow> w_files w = w_files v \<and> w_dirs w = w_dirs v"

lemma same_files_refl [simp]: "same_files w w"
  by (simp add: same_files_def)

lemma same_files_out [simp]:
  "same_files v (w\<lparr>w_out := x\<rparr>) = same_files v w" "same_files v (w\<lparr>w_err := x\<rparr>) = same_files v w"
  by (simp_all add: same_files_def)

lemma selects_nothing_same:
  assumes "selects_nothing ops toml entries v" and "same_files v w"
  shows "selects_nothing ops toml entries w"
proof -
  have "load_manifest ops toml p w = (Inr m, w)" if "load_manifest ops toml p v = (Inr m, v)" for p m
    using load_manifest_world [of ops toml p w] load_manifest_files [of w v ops toml p] assms(2) that
    by (simp add: same_files_def)
  then show ?thesis using assms(1) unfolding selects_nothing_def by fast
qed

lemma host_change_tests_nothing:
  "selects_nothing ops toml entries w \<Longrightarrow> host_change_tests ops toml entries w = (Inr [], w)"
proof (induction entries)
  case (Cons entry entries)
  then show ?case
    by (cases entry) (auto simp: selects_nothing_def itry_def ibind_def)
qed simp

lemma run_certifications_nothing:
  "selects_nothing ops toml entries w \<Longrightarrow>
     \<exists>w'. run_certifications ops toml mods cfg out entries w = (Inr [], w') \<and> same_files w w'"
proof (induction entries arbitrary: w)
  case (Cons entry entries)
  obtain p filters where entry: "entry = (p, filters)" by (cases entry)
  from Cons.prems obtain m cert where m: "load_manifest ops toml p w = (Inr m, w)"
    "filter_tests m filters = Inr cert" "cert_tests cert = []"
    by (auto simp: selects_nothing_def entry)
  obtain w1 where w1: "print_err (''Warning: no tests match level filter(s) '' @ repr_str (join '', '' filters)
    @ '' in certification '' @ cert_version cert) w = (Inr (), w1)" and s: "same_files w w1"
    by (simp add: print_err_def)
  have "selects_nothing ops toml entries w1"
    by (rule selects_nothing_same [OF _ s]) (use Cons.prems in \<open>simp add: selects_nothing_def\<close>)
  from Cons.IH [OF this] obtain w' where
    r: "run_certifications ops toml mods cfg out entries w1 = (Inr [], w')" and "same_files w1 w'" by blast
  then have "same_files w w'" using s by (simp add: same_files_def)
  moreover have "run_certifications ops toml mods cfg out (entry # entries) w = (Inr [], w')"
    unfolding entry run_certifications.simps ibind_def iseq_def
    by (simp only: m w1 r ilift_def prod.case sum.case simp_thms if_True)
  ultimately show ?case by blast
qed simp

text \<open>
  When the filters match no test of any manifest and there are no prerequisites, the run ends
  with status 0 although nothing was tested, and no report is written.
\<close>

lemma nothing_selected_exits_zero:
  assumes start: "main_start ops host d args w = (Inr (Inr (cfg, entries)), w1)"
    and none: "selects_nothing ops toml entries w1"
    and no_prereqs: "\<not> path_exists (path_sub (path_sub d ''common'') ''prereqs.toml'') w1"
  shows "\<exists>w'. main_run ops host toml mods d args w = (Inr 0, w') \<and> same_files w1 w'"
proof -
  have notice: "print_host_changes_notice ops toml entries allowed w1 = (Inr (), w1)" for allowed
    by (simp add: print_host_changes_notice_def ibind_def host_change_tests_nothing [OF none]
        host_changes_lines_def group_by_def)
  obtain w2 where certs: "run_certifications ops toml mods cfg (args_output_dir args) entries w1 = (Inr [], w2)"
    and "same_files w1 w2"
    using run_certifications_nothing [OF none] by blast
  then show ?thesis
    by (simp add: main_run_def ibind_def iseq_def start notice load_prereqs_def Let_def no_prereqs
        prereq_gate_def certs main_summary_def flush_run)
qed

section \<open>Concrete instances\<close>

definition demo_args :: "string \<Rightarrow> cli_args" where
  "demo_args version =
     \<lparr>args_guest = ''g.efi'', args_versions = [version], args_output_dir = Path [] [''results''],
      args_artifacts_dir = Path [] [''artifacts''], args_qemu = None, args_ovmf = None,
      args_allow_host_changes = False, args_debug = False\<rparr>"

lemma banner_prints:
  "\<exists>w'. iforeach ls flush_line w = (Inr (), w') \<and> same_files w w'"
proof (induction ls arbitrary: w)
  case (Cons l ls)
  obtain w1 where w1: "flush_line l w = (Inr (), w1)" "same_files w w1" by (simp add: flush_run)
  obtain w' where "iforeach ls flush_line w1 = (Inr (), w')" "same_files w1 w'" using Cons.IH by blast
  then show ?case using w1 by (simp add: iseq_def ibind_def same_files_def)
qed simp

lemma demo_start:
  "\<exists>w1. main_start idle_ops demo_host tests_dir (demo_args ''3.0.0-7'') manifest_world
     = (Inr (Inr (config_of (demo_args ''3.0.0-7'') None None, [(demo_manifest_path, [''3.0.0-7''])])), w1) \<and>
     same_files manifest_world w1"
proof -
  have g: "path_of ''g.efi'' = Path [] [''g.efi'']" by code_simp
  have there: "path_exists (Path [] [''g.efi'']) manifest_world"
    by (simp add: path_exists_def manifest_world_def)
  have v: "parse_version_filters [''3.0.0-7''] = [''3.0.0-7'']" by code_simp
  have os: "get_host_os_info ''/etc/os-release'' manifest_world = (Inr no_os_info, manifest_world)"
  proof -
    have "path_of ''/etc/os-release'' = Path ''/'' [''etc'', ''os-release'']" by code_simp
    then show ?thesis
      by (simp add: get_host_os_info_def itry_def ibind_def read_bytes_def manifest_world_def
          demo_manifest_path_def tests_dir_def empty_world_def is_a_def)
  qed
  have ovmf: "find_ovmf_path manifest_world = None"
  proof -
    have "list_all (\<lambda>c. path_of c \<noteq> demo_manifest_path \<and> path_of c \<noteq> Path [] [''g.efi'']) default_ovmf_candidates"
      by code_simp
    then show ?thesis
      by (auto simp: find_ovmf_path_def find_ovmf_None list_all_iff is_file_def manifest_world_def empty_world_def)
  qed
  obtain env where env: "detect_environment idle_ops demo_host default_qemu_binary None manifest_world
      = (Inr env, manifest_world)"
    by (simp add: detect_environment_def ibind_def os get_qemu_version_def demo_host_def given_def)
  let ?w = "manifest_world\<lparr>w_environment := Some env\<rparr>"
  have disc: "discover_manifests demo_host tests_dir [''3.0.0-7''] ?w
      = (Inr [(demo_manifest_path, [''3.0.0-7''])], ?w)"
    by (rule demo_discovery) simp_all
  obtain w1 where w1: "iforeach (banner (Path [] [''g.efi'']) env default_qemu_binary None) flush_line ?w = (Inr (), w1)"
    "same_files ?w w1"
    using banner_prints by blast
  have "same_files manifest_world w1" using w1(2) by (simp add: same_files_def)
  then show ?thesis
    using there env disc w1(1)
    by (simp add: main_start_def demo_args_def g Let_def ibind_def iseq_def override_path_def ovmf v given_def)
qed

theorem exit_status_sound_witness:
  "\<exists>w'. main_run idle_ops demo_host demo_toml (\<lambda>_. Inr empty_mod) tests_dir (demo_args ''3.0.0-7'')
       manifest_world = (Inr 0, w') \<and>
     (\<exists>results. list_all2 (certified_from idle_ops demo_toml (\<lambda>_. Inr empty_mod)
          (config_of (demo_args ''3.0.0-7'') None None)) [(demo_manifest_path, [''3.0.0-7''])] results)"
proof -
  obtain w1 where start: "main_start idle_ops demo_host tests_dir (demo_args ''3.0.0-7'') manifest_world
      = (Inr (Inr (config_of (demo_args ''3.0.0-7'') None None, [(demo_manifest_path, [''3.0.0-7''])])), w1)"
    and same: "same_files manifest_world w1"
    using demo_start by blast
  have "\<not> matches_level ''3.0.0-0'' ''3.0.0-7''" "\<not> matches_level ''3.0.0-1'' ''3.0.0-7''" by code_simp+
  then have "filter_tests demo_manifest [''3.0.0-7''] = Inr (demo_manifest\<lparr>cert_tests := []\<rparr>)"
    by (simp add: filter_tests_def demo_manifest_def level_test_def certification_post_init_def Let_def)
  then have "selects_nothing idle_ops demo_toml [(demo_manifest_path, [''3.0.0-7''])] manifest_world"
    by (simp add: selects_nothing_def demo_manifest_loads)
  then have none: "selects_nothing idle_ops demo_toml [(demo_manifest_path, [''3.0.0-7''])] w1"
    by (rule selects_nothing_same [OF _ same])
  have "path_sub (path_sub tests_dir ''common'') ''prereqs.toml'' = Path ''/'' [''cert_tests'', ''common'', ''prereqs.toml'']"
    unfolding tests_dir_def by code_simp
  then have "\<not> path_exists (path_sub (path_sub tests_dir ''common'') ''prereqs.toml'') w1"
    using same by (simp add: path_exists_def same_files_def manifest_world_def demo_manifest_path_def
        tests_dir_def empty_world_def)
  from nothing_selected_exits_zero [OF start none this] obtain w' where
    r: "main_run idle_ops demo_host demo_toml (\<lambda>_. Inr empty_mod) tests_dir (demo_args ''3.0.0-7'')
       manifest_world = (Inr 0, w')" by blast
  from exit_status_sound [OF r] start show ?thesis using r by (auto split: if_splits)
qed

end
