(* ===== verification/Vsock_Agent.thy ===== *)
theory Vsock_Agent
  imports Guest_Vsock Json_Text
begin

text \<open>
  The guest's end of the command channel, \<^verbatim>\<open>cert-agent/vsock_exec.py\<close>: one request per connection,
  run by the guest's shell and answered in JSON; and its composition with the host's end
  (\<open>Guest_Vsock\<close>), so that a command given on the host is the command the guest runs and the
  outcome on the guest is the outcome the host sees.

  The machine is the guest's own: the same operations, in another world. \<^verbatim>\<open>accept\<close> and the calls
  that open the listening socket are parameters. The loop of \<^verbatim>\<open>main\<close> has no end; \<open>serve n\<close> is
  its first \<open>n\<close> rounds. The text of an error that the library raises while decoding is
  abbreviated.
\<close>

section \<open>Requests\<close>

definition command_outcome :: "int \<Rightarrow> string \<Rightarrow> string \<Rightarrow> (string \<times> json) list" where
  "command_outcome code out err =
     [(''exit_code'', JInt code), (''stdout'', JStr out), (''stderr'', JStr err)]"

definition handle_request :: "'e ops \<Rightarrow> (string \<times> json) list \<Rightarrow> ('e world, json) io" where
  "handle_request ops payload =
     (if map_of payload ''ping'' = Some (JBool True) then iret (JObj [(''ok'', JBool True)])
      else
        let invalid = JObj (command_outcome 1 [] ''missing or empty cmd'' @ [(''error'', JStr ''invalid request'')]) in
        case map_of payload ''cmd'' of
          Some (JStr command) \<Rightarrow>
            if strip command = [] then iret invalid
            else ibind (ext (op_run ops (Shell command) [] None)) (\<lambda>completed.
              iret (JObj (command_outcome (cp_returncode completed) (cp_stdout completed) (cp_stderr completed))))
        | _ \<Rightarrow> iret invalid)"

text \<open>The type named in the message of \<^verbatim>\<open>payload.get\<close> on what is not a dictionary.\<close>

fun json_type :: "json \<Rightarrow> string" where
  "json_type JNull = ''NoneType''"
| "json_type (JBool b) = ''bool''"
| "json_type (JInt n) = ''int''"
| "json_type (JFloat t) = ''float''"
| "json_type (JStr s) = ''str''"
| "json_type (JArr vs) = ''list''"
| "json_type (JObj ms) = ''dict''"

definition dispatch :: "'e ops \<Rightarrow> json \<Rightarrow> ('e world, json) io" where
  "dispatch ops payload =
     (case payload of JObj ms \<Rightarrow> handle_request ops ms
      | _ \<Rightarrow> ithrow (Exc AttributeError (repr_str (json_type payload) @ '' object has no attribute '' @ repr_str ''get'')))"

definition failure_response :: "exc \<Rightarrow> json" where
  "failure_response e =
     (if is_a e JSONDecodeError
      then JObj (command_outcome 1 [] ''invalid JSON request'' @ [(''error'', JStr ''invalid request'')])
      else JObj (command_outcome 1 [] (msg_of e) @ [(''error'', JStr ''agent failure'')]))"

text \<open>The \<^verbatim>\<open>try\<close> statement: the response to send, none when the client sent nothing.\<close>

definition agent_response :: "'e ops \<Rightarrow> nat \<Rightarrow> ('e world, json option) io" where
  "agent_response ops conn =
     itry_any
       (ibind (ext (op_recv ops conn)) (\<lambda>data.
          if data = [] then iret None
          else
            ibind (ilift (rbind (decode_strict data) loads)) (\<lambda>payload.
            ibind (dispatch ops payload) (\<lambda>response. iret (Some response)))))
       (\<lambda>e. iret (Some (failure_response e)))"

definition serve_client :: "'e ops \<Rightarrow> nat \<Rightarrow> ('e world, unit) io" where
  "serve_client ops conn =
     ibind (agent_response ops conn) (\<lambda>response.
       case response of None \<Rightarrow> iret ()
       | Some v \<Rightarrow> ext (op_sendall ops conn (encode (dumps v))))"

definition serve_next :: "'e ops \<Rightarrow> ('e world, nat) io \<Rightarrow> ('e world, unit) io" where
  "serve_next ops accept =
     ibind (ext accept) (\<lambda>conn. ifinally (serve_client ops conn) (ext (op_close ops conn)))"

fun serve :: "'e ops \<Rightarrow> ('e world, nat) io \<Rightarrow> nat \<Rightarrow> ('e world, unit) io" where
  "serve ops accept 0 = iret ()"
| "serve ops accept (Suc n) = iseq (serve_next ops accept) (serve ops accept n)"

definition agent_main ::
  "'e ops \<Rightarrow> (int \<Rightarrow> ('e world, unit) io) \<Rightarrow> ('e world, nat) io \<Rightarrow> int \<Rightarrow> nat \<Rightarrow> ('e world, unit) io" where
  "agent_main ops listen accept port n = iseq (ext (listen port)) (serve ops accept n)"

section \<open>Properties: the agent always answers\<close>

lemma agent_response_settles [settles_intro]: "settles (agent_response ops conn)"
  unfolding agent_response_def by (intro settles_intro)

lemma agent_response_sent:
  assumes "fst (ext (op_recv ops conn) w) \<noteq> Inr []"
  shows "\<exists>v w1. agent_response ops conn w = (Inr (Some v), w1)"
proof -
  obtain r w1 where r: "ext (op_recv ops conn) w = (r, w1)" by (cases "ext (op_recv ops conn) w")
  show ?thesis
  proof (cases r)
    case (Inl e)
    then show ?thesis by (simp add: agent_response_def itry_any_def ibind_def r)
  next
    case (Inr data)
    let ?rest = "ibind (ilift (rbind (decode_strict data) loads)) (\<lambda>payload.
        ibind (dispatch ops payload) (\<lambda>response. iret (Some response)))"
    have "data \<noteq> []" using assms r Inr by auto
    then have "agent_response ops conn w
        = (case ?rest w1 of (Inl e, w2) \<Rightarrow> (Inr (Some (failure_response e)), w2) | r \<Rightarrow> r)"
      unfolding agent_response_def itry_any_def ibind_def [of "ext (op_recv ops conn)"]
      by (simp add: r Inr) (auto split: prod.splits sum.splits)
    moreover have "\<exists>v. q = Some v" if "?rest w1 = (Inr q, w2)" for q w2
      using that by (auto simp: ibind_eq_Inr)
    ultimately show ?thesis by (cases "?rest w1") (auto split: sum.splits)
  qed
qed


text \<open>But a client that hangs up before its answer ends the agent: nothing catches that error.\<close>

lemma hangup_ends_agent:
  assumes "ext accept w = (Inr conn, w1)" and "agent_response ops conn w1 = (Inr (Some v), w2)"
    and "ext (op_sendall ops conn (encode (dumps v))) w2 = (Inl e, w3)" and "ext (op_close ops conn) w3 = (Inr (), w4)"
  shows "serve ops accept (Suc n) w = (Inl e, w4)"
  using assms by (simp add: serve_next_def serve_client_def iseq_def ibind_def ifinally_def)

section \<open>Properties: the two ends together\<close>

lemma serve_client_answers:
  assumes "json_ok payload" and "ext (op_recv guest conn) w = (Inr (encode (dumps payload)), w1)"
    and "dispatch guest payload w1 = (Inr response, w2)"
  shows "serve_client guest conn w = ext (op_sendall guest conn (encode (dumps response))) w2"
proof -
  have "dumps payload \<noteq> []" using loads_dumps [OF assms(1)] by (auto simp: loads_def skip_space_def)
  then have "encode (dumps payload) \<noteq> []" by (simp add: encode_def)
  then have "agent_response guest conn w = (Inr (Some response), w2)"
    using assms(2,3) decode_dumps [OF assms(1)] loads_dumps [OF assms(1)]
    by (simp add: agent_response_def itry_any_def ibind_def)
  then show ?thesis by (simp add: serve_client_def ibind_def)
qed

lemma read_response_answer:
  assumes "json_ok response" and "delivers ops sock cs w w'" and "concat cs = encode (dumps response)"
    and "int (length (concat cs)) \<le> m"
  shows "read_response ops sock m w = (Inr response, w')"
proof -
  have "dumps response \<noteq> []" using loads_dumps [OF assms(1)] by (auto simp: loads_def skip_space_def)
  then have "cs \<noteq> []" using assms(3) by (auto simp: encode_def)
  moreover have "recv_loop ops sock m [] 0 w = (Inr cs, w')"
    using recv_loop_delivers [OF assms(2), of 0 m "[]"] assms(4) by simp
  ultimately show ?thesis
    using decode_dumps [OF assms(1)] loads_dumps [OF assms(1)]
    by (simp add: read_response_def ibind_def assms(3))
qed

lemma command_outcome_ok:
  "utf8_text out \<Longrightarrow> utf8_text err \<Longrightarrow> json_ok (JObj (command_outcome code out err))"
  by (simp add: command_outcome_def utf8_text_ascii) (simp add: utf8_text_ascii is_ascii_def code_of_def)

text \<open>
  C15: a command on the host is that command on the guest: when the agent receives the request for
  a command that is not blank, the guest's shell runs exactly that text, and the agent sends one
  answer; whatever way the answer is cut on its way, the host's result has the exit code, the
  output and the errors of the command as the guest saw them.
\<close>

theorem command_exchange:
  fixes host :: "'h ops" and guest :: "'g ops"
  assumes "utf8_text command" and "strip command \<noteq> []"
    and "ext (op_recv guest conn) w = (Inr (encode (dumps (JObj [(''cmd'', JStr command)]))), w1)"
    and "ext (op_run guest (Shell command) [] None) w1 = (Inr c, w2)"
    and "utf8_text (cp_stdout c)" and "utf8_text (cp_stderr c)"
  shows "\<exists>answer. serve_client guest conn w = ext (op_sendall guest conn answer) w2 \<and>
    (\<forall>(p :: vm_profile) seconds v v1 v2 v3 v4 sock cs.
       ext (op_connect host (vp_vsock_cid p) (vp_vsock_port p) seconds) v = (Inr sock, v1) \<and>
       ext (op_sendall host sock (encode (dumps (JObj [(''cmd'', JStr command)])))) v1 = (Inr (), v2) \<and>
       delivers host sock cs v2 v3 \<and> concat cs = answer \<and>
       int (length answer) \<le> vp_vsock_max_response_bytes p \<and>
       ext (op_close host sock) v3 = (Inr (), v4) \<longrightarrow>
       run_guest_command host p command (Some seconds) False v =
         (Inr \<lparr>gcr_command = command, gcr_exit_code = cp_returncode c, gcr_stdout = cp_stdout c,
            gcr_stderr = cp_stderr c, gcr_duration_ms = (w_clock v4 - w_clock v) div 1000\<rparr>, v4))"
proof -
  let ?response = "JObj (command_outcome (cp_returncode c) (cp_stdout c) (cp_stderr c))"
  let ?request = "JObj [(''cmd'', JStr command)]"
  have ok: "json_ok ?request" "json_ok ?response"
    using assms(1,5,6) command_outcome_ok by (simp_all add: utf8_text_ascii is_ascii_def code_of_def)
  have "dispatch guest ?request w1 = (Inr ?response, w2)"
    using assms(2,4) by (simp add: dispatch_def handle_request_def ibind_def Let_def)
  from serve_client_answers [OF ok(1) assms(3) this]
  have sent: "serve_client guest conn w = ext (op_sendall guest conn (encode (dumps ?response))) w2" .
  have parsed: "parse_command_response host command ?response d =
      Inr \<lparr>gcr_command = command, gcr_exit_code = cp_returncode c, gcr_stdout = cp_stdout c,
            gcr_stderr = cp_stderr c, gcr_duration_ms = d\<rparr>" for d
    by (simp add: command_outcome_def text_or_empty_def)
  show ?thesis
  proof (intro exI conjI allI impI, rule sent, elim conjE)
    fix p :: vm_profile and seconds v v1 v2 v3 v4 sock cs
    assume c: "ext (op_connect host (vp_vsock_cid p) (vp_vsock_port p) seconds) v = (Inr sock, v1)"
      and s: "ext (op_sendall host sock (encode (dumps ?request))) v1 = (Inr (), v2)"
      and d: "delivers host sock cs v2 v3" "concat cs = encode (dumps ?response)"
        "int (length (encode (dumps ?response))) \<le> vp_vsock_max_response_bytes p"
      and cl: "ext (op_close host sock) v3 = (Inr (), v4)"
    have "read_response host sock (vp_vsock_max_response_bytes p) v2 = (Inr ?response, v3)"
      using read_response_answer [OF ok(2) d(1,2)] d(2,3) by simp
    then have "vsock_request host p ?request seconds v = (Inr ?response, v4)"
      using c s cl by (simp add: vsock_request_def vsock_connect_def send_request_def itry_def ibind_def iseq_def ifinally_def)
    then show "run_guest_command host p command (Some seconds) False v =
         (Inr \<lparr>gcr_command = command, gcr_exit_code = cp_returncode c, gcr_stdout = cp_stdout c,
            gcr_stderr = cp_stderr c, gcr_duration_ms = (w_clock v4 - w_clock v) div 1000\<rparr>, v4)"
      using parsed
      by (simp add: run_guest_command_def iwhen_def iseq_def ibind_def now_def elapsed_ms_def ilift_def Let_def
          del: parse_command_response.simps)
  qed
qed

section \<open>Properties: a request in pieces\<close>

lemma scan_request:
  "scan_value (Suc (Suc n)) (''{\"cmd\":'' @ dquote # y) =
     (case scan_value n (dquote # y) of
        None \<Rightarrow> None
      | Some (v, r) \<Rightarrow> map_option (\<lambda>(ms, r2). (JObj ms, r2)) (case skip_space r of
            [] \<Rightarrow> None
          | d # r4 \<Rightarrow> if d = CHR ''}'' then Some ([(''cmd'', v)], r4)
              else if d = CHR '','' then scan_members n [(''cmd'', v)] (skip_space r4) else None))"
proof -
  have "skip_space (dquote # s) = dquote # s" "skip_space (CHR '':'' # s) = CHR '':'' # s" for s
    by (simp_all add: skip_head not_json_space)
  then show ?thesis
    by (simp add: dquote_def backslash_def code_of_def split: option.split prod.split list.split)
qed

lemma scan_value_Nil: "scan_value n [] = None"
  by (cases n) simp_all

lemma scan_request_start: "k \<le> 7 \<Longrightarrow> scan_value n (take k ''{\"cmd\":'') = None"
proof -
  assume "k \<le> 7"
  then have "k \<in> set [0..<8]" by simp
  moreover have "scan_value (Suc (Suc m)) (take k ''{\"cmd\":'') = None" if "k \<in> set [0..<8]" for m k
    using that by (auto simp: upt_rec dquote_def backslash_def skip_space_def json_space_def code_of_def numeral_eq_Suc scan_value_Nil)
  moreover have "scan_value (Suc 0) (take k ''{\"cmd\":'') = None" if "k \<in> set [0..<8]" for k
    using that by (auto simp: upt_rec dquote_def backslash_def skip_space_def json_space_def code_of_def numeral_eq_Suc)
  ultimately show ?thesis by (cases n; cases "n - 1") auto
qed

lemma request_text: "dumps (JObj [(''cmd'', JStr s)]) = ''{\"cmd\":'' @ dump_str s @ ''}''"
proof -
  have "dump_str ''cmd'' = ''\"cmd\"''" by code_simp
  then show ?thesis by simp
qed

text \<open>The string of the command, complete or cut, without what has to follow it.\<close>

lemma scan_cut_command:
  assumes "utf8_text s" and "0 < j" and "j \<le> length (dump_str s)"
  shows "scan_value n (take j (dump_str s)) \<in> {None, Some (JStr s, [])}"
proof -
  obtain ps where ps: "utf8_points (encode s) = map Some ps" "list_all scalar ps"
    using utf8_text_points [OF assms(1)] by blast
  let ?body = "concat (map dump_point ps)"
  have d: "dump_str s = dquote # ?body @ [dquote]" by (simp add: dump_str_def ps(1) comp_def)
  obtain i where i: "j = Suc i" using assms(2) by (cases j) auto
  show ?thesis
  proof (cases "i \<le> length ?body")
    case True
    then have "scan_str [] (take i (?body @ [dquote])) = None" using scan_str_cut [OF ps(2), of "[]" i] by simp
    then show ?thesis by (cases n) (simp_all add: d i del: scan_str.simps)
  next
    case False
    then have "take j (dump_str s) = dump_str s" using assms(3) by (simp add: d i)
    then show ?thesis using scan_value_str [OF _ assms(1), of n "[]"] by (cases n) (simp_all del: scan_str.simps)
  qed
qed

lemma loads_cut_request:
  assumes "utf8_text s" and "k < length (dumps (JObj [(''cmd'', JStr s)]))"
  shows "\<exists>msg. loads (take k (dumps (JObj [(''cmd'', JStr s)]))) = raise JSONDecodeError msg"
proof -
  let ?t = "dumps (JObj [(''cmd'', JStr s)])"
  have skip_Nil: "skip_space [] = []" by (simp add: skip_space_def)
  have "scan_value n (take k ?t) = None" for n
  proof (cases "k \<le> 7")
    case True
    then have "take k ?t = take k ''{\"cmd\":''" unfolding request_text take_append by simp
    then show ?thesis using scan_request_start [OF True] by simp
  next
    case False
    define j where "j = k - 7"
    have j: "0 < j" "j \<le> length (dump_str s)" using False assms(2) unfolding request_text j_def by simp_all
    have "take k (a @ b) = a @ take j b" if "length a = 7" for a b :: string
      using False that by (simp add: j_def)
    from this [of "''{\"cmd\":''" "dump_str s @ ''}''"]
    have "take k ?t = ''{\"cmd\":'' @ take j (dump_str s @ ''}'')" unfolding request_text by simp
    then have t: "take k ?t = ''{\"cmd\":'' @ take j (dump_str s)" using j(2) by simp
    obtain y where y: "take j (dump_str s) = dquote # y" using j(1) dump_str_head [of s] by (cases j) auto
    have "scan_value (Suc (Suc m)) (''{\"cmd\":'' @ dquote # y) = None" for m
      using scan_cut_command [OF assms(1) j, of m] unfolding scan_request y
      by (auto simp: skip_Nil simp del: scan_value.simps)
    moreover have "scan_value (Suc 0) (''{\"cmd\":'' @ dquote # y) = None"
      by (simp add: dquote_def skip_head not_json_space [unfolded dquote_def])
    ultimately show ?thesis unfolding t y by (cases n; cases "n - 1") (auto simp del: scan_value.simps(2))
  qed
  moreover have "skip_space (take k ?t) = take k ?t"
    unfolding request_text by (cases k) (simp_all add: skip_head not_json_space skip_Nil)
  ultimately show ?thesis by (simp add: loads_def del: scan_value.simps)
qed

text \<open>
  C37: a request that arrives in pieces is refused: the agent reads once, so a proper part of the
  request for a command is answered as invalid JSON, and the command is not run.
\<close>

theorem split_request_refused:
  assumes "utf8_text command" and "request = encode (dumps (JObj [(''cmd'', JStr command)]))"
    and "0 < k" and "k < length request" and "ext (op_recv guest conn) w = (Inr (take k request), w1)"
  shows "serve_client guest conn w = ext (op_sendall guest conn (encode (dumps
    (JObj (command_outcome 1 [] ''invalid JSON request'' @ [(''error'', JStr ''invalid request'')]))))) w1"
proof -
  let ?t = "dumps (JObj [(''cmd'', JStr command)])"
  have ok: "json_ok (JObj [(''cmd'', JStr command)])"
    using assms(1) by (simp add: utf8_text_ascii is_ascii_def code_of_def)
  have part: "take k request = encode (take k ?t)" unfolding assms(2) encode_def by (rule take_map)
  have "list_all is_ascii ?t" by (rule is_text_ascii(1) [OF dumps_text(1) [OF ok]])
  then have "list_all is_ascii (take k ?t)" unfolding list_all_iff by (meson in_set_takeD)
  then have "decode_strict (take k request) = Inr (take k ?t)" unfolding part by (rule decode_strict_ascii)
  moreover obtain msg where "loads (take k ?t) = raise JSONDecodeError msg"
    using loads_cut_request [OF assms(1)] assms(2,4) by auto
  moreover have "take k request \<noteq> []" using assms(3,4) by auto
  ultimately have "agent_response guest conn w = (Inr (Some (failure_response (Exc JSONDecodeError msg))), w1)"
    by (simp add: agent_response_def itry_any_def ibind_def assms(5) del: dumps.simps)
  then show ?thesis by (simp add: serve_client_def ibind_def failure_response_def is_a_def)
qed

section \<open>Concrete instances\<close>

text \<open>
  A guest whose socket plays a script and keeps what it is sent, and whose shell answers every
  command alike; and a host whose socket plays a script.
\<close>

definition demo_agent :: "(bytes list \<times> bytes list) ops" where
  "demo_agent = idle_ops
     \<lparr>op_recv := (\<lambda>conn w. case w_ext w of
        ([], sent) \<Rightarrow> (Inr [], w) | (c # cs, sent) \<Rightarrow> (Inr c, w\<lparr>w_ext := (cs, sent)\<rparr>)),
      op_sendall := (\<lambda>conn data w. (Inr (), w\<lparr>w_ext := (fst (w_ext w), snd (w_ext w) @ [data])\<rparr>)),
      op_close := (\<lambda>conn. iret ()),
      op_run := (\<lambda>cmd env t. iret \<lparr>cp_returncode = 3, cp_stdout = ''out'', cp_stderr = ''err''\<rparr>)\<rparr>"

definition demo_client :: "bytes list ops" where
  "demo_client = script_ops\<lparr>op_sendall := (\<lambda>sock data. iret ()), op_close := (\<lambda>sock. iret ())\<rparr>"

lemma ls_text: "utf8_text ''ls''"
  by code_simp


theorem command_exchange_witness:
  "\<exists>answer w2 p v4 r. serve_client demo_agent 0
       (empty_world ([encode (dumps (JObj [(''cmd'', JStr ''ls'')]))], [])) = ext (op_sendall demo_agent 0 answer) w2 \<and>
     run_guest_command demo_client p ''ls'' (Some 5) False
       (empty_world (if answer = [] then [] else [answer])) = (Inr r, v4) \<and>
     gcr_exit_code r = 3 \<and> gcr_stdout r = ''out'' \<and> gcr_stderr r = ''err''"
proof -
  let ?request = "encode (dumps (JObj [(''cmd'', JStr ''ls'')]))"
  let ?c = "\<lparr>cp_returncode = 3, cp_stdout = ''out'', cp_stderr = ''err''\<rparr>"
  have recv: "ext (op_recv demo_agent 0) (empty_world ([?request], [])) = (Inr ?request, empty_world ([], []))"
    by (simp add: demo_agent_def ext_def empty_world_def del: dumps.simps)
  have ran: "ext (op_run demo_agent (Shell ''ls'') [] None) (empty_world ([], [])) = (Inr ?c, empty_world ([], []))"
    by (simp add: demo_agent_def ext_def empty_world_def)
  have tx: "strip ''ls'' \<noteq> []" "utf8_text (cp_stdout ?c)" "utf8_text (cp_stderr ?c)" by code_simp+
  from command_exchange [where host = demo_client, OF ls_text tx(1) recv ran tx(2,3)] obtain answer where
    a: "serve_client demo_agent 0 (empty_world ([?request], [])) = ext (op_sendall demo_agent 0 answer) (empty_world ([], []))"
    and h: "\<forall>(p :: vm_profile) seconds v v1 v2 v3 v4 sock cs.
       ext (op_connect demo_client (vp_vsock_cid p) (vp_vsock_port p) seconds) v = (Inr sock, v1) \<and>
       ext (op_sendall demo_client sock ?request) v1 = (Inr (), v2) \<and>
       delivers demo_client sock cs v2 v3 \<and> concat cs = answer \<and>
       int (length answer) \<le> vp_vsock_max_response_bytes p \<and>
       ext (op_close demo_client sock) v3 = (Inr (), v4) \<longrightarrow>
       run_guest_command demo_client p ''ls'' (Some seconds) False v =
         (Inr \<lparr>gcr_command = ''ls'', gcr_exit_code = cp_returncode ?c, gcr_stdout = cp_stdout ?c,
            gcr_stderr = cp_stderr ?c, gcr_duration_ms = (w_clock v4 - w_clock v) div 1000\<rparr>, v4)"
    by (elim exE conjE)
  let ?p = "(mk_profile ''g'')\<lparr>vp_vsock_max_response_bytes := int (length answer)\<rparr>"
  let ?cs = "if answer = [] then [] else [answer] :: bytes list"
  have "delivers demo_client 0 ?cs (empty_world ?cs) (empty_world [])"
    by (simp add: demo_client_def script_ops_def ext_def empty_world_def)
  moreover have "ext (op_connect demo_client cid port t) w = (Inr 0, w)" "ext (op_sendall demo_client 0 d) w = (Inr (), w)"
    "ext (op_close demo_client 0) w = (Inr (), w)" for cid port t d w
    by (simp_all add: demo_client_def script_ops_def ext_def)
  moreover have "concat ?cs = answer" by simp
  ultimately have run: "run_guest_command demo_client ?p ''ls'' (Some 5) False (empty_world ?cs) =
         (Inr \<lparr>gcr_command = ''ls'', gcr_exit_code = cp_returncode ?c, gcr_stdout = cp_stdout ?c,
            gcr_stderr = cp_stderr ?c, gcr_duration_ms = (w_clock (empty_world ([] :: bytes list)) - w_clock (empty_world ?cs)) div 1000\<rparr>, empty_world [])"
    by (intro h [rule_format, where ?v1.0 = "empty_world ?cs" and ?v2.0 = "empty_world ?cs" and ?v3.0 = "empty_world []"
          and sock = 0 and cs = ?cs]) (simp del: delivers.simps)
  show ?thesis by (intro exI conjI, rule a, rule run) simp_all
qed

theorem split_request_refused_witness:
  "serve_client demo_agent 0 (empty_world ([take 5 (encode (dumps (JObj [(''cmd'', JStr ''ls'')])))], []))
     = ext (op_sendall demo_agent 0 (encode (dumps (JObj (command_outcome 1 [] ''invalid JSON request''
         @ [(''error'', JStr ''invalid request'')]))))) (empty_world ([], []))"
proof (rule split_request_refused [OF ls_text refl])
  show "0 < (5 :: nat)" by simp
  show "5 < length (encode (dumps (JObj [(''cmd'', JStr ''ls'')])))" by code_simp
  show "ext (op_recv demo_agent 0) (empty_world ([take 5 (encode (dumps (JObj [(''cmd'', JStr ''ls'')])))], []))
      = (Inr (take 5 (encode (dumps (JObj [(''cmd'', JStr ''ls'')])))), empty_world ([], []))"
    by (simp add: demo_agent_def ext_def empty_world_def del: dumps.simps)
qed

end
