(* ===== verification/Snp_Ok.thy ===== *)
theory Snp_Ok
  imports Test_Kit
begin

text \<open>
  The prerequisite \<^verbatim>\<open>cert_tests/common/snp_ok.py\<close>: is SNP functional on the host, and is there an
  OVMF image.
\<close>

definition no_ovmf_message :: string where
  "no_ovmf_message =
     ''No OVMF found. Install an AMD SEV OVMF package or pass --ovmf PATH.'' @ nl
       @ ''Checked:'' @ nl @ join nl default_ovmf_candidates"

definition verify_ovmf :: "ctx \<Rightarrow> ('e world, handler_result) io" where
  "verify_ovmf c =
     (if given (ctx_cli_ovmf_path c) then
        let p = path_of (the (ctx_cli_ovmf_path c)) in
        ibind (iget (is_file p)) (\<lambda>there.
          if \<not> there then iret (handler_returns 1 [] (''CLI OVMF image not found: '' @ path_str p) None)
          else iret (handler_returns 0 (''CLI OVMF: '' @ path_str p) [] None))
      else
        ibind (iget (\<lambda>w. find (\<lambda>s. is_file (path_of s) w) default_ovmf_candidates)) (\<lambda>found.
          case found of
            Some s \<Rightarrow> iret (handler_returns 0
              (''OVMF on host: '' @ s @ '' (override with --ovmf if needed)'') [] None)
          | None \<Rightarrow> iret (handler_returns 1 [] no_ovmf_message None)))"

definition snp_ok_plan :: "(exc + base_step) list" where
  "snp_ok_plan =
     [for_host ''snphost ok'' Required ''snphost ok'' default_expected_result default_timeout,
      for_host ''snphost show guests'' Info ''snphost show guests'' default_expected_result default_timeout,
      for_callable ''verify OVMF'' Info ''verify_ovmf'' default_expected_result default_timeout]"

definition snp_ok_steps :: "('e world, base_step list) io" where
  "snp_ok_steps = ilift (rmap (\<lambda>s. s) snp_ok_plan)"

definition snp_ok_mod :: "'e test_mod" where
  "snp_ok_mod = \<lparr>tm_steps = snp_ok_steps, tm_vm_profile = iret None,
     tm_attrs = [(''verify_ovmf'', as_handler verify_ovmf)]\<rparr>"

section \<open>Properties\<close>

lemma snp_ok_plan_accepted:
  "rmap (\<lambda>s. s) snp_ok_plan = Inr (map projr snp_ok_plan)"
  by (simp add: snp_ok_plan_def factory_accepts common_ok_def is_other_severity_def default_timeout_def)

lemma snp_ok_loads:
  assumes "import_test_module mods test = Inr snp_ok_mod"
  shows "load_test_execution_plan mods test w = (Inr (map projr snp_ok_plan, None), w)"
  by (simp add: load_test_execution_plan_def assms snp_ok_mod_def snp_ok_steps_def snp_ok_plan_accepted)

lemma snp_ok_types:
  "map step_type (map projr snp_ok_plan) = [Required, Info, Info]"
  by (simp add: snp_ok_plan_def factory_accepts common_ok_def is_other_severity_def default_timeout_def
      sf_common_def mk_factory_def)

text \<open>
  The gate of all certifications is the one command: the prerequisite runs all its three
  steps, whatever fails, and passes exactly when \<^verbatim>\<open>snphost ok\<close> met its expectation; in
  particular a host without an OVMF image passes it.
\<close>

theorem snp_ok_verdict:
  assumes "execute_test ops mods cfg v test w = (Inr tr, w')"
    and "import_test_module mods test = Inr snp_ok_mod"
  shows "length (tr_step_results tr) = 3 \<and>
    (\<forall>r \<in> set (tr_step_results tr). sr_result r \<noteq> Skip) \<and>
    (tr_result tr = Pass \<longleftrightarrow> \<not> failed_result (hd (tr_step_results tr)))"
proof -
  let ?rs = "tr_step_results tr"
  from execute_test_Inr [OF assms(1) snp_ok_loads [OF assms(2)]]
  have f: "follows (map projr snp_ok_plan) ?rs" and v: "tr_result tr = verdict Pass ?rs" by blast+
  have "map (step_type \<circ> sr_step) ?rs = [Required, Info, Info]"
    using follows_steps [OF f] snp_ok_types by (metis list.map_comp)
  then obtain a b c where rs: "?rs = [a, b, c]" "step_type (sr_step a) = Required"
    "step_type (sr_step b) = Info" "step_type (sr_step c) = Info"
    by (auto simp: map_eq_Cons_conv)
  have "until_fatal ?rs = ?rs" by (simp add: until_fatal_def is_fatal_def rs)
  then have ran: "sr_result (?rs ! i) \<noteq> Skip" if "i < 3" for i
    using follows_skips [OF f] that rs(1) by auto
  have "\<forall>r \<in> set ?rs. sr_result r \<noteq> Skip" using ran [of 0] ran [of 1] ran [of 2] rs(1) by simp
  moreover have "tr_result tr = Pass \<longleftrightarrow> \<not> failed_result (hd ?rs)"
    using v by (auto simp: rs counts_against_def)
  ultimately show ?thesis using rs(1) by simp
qed

lemma contains_inside: "contains f (a @ f @ b)"
  by (auto simp: contains_iff)

text \<open>
  The check of the firmware agrees with the launcher: with no override on the command line,
  \<^verbatim>\<open>verify_ovmf\<close> succeeds exactly when a profile without a firmware path of its own finds one at
  launch, and names the same file; with an override, exactly when a profile given that path does.
\<close>

theorem verify_ovmf_agrees:
  assumes "vp_ovmf_path p = ctx_cli_ovmf_path c"
  shows "\<exists>hr. verify_ovmf c w = (Inr hr, w) \<and>
    (hr_exit_code hr = 0 \<longleftrightarrow> (\<exists>f. resolved_ovmf_path p w = Inr f)) \<and>
    (\<forall>f. resolved_ovmf_path p w = Inr f \<longrightarrow> contains f (hr_stdout hr))"
proof (cases "given (ctx_cli_ovmf_path c)")
  case True
  then show ?thesis using assms contains_inside [of _ "''CLI OVMF: ''" "[]"]
    by (auto simp: verify_ovmf_def resolved_ovmf_path_def Let_def simp del: contains.simps)
next
  case False
  have "find_ovmf cs w = find (\<lambda>s. is_file (path_of s) w) cs" for cs
    by (induction cs) simp_all
  then have eq: "find_ovmf_path w = find (\<lambda>s. is_file (path_of s) w) default_ovmf_candidates"
    by (simp add: find_ovmf_path_def)
  show ?thesis using assms False
    using contains_inside [of _ "''OVMF on host: ''" "'' (override with --ovmf if needed)''"]
    by (cases "find (\<lambda>s. is_file (path_of s) w) default_ovmf_candidates") (auto simp: eq verify_ovmf_def resolved_ovmf_path_def simp del: contains.simps)
qed

section \<open>Concrete instances\<close>

theorem verify_ovmf_agrees_witness:
  "\<exists>hr. verify_ovmf (es_ctx (initial_state demo_config demo_test (Path [] [''a'']) None (empty_world ())))
     (empty_world ()) = (Inr hr, empty_world ()) \<and> hr_exit_code hr \<noteq> 0"
proof -
  let ?c = "es_ctx (initial_state demo_config demo_test (Path [] [''a'']) None (empty_world ()))"
  have "vp_ovmf_path (mk_profile ''g'') = ctx_cli_ovmf_path ?c"
    by (simp add: mk_profile_def initial_state_def demo_config_def)
  from verify_ovmf_agrees [OF this, of "empty_world ()"] obtain hr where
    hr: "verify_ovmf ?c (empty_world ()) = (Inr hr, empty_world ())"
      "hr_exit_code hr = 0 \<longleftrightarrow> (\<exists>f. resolved_ovmf_path (mk_profile ''g'') (empty_world ()) = Inr f)" by blast
  have "find_ovmf_path (empty_world ()) = None"
    by (simp add: find_ovmf_path_def find_ovmf_None is_file_def empty_world_def)
  then have "\<nexists>f. resolved_ovmf_path (mk_profile ''g'') (empty_world ()) = Inr f"
    by (simp add: resolved_ovmf_path_def mk_profile_def given_def)
  with hr show ?thesis by blast
qed

theorem snp_ok_verdict_witness:
  "\<exists>tr w'. execute_test (tool_ops []) (\<lambda>_. Inr (snp_ok_mod :: unit test_mod)) demo_config None
       (demo_test\<lparr>test_scope := MixedScope\<rparr>) (empty_world ()) = (Inr tr, w') \<and>
     length (tr_step_results tr) = 3"
proof -
  let ?t = "demo_test\<lparr>test_scope := MixedScope\<rparr>" and ?mods = "\<lambda>_. Inr (snp_ok_mod :: unit test_mod)"
  have imp: "import_test_module ?mods ?t = Inr snp_ok_mod" by (simp add: import_test_module_def)
  have vm: "requires_vm ?t" "\<not> rc_debug demo_config" by (simp_all add: requires_vm_def demo_config_def)
  have wf: "list_all (\<lambda>t. wf_step t \<and> (step_kind t = VmLaunch \<longrightarrow> step_guest_id t \<noteq> [])) (map projr snp_ok_plan)"
    by (simp add: snp_ok_plan_def factory_accepts common_ok_def is_other_severity_def default_timeout_def
      wf_step_eval all_step_fields sf_common_def mk_factory_def is_other_kind_def)
  have "keeps (has_files F) (verify_ovmf c :: (unit world, handler_result) io)" for F c
    unfolding verify_ovmf_def Let_def by (intro keeps_intro)
  then have keep: "handlers_keep_files (w_files (empty_world ())) (snp_ok_mod :: unit test_mod)"
    by (intro handlers_keep_filesI [where hs = "[(''verify_ovmf'', verify_ovmf)]"]) (auto simp: snp_ok_mod_def)
  have none: "w_files (empty_world ()) p = None" for p by (simp add: empty_world_def)
  then have dirs: "list_ex (\<lambda>q. w_files (empty_world ()) q \<noteq> None) ps = False" for ps
    by (simp add: list_ex_iff)
  obtain tr w' where r: "execute_test (tool_ops []) ?mods demo_config None ?t (empty_world ()) = (Inr tr, w')"
    using tool_test_runs [OF imp vm(1) snp_ok_loads [OF imp] wf keep vm(2) none dirs] by blast
  from snp_ok_verdict [OF r imp] r show ?thesis by blast
qed

end
