(* ===== verification/Attestation_Report.thy ===== *)
theory Attestation_Report
  imports PyBytes
begin

text \<open>
  The attestation report parser, \<^verbatim>\<open>sev_verify/attestation_report.py\<close>: the two layouts of
  TCB_VERSION, the table of processor generations, the CPU of the host, and \<^verbatim>\<open>parse\<close> itself.
  Integers are \<^typ>\<open>int\<close>, as in Python; the report is a list of bytes and its fields are read
  at the source's offsets.
\<close>

unbundle bit_operations_syntax

section \<open>Constants\<close>

definition report_size :: nat where "report_size = 1184"

definition known_versions :: "int list" where "known_versions = [2, 3, 5]"

text \<open>\<^verbatim>\<open>min(KNOWN_VERSIONS)\<close> and \<^verbatim>\<open>max(KNOWN_VERSIONS)\<close>\<close>

definition known_min :: int where "known_min = fold min known_versions (hd known_versions)"
definition known_max :: int where "known_max = fold max known_versions (hd known_versions)"

datatype tcb_layout = Legacy | Turin | OtherLayout string

fun layout_str :: "tcb_layout \<Rightarrow> string" where
  "layout_str Legacy = ''legacy''"
| "layout_str Turin = ''turin''"
| "layout_str (OtherLayout s) = s"

type_synonym generation = "string \<times> tcb_layout"

text \<open>(family, first model, model after the last, name, layout)\<close>

type_synonym gen_entry = "int \<times> int \<times> int \<times> string \<times> tcb_layout"

definition supported_generations :: "gen_entry list" where
  "supported_generations =
     [(0x19, 0x00, 0x10, ''Milan'', Legacy),
      (0x19, 0x10, 0x20, ''Genoa'', Legacy),
      (0x19, 0xA0, 0xB0, ''Bergamo/Siena'', Legacy),
      (0x1A, 0x00, 0x12, ''Turin'', Turin)]"

definition off_version :: nat where "off_version = 0x000"
definition off_guest_svn :: nat where "off_guest_svn = 0x004"
definition off_policy :: nat where "off_policy = 0x008"
definition off_family_id :: nat where "off_family_id = 0x010"
definition off_image_id :: nat where "off_image_id = 0x020"
definition off_vmpl :: nat where "off_vmpl = 0x030"
definition off_report_data :: nat where "off_report_data = 0x050"
definition off_measurement :: nat where "off_measurement = 0x090"
definition off_host_data :: nat where "off_host_data = 0x0C0"
definition off_id_key_digest :: nat where "off_id_key_digest = 0x0E0"
definition off_author_key_digest :: nat where "off_author_key_digest = 0x110"
definition off_report_id :: nat where "off_report_id = 0x140"
definition off_reported_tcb :: nat where "off_reported_tcb = 0x180"
definition off_cpuid_fam :: nat where "off_cpuid_fam = 0x188"
definition off_launch_tcb :: nat where "off_launch_tcb = 0x1F0"

definition len_id :: nat where "len_id = 16"
definition len_measurement :: nat where "len_measurement = 48"
definition len_digest :: nat where "len_digest = 48"
definition len_report_data :: nat where "len_report_data = 64"
definition len_host_data :: nat where "len_host_data = 32"
definition len_report_id :: nat where "len_report_id = 32"

lemmas report_consts =
  report_size_def off_version_def off_guest_svn_def off_policy_def off_family_id_def
  off_image_id_def off_vmpl_def off_report_data_def off_measurement_def off_host_data_def
  off_id_key_digest_def off_author_key_digest_def off_report_id_def off_reported_tcb_def
  off_cpuid_fam_def off_launch_tcb_def len_id_def len_measurement_def len_digest_def
  len_report_data_def len_host_data_def len_report_id_def

section \<open>TCB_VERSION\<close>

record tcb_version =
  tcb_bootloader :: int
  tcb_tee :: int
  tcb_snp :: int
  tcb_microcode :: int
  tcb_fmc :: "int option"

text \<open>\<^verbatim>\<open>raw[i]\<close>\<close>

definition byte_at :: "bytes \<Rightarrow> nat \<Rightarrow> exc + int" where
  "byte_at raw i =
     (if i < length raw then Inr (uint (raw ! i)) else raise IndexError ''index out of range'')"

definition unknown_layout :: "tcb_layout \<Rightarrow> exc" where
  "unknown_layout l = Exc ReportUnsupportedCpu (''unknown TCB layout '' @ repr_str (layout_str l))"

fun tcb_from_bytes :: "bytes \<Rightarrow> tcb_layout \<Rightarrow> exc + tcb_version" where
  "tcb_from_bytes raw Turin =
     rbind (byte_at raw 0) (\<lambda>f. rbind (byte_at raw 1) (\<lambda>b. rbind (byte_at raw 2) (\<lambda>t.
     rbind (byte_at raw 3) (\<lambda>s. rbind (byte_at raw 7) (\<lambda>m.
       Inr \<lparr>tcb_bootloader = b, tcb_tee = t, tcb_snp = s, tcb_microcode = m, tcb_fmc = Some f\<rparr>)))))"
| "tcb_from_bytes raw Legacy =
     rbind (byte_at raw 0) (\<lambda>b. rbind (byte_at raw 1) (\<lambda>t. rbind (byte_at raw 6) (\<lambda>s.
     rbind (byte_at raw 7) (\<lambda>m.
       Inr \<lparr>tcb_bootloader = b, tcb_tee = t, tcb_snp = s, tcb_microcode = m, tcb_fmc = None\<rparr>))))"
| "tcb_from_bytes raw (OtherLayout l) = Inl (unknown_layout (OtherLayout l))"

fun tcb_to_u64 :: "tcb_version \<Rightarrow> tcb_layout \<Rightarrow> exc + int" where
  "tcb_to_u64 v Turin =
     (let fmc = (case tcb_fmc v of Some f \<Rightarrow> f | None \<Rightarrow> 0) in
      Inr ((fmc AND 0xFF)
           OR push_bit 8 (tcb_bootloader v AND 0xFF)
           OR push_bit 16 (tcb_tee v AND 0xFF)
           OR push_bit 24 (tcb_snp v AND 0xFF)
           OR push_bit 56 (tcb_microcode v AND 0xFF)))"
| "tcb_to_u64 v Legacy =
     Inr ((tcb_bootloader v AND 0xFF)
          OR push_bit 8 (tcb_tee v AND 0xFF)
          OR push_bit 48 (tcb_snp v AND 0xFF)
          OR push_bit 56 (tcb_microcode v AND 0xFF))"
| "tcb_to_u64 v (OtherLayout l) = Inl (unknown_layout (OtherLayout l))"

definition tcb_str :: "tcb_version \<Rightarrow> string" where
  "tcb_str v =
     (let base = ''bootloader='' @ str_int (tcb_bootloader v) @ '' tee='' @ str_int (tcb_tee v)
                 @ '' snp='' @ str_int (tcb_snp v) @ '' microcode='' @ str_int (tcb_microcode v)
      in case tcb_fmc v of None \<Rightarrow> base | Some f \<Rightarrow> ''fmc='' @ str_int f @ '' '' @ base)"

section \<open>Processor generations\<close>

text \<open>\<^verbatim>\<open>f"0x{n:02X}"\<close>\<close>

definition hex0x :: "int \<Rightarrow> string" where
  "hex0x n = ''0x'' @ (if n < 0 then ''-'' @ map upper_char (nat_str 16 (nat (- n)))
                       else hex_upper2 (nat n))"

fun lookup_generation :: "gen_entry list \<Rightarrow> int \<Rightarrow> int \<Rightarrow> generation option" where
  "lookup_generation [] family model = None"
| "lookup_generation ((fam, lo, hi, name, layout) # es) family model =
     (if family = fam \<and> lo \<le> model \<and> model < hi then Some (name, layout)
      else lookup_generation es family model)"

definition known_generations_text :: string where
  "known_generations_text = join '', '' (map (\<lambda>(fam, lo, hi, name, _).
     name @ '' (family '' @ hex0x fam @ '' model '' @ hex0x lo @ ''-'' @ hex0x (hi - 1) @ '')'')
     supported_generations)"

definition resolve_generation :: "int \<Rightarrow> int \<Rightarrow> exc + generation" where
  "resolve_generation family model =
     (case lookup_generation supported_generations family model of
        Some g \<Rightarrow> Inr g
      | None \<Rightarrow> raise ReportUnsupportedCpu
          (''CPUID family '' @ hex0x family @ '' model '' @ hex0x model
           @ '' is not a generation this parser knows. Known: '' @ known_generations_text
           @ ''. TCB_VERSION is laid out differently ''
           @ ''across processor generations, so decoding anyway would produce ''
           @ ''plausible but wrong values. See SUPPORTED_GENERATIONS in ''
           @ ''sev_verify/attestation_report.py.''))"

text \<open>
  The scan of \<^verbatim>\<open>/proc/cpuinfo\<close>: the first value of each key wins, and the loop ends once
  both are known. \<^verbatim>\<open>int()\<close> may raise its own \<^verbatim>\<open>ValueError\<close>.
\<close>

definition int_or_raise :: "string \<Rightarrow> exc + int" where
  "int_or_raise s =
     (case py_int s of Some n \<Rightarrow> Inr n
      | None \<Rightarrow> raise ValueError (''invalid literal for int() with base 10: '' @ repr_str s))"

fun scan_cpuinfo :: "int option \<Rightarrow> int option \<Rightarrow> string list \<Rightarrow> exc + int option \<times> int option" where
  "scan_cpuinfo family model [] = Inr (family, model)"
| "scan_cpuinfo family model (l # ls) =
     (case partition_at CHR '':'' l of (k, _, v) \<Rightarrow>
        let key = strip k in
        rbind (if key = ''cpu family'' \<and> family = None
               then rbind (int_or_raise (strip v)) (\<lambda>n. Inr (Some n, model))
               else if key = ''model'' \<and> model = None
               then rbind (int_or_raise (strip v)) (\<lambda>n. Inr (family, Some n))
               else Inr (family, model))
          (\<lambda>(family', model').
             if family' \<noteq> None \<and> model' \<noteq> None then Inr (family', model')
             else scan_cpuinfo family' model' ls))"

text \<open>The argument is the outcome of reading \<^verbatim>\<open>/proc/cpuinfo\<close>.\<close>

definition host_generation :: "exc + string \<Rightarrow> exc + generation" where
  "host_generation cpuinfo =
     rbind (catch OSError
              (rbind cpuinfo (\<lambda>text. scan_cpuinfo None None (split_on CHR 0x0A text)))
              (\<lambda>e. raise ReportUnsupportedCpu (''could not read /proc/cpuinfo: '' @ msg_of e)))
       (\<lambda>(family, model).
          case (family, model) of
            (Some f, Some m) \<Rightarrow> resolve_generation f m
          | _ \<Rightarrow> raise ReportUnsupportedCpu
              ''could not determine CPU family/model from /proc/cpuinfo'')"

section \<open>The report\<close>

record attestation_report =
  rep_version :: int
  rep_guest_svn :: int
  rep_policy :: int
  rep_family_id :: bytes
  rep_image_id :: bytes
  rep_vmpl :: int
  rep_report_data :: bytes
  rep_measurement :: bytes
  rep_host_data :: bytes
  rep_id_key_digest :: bytes
  rep_author_key_digest :: bytes
  rep_report_id :: bytes
  rep_reported_tcb :: "tcb_version option"
  rep_cpuid :: "(int \<times> int \<times> int) option"
  rep_generation :: string
  rep_cpuid_note :: "string option"
  rep_version_note :: "string option"
  rep_launch_tcb :: "tcb_version option"

definition id_block_used :: "attestation_report \<Rightarrow> bool" where
  "id_block_used r = list_ex (\<lambda>b. b \<noteq> 0) (rep_id_key_digest r)"

definition unpack_u32 :: "bytes \<Rightarrow> nat \<Rightarrow> int" where
  "unpack_u32 data off = int (le_nat (subbytes off 4 data))"

definition unpack_u64 :: "bytes \<Rightarrow> nat \<Rightarrow> int" where
  "unpack_u64 data off = int (le_nat (subbytes off 8 data))"

definition versions_text :: string where
  "versions_text = ''['' @ join '', '' (map str_int known_versions) @ '']''"

definition version_check :: "int \<Rightarrow> exc + string option" where
  "version_check version =
     (if List.member known_versions version then Inr None
      else if version < known_min then
        raise ReportUnsupportedVersion
          (''report declares VERSION '' @ str_int version @ '', older than any layout ''
           @ ''validated here ('' @ versions_text @ ''); fields read by ''
           @ ''this parser may not exist in that version'')
      else Inr (Some
          (''report VERSION '' @ str_int version @ '' is newer than any validated here (''
           @ versions_text @ ''); decoded using version ''
           @ str_int known_max @ '' field offsets, relying on the ABI''
           @ [CHR 0x27] @ ''s append-only convention'')))"

definition cpuid_text :: "int \<times> int \<times> int \<Rightarrow> string" where
  "cpuid_text c = (case c of (f, m, s) \<Rightarrow>
     ''report CPUID family '' @ hex0x f @ '' model '' @ hex0x m @ '' stepping '' @ hex0x s)"

text \<open>
  The generation that decides the layout, and the note about the cross-check with the
  report's own CPUID.
\<close>

fun choose_generation ::
  "generation option \<Rightarrow> (int \<times> int \<times> int) option \<Rightarrow> exc + generation option \<times> string option" where
  "choose_generation (Some g) (Some (f, m, s)) =
     (case resolve_generation f m of
        Inl _ \<Rightarrow> Inr (Some g, Some (cpuid_text (f, m, s)
          @ '' does not resolve to a known generation; decoded as '' @ fst g
          @ '' from the host instead''))
      | Inr report_gen \<Rightarrow>
          if report_gen \<noteq> g then
            raise ReportUnsupportedCpu
              (''report CPUID family '' @ hex0x f @ '' model '' @ hex0x m @ '' resolves to ''
               @ fst report_gen @ '', but this host is '' @ fst g
               @ ''. The report does not appear to come from this machine.'')
          else Inr (Some g, None))"
| "choose_generation None (Some (f, m, s)) =
     (case resolve_generation f m of
        Inl _ \<Rightarrow> Inr (None, Some (cpuid_text (f, m, s)
          @ '' does not resolve to a known generation and no host generation was supplied; ''
          @ ''TCB_VERSION left undecoded''))
      | Inr report_gen \<Rightarrow> Inr (Some report_gen, None))"
| "choose_generation g None = Inr (g, None)"

definition decode_tcbs ::
  "bytes \<Rightarrow> int \<Rightarrow> generation option
     \<Rightarrow> exc + string \<times> tcb_version option \<times> tcb_version option" where
  "decode_tcbs data version g =
     (case g of
        None \<Rightarrow> Inr (''unknown'', None, None)
      | Some (name, layout) \<Rightarrow>
          rbind (tcb_from_bytes (subbytes off_reported_tcb 8 data) layout) (\<lambda>reported.
            if version \<ge> 3 then
              rbind (tcb_from_bytes (subbytes off_launch_tcb 8 data) layout)
                (\<lambda>launch. Inr (name, Some reported, Some launch))
            else Inr (name, Some reported, None)))"

definition report_cpuid :: "bytes \<Rightarrow> int \<Rightarrow> (int \<times> int \<times> int) option" where
  "report_cpuid data version =
     (if version \<ge> 3 then
        Some (uint (data ! off_cpuid_fam), uint (data ! (off_cpuid_fam + 1)),
              uint (data ! (off_cpuid_fam + 2)))
      else None)"

definition parse_report_bytes :: "bytes \<Rightarrow> generation option \<Rightarrow> exc + attestation_report" where
  "parse_report_bytes data generation =
     (if length data \<noteq> report_size then
        raise ReportMalformed (''expected a '' @ nat_str 10 report_size
          @ ''-byte ATTESTATION_REPORT, got '' @ nat_str 10 (length data) @ '' bytes'')
      else
        let version = unpack_u32 data off_version; cpuid = report_cpuid data version in
        rbind (version_check version) (\<lambda>version_note.
        rbind (choose_generation generation cpuid) (\<lambda>(gen, cpuid_note).
        rbind (decode_tcbs data version gen) (\<lambda>(gen_name, reported_tcb, launch_tcb).
          Inr \<lparr>rep_version = version,
               rep_guest_svn = unpack_u32 data off_guest_svn,
               rep_policy = unpack_u64 data off_policy,
               rep_family_id = subbytes off_family_id len_id data,
               rep_image_id = subbytes off_image_id len_id data,
               rep_vmpl = unpack_u32 data off_vmpl,
               rep_report_data = subbytes off_report_data len_report_data data,
               rep_measurement = subbytes off_measurement len_measurement data,
               rep_host_data = subbytes off_host_data len_host_data data,
               rep_id_key_digest = subbytes off_id_key_digest len_digest data,
               rep_author_key_digest = subbytes off_author_key_digest len_digest data,
               rep_report_id = subbytes off_report_id len_report_id data,
               rep_reported_tcb = reported_tcb,
               rep_cpuid = cpuid,
               rep_generation = gen_name,
               rep_cpuid_note = cpuid_note,
               rep_version_note = version_note,
               rep_launch_tcb = launch_tcb\<rparr>))))"

text \<open>\<^verbatim>\<open>read\<close>: the argument is the outcome of \<^verbatim>\<open>path.read_bytes()\<close> and the file's name.\<close>

definition read_report :: "string \<Rightarrow> exc + bytes \<Rightarrow> generation option \<Rightarrow> exc + attestation_report" where
  "read_report name contents generation =
     rbind (catch FileNotFoundError contents (\<lambda>_. raise ReportMalformed (name @ '' not found'')))
       (\<lambda>data. parse_report_bytes data generation)"

section \<open>TCB_VERSION: the two byte orders\<close>

lemma or_field:
  assumes "0 \<le> x" and "x < 2 ^ k"
  shows "x OR push_bit k y = x + 2 ^ k * (y :: int)"
proof -
  have "take_bit k x = x" using assms by (simp add: take_bit_int_eq_self)
  then have "x OR push_bit k y = concat_bit k x y" by (simp add: concat_bit_def)
  also have "\<dots> = take_bit k x + push_bit k y" by (rule concat_bit_eq)
  finally show ?thesis using \<open>take_bit k x = x\<close> by (simp add: push_bit_eq_mult)
qed

lemma and_ff: "0 \<le> x \<Longrightarrow> x < 256 \<Longrightarrow> x AND 0xFF = (x :: int)"
proof -
  assume "0 \<le> x" "x < 256"
  then have "take_bit 8 x = x" by (simp add: take_bit_int_eq_self)
  moreover have "x AND mask 8 = take_bit 8 x" by (simp add: take_bit_eq_mask)
  moreover have "mask 8 = (0xFF :: int)" by (simp add: mask_eq_exp_minus_1)
  ultimately show ?thesis by simp
qed

definition is_byte :: "int \<Rightarrow> bool" where
  "is_byte x \<longleftrightarrow> 0 \<le> x \<and> x < 256"

text \<open>A TCB_VERSION of a layout: byte-sized components, and FMC exactly where the layout has it.\<close>

definition tcb_wf :: "tcb_layout \<Rightarrow> tcb_version \<Rightarrow> bool" where
  "tcb_wf l v \<longleftrightarrow>
     is_byte (tcb_bootloader v) \<and> is_byte (tcb_tee v) \<and> is_byte (tcb_snp v) \<and>
     is_byte (tcb_microcode v) \<and>
     (case l of Turin \<Rightarrow> (\<exists>f. tcb_fmc v = Some f \<and> is_byte f)
              | Legacy \<Rightarrow> tcb_fmc v = None | OtherLayout _ \<Rightarrow> False)"

lemma tcb_to_u64_turin:
  assumes "tcb_wf Turin v" and "tcb_fmc v = Some f"
  shows "tcb_to_u64 v Turin =
    Inr (f + 2 ^ 8 * tcb_bootloader v + 2 ^ 16 * tcb_tee v + 2 ^ 24 * tcb_snp v
           + 2 ^ 56 * tcb_microcode v)"
proof -
  from assms have b: "is_byte f" "is_byte (tcb_bootloader v)" "is_byte (tcb_tee v)"
    "is_byte (tcb_snp v)" "is_byte (tcb_microcode v)"
    by (auto simp: tcb_wf_def)
  have "f OR push_bit 8 (tcb_bootloader v) = f + 2 ^ 8 * tcb_bootloader v"
    by (rule or_field) (use b in \<open>auto simp: is_byte_def\<close>)
  moreover have "(f + 2 ^ 8 * tcb_bootloader v) OR push_bit 16 (tcb_tee v)
      = f + 2 ^ 8 * tcb_bootloader v + 2 ^ 16 * tcb_tee v"
    by (rule or_field) (use b in \<open>auto simp: is_byte_def\<close>)
  moreover have "(f + 2 ^ 8 * tcb_bootloader v + 2 ^ 16 * tcb_tee v) OR push_bit 24 (tcb_snp v)
      = f + 2 ^ 8 * tcb_bootloader v + 2 ^ 16 * tcb_tee v + 2 ^ 24 * tcb_snp v"
    by (rule or_field) (use b in \<open>auto simp: is_byte_def\<close>)
  moreover have "(f + 2 ^ 8 * tcb_bootloader v + 2 ^ 16 * tcb_tee v + 2 ^ 24 * tcb_snp v)
        OR push_bit 56 (tcb_microcode v)
      = f + 2 ^ 8 * tcb_bootloader v + 2 ^ 16 * tcb_tee v + 2 ^ 24 * tcb_snp v
          + 2 ^ 56 * tcb_microcode v"
    by (rule or_field) (use b in \<open>auto simp: is_byte_def\<close>)
  ultimately show ?thesis
    using b assms(2) by (simp only: tcb_to_u64.simps Let_def option.case is_byte_def and_ff
        or.assoc [symmetric])
qed

lemma tcb_to_u64_legacy:
  assumes "tcb_wf Legacy v"
  shows "tcb_to_u64 v Legacy =
    Inr (tcb_bootloader v + 2 ^ 8 * tcb_tee v + 2 ^ 48 * tcb_snp v + 2 ^ 56 * tcb_microcode v)"
proof -
  from assms have b: "is_byte (tcb_bootloader v)" "is_byte (tcb_tee v)"
    "is_byte (tcb_snp v)" "is_byte (tcb_microcode v)"
    by (auto simp: tcb_wf_def)
  have "tcb_bootloader v OR push_bit 8 (tcb_tee v) = tcb_bootloader v + 2 ^ 8 * tcb_tee v"
    by (rule or_field) (use b in \<open>auto simp: is_byte_def\<close>)
  moreover have "(tcb_bootloader v + 2 ^ 8 * tcb_tee v) OR push_bit 48 (tcb_snp v)
      = tcb_bootloader v + 2 ^ 8 * tcb_tee v + 2 ^ 48 * tcb_snp v"
    by (rule or_field) (use b in \<open>auto simp: is_byte_def\<close>)
  moreover have "(tcb_bootloader v + 2 ^ 8 * tcb_tee v + 2 ^ 48 * tcb_snp v)
        OR push_bit 56 (tcb_microcode v)
      = tcb_bootloader v + 2 ^ 8 * tcb_tee v + 2 ^ 48 * tcb_snp v + 2 ^ 56 * tcb_microcode v"
    by (rule or_field) (use b in \<open>auto simp: is_byte_def\<close>)
  ultimately show ?thesis
    using b by (simp only: tcb_to_u64.simps is_byte_def and_ff or.assoc [symmetric])
qed

text \<open>The packed integer as a sum of bytes gives those bytes back, little end first.\<close>

definition le_sum :: "nat list \<Rightarrow> nat" where
  "le_sum ds = foldr (\<lambda>d acc. d + 256 * acc) ds 0"

lemma le_bytes_le_sum:
  "\<forall>d \<in> set ds. d < 256 \<Longrightarrow> le_bytes (length ds) (le_sum ds) = map word_of_nat ds"
proof (induction ds)
  case Nil
  then show ?case by simp
next
  case (Cons d ds)
  have "word_of_nat (d + 256 * le_sum ds) = (word_of_nat d :: byte)"
  proof -
    have "(256 :: byte) = 0" by simp
    then show ?thesis by (simp only: of_nat_add of_nat_mult of_nat_numeral) simp
  qed
  moreover have "(d + 256 * le_sum ds) div 256 = le_sum ds" using Cons.prems by simp
  ultimately show ?case using Cons by (simp add: le_sum_def)
qed

lemma uint_word_of_nat_byte: "is_byte x \<Longrightarrow> uint (word_of_nat (nat x) :: byte) = x"
  by (simp add: is_byte_def unsigned_of_int take_bit_int_eq_self)

lemma is_byte_0 [simp]: "is_byte 0"
  by (simp add: is_byte_def)

lemma le_bytes_u64:
  assumes "is_byte b0" "is_byte b1" "is_byte b2" "is_byte b3" "is_byte b6" "is_byte b7"
  shows "le_bytes 8 (nat (b0 + 2 ^ 8 * b1 + 2 ^ 16 * b2 + 2 ^ 24 * b3 + 2 ^ 48 * b6 + 2 ^ 56 * b7))
    = map (\<lambda>b. word_of_nat (nat b)) [b0, b1, b2, b3, 0, 0, b6, b7]"
proof -
  let ?ds = "map nat [b0, b1, b2, b3, 0, 0, b6, b7]"
  have "nat (b0 + 2 ^ 8 * b1 + 2 ^ 16 * b2 + 2 ^ 24 * b3 + 2 ^ 48 * b6 + 2 ^ 56 * b7) = le_sum ?ds"
  proof -
    obtain n0 n1 n2 n3 n6 n7 where n: "b0 = int n0" "b1 = int n1" "b2 = int n2" "b3 = int n3"
      "b6 = int n6" "b7 = int n7"
      using assms unfolding is_byte_def by (metis nonneg_int_cases)
    have "b0 + 2 ^ 8 * b1 + 2 ^ 16 * b2 + 2 ^ 24 * b3 + 2 ^ 48 * b6 + 2 ^ 56 * b7
        = int (le_sum ?ds)"
      by (simp add: n le_sum_def)
    then show ?thesis by (simp only: nat_int)
  qed
  moreover have "\<forall>d \<in> set ?ds. d < 256" using assms by (auto simp: is_byte_def)
  moreover have "length ?ds = 8" by simp
  ultimately have "le_bytes 8 (nat (b0 + 2 ^ 8 * b1 + 2 ^ 16 * b2 + 2 ^ 24 * b3 + 2 ^ 48 * b6
      + 2 ^ 56 * b7)) = map word_of_nat ?ds"
    using le_bytes_le_sum [of ?ds] by metis
  then show ?thesis by (simp only: map_map comp_def)
qed

text \<open>
  The contract of one layout's encoder and decoder, and what follows for its users: the
  encoding is a 64-bit number, it decodes to what was encoded, and so two different TCB
  versions never share a number.
\<close>

locale tcb_codec =
  fixes dec :: "bytes \<Rightarrow> exc + tcb_version"
    and enc :: "tcb_version \<Rightarrow> exc + int"
    and wf :: "tcb_version \<Rightarrow> bool"
  assumes enc_u64: "wf v \<Longrightarrow> \<exists>n. enc v = Inr n \<and> 0 \<le> n \<and> n < 2 ^ 64"
    and dec_enc: "wf v \<Longrightarrow> enc v = Inr n \<Longrightarrow> dec (le_bytes 8 (nat n)) = Inr v"
begin

lemma enc_inj: "wf v \<Longrightarrow> wf w \<Longrightarrow> enc v = enc w \<Longrightarrow> v = w"
  using enc_u64 dec_enc by (metis sum.inject(2))

lemma enc_distinct: "list_all wf vs \<Longrightarrow> distinct vs \<Longrightarrow> distinct (map enc vs)"
  by (simp add: distinct_map inj_on_def list_all_iff) (metis enc_inj)

end

interpretation turin_codec: tcb_codec
  "\<lambda>raw. tcb_from_bytes raw Turin" "\<lambda>v. tcb_to_u64 v Turin" "tcb_wf Turin"
proof
  fix v :: tcb_version
  assume wf: "tcb_wf Turin v"
  then obtain f where f: "tcb_fmc v = Some f" and b: "is_byte f" "is_byte (tcb_bootloader v)"
    "is_byte (tcb_tee v)" "is_byte (tcb_snp v)" "is_byte (tcb_microcode v)"
    by (auto simp: tcb_wf_def)
  show "\<exists>n. tcb_to_u64 v Turin = Inr n \<and> 0 \<le> n \<and> n < 2 ^ 64"
    using tcb_to_u64_turin [OF wf f] b by (auto simp: is_byte_def)
  fix n assume "tcb_to_u64 v Turin = Inr n"
  then have "n = f + 2 ^ 8 * tcb_bootloader v + 2 ^ 16 * tcb_tee v + 2 ^ 24 * tcb_snp v
      + 2 ^ 48 * 0 + 2 ^ 56 * tcb_microcode v"
    using tcb_to_u64_turin [OF wf f] by simp
  then have "le_bytes 8 (nat n) = map (\<lambda>b. word_of_nat (nat b))
      [f, tcb_bootloader v, tcb_tee v, tcb_snp v, 0, 0, 0, tcb_microcode v]"
    using b by (simp only: le_bytes_u64 is_byte_0)
  then show "tcb_from_bytes (le_bytes 8 (nat n)) Turin = Inr v"
    using b f by (simp add: byte_at_def uint_word_of_nat_byte)
qed

interpretation legacy_codec: tcb_codec
  "\<lambda>raw. tcb_from_bytes raw Legacy" "\<lambda>v. tcb_to_u64 v Legacy" "tcb_wf Legacy"
proof
  fix v :: tcb_version
  assume wf: "tcb_wf Legacy v"
  then have f: "tcb_fmc v = None" and b: "is_byte (tcb_bootloader v)"
    "is_byte (tcb_tee v)" "is_byte (tcb_snp v)" "is_byte (tcb_microcode v)"
    by (auto simp: tcb_wf_def)
  show "\<exists>n. tcb_to_u64 v Legacy = Inr n \<and> 0 \<le> n \<and> n < 2 ^ 64"
    using tcb_to_u64_legacy [OF wf] b by (auto simp: is_byte_def)
  fix n assume "tcb_to_u64 v Legacy = Inr n"
  then have "n = tcb_bootloader v + 2 ^ 8 * tcb_tee v + 2 ^ 16 * 0 + 2 ^ 24 * 0
      + 2 ^ 48 * tcb_snp v + 2 ^ 56 * tcb_microcode v"
    using tcb_to_u64_legacy [OF wf] by simp
  then have "le_bytes 8 (nat n) = map (\<lambda>b. word_of_nat (nat b))
      [tcb_bootloader v, tcb_tee v, 0, 0, 0, 0, tcb_snp v, tcb_microcode v]"
    using b by (simp only: le_bytes_u64 is_byte_0)
  then show "tcb_from_bytes (le_bytes 8 (nat n)) Legacy = Inr v"
    using b f by (simp add: byte_at_def uint_word_of_nat_byte)
qed

lemmas tcb_roundtrips = turin_codec.dec_enc legacy_codec.dec_enc

text \<open>
  C33: under either layout, encoding a TCB version as the \<^verbatim>\<open>--tcb_version\<close> number and decoding
  the number's eight little-endian bytes gives the TCB version back, and the number fits in
  64 bits.
\<close>

theorem tcb_u64_roundtrip:
  assumes "tcb_wf layout v"
  shows "\<exists>n. tcb_to_u64 v layout = Inr n \<and> 0 \<le> n \<and> n < 2 ^ 64
             \<and> tcb_from_bytes (le_bytes 8 (nat n)) layout = Inr v"
proof (cases layout)
  case Legacy
  with assms legacy_codec.enc_u64 [of v] legacy_codec.dec_enc [of v] show ?thesis by blast
next
  case Turin
  with assms turin_codec.enc_u64 [of v] turin_codec.dec_enc [of v] show ?thesis by blast
next
  case (OtherLayout l)
  with assms show ?thesis by (simp add: tcb_wf_def)
qed

theorem tcb_u64_roundtrip_witness:
  "\<exists>n. tcb_to_u64 \<lparr>tcb_bootloader = 4, tcb_tee = 0, tcb_snp = 27, tcb_microcode = 25,
                   tcb_fmc = Some 1\<rparr> Turin = Inr n
       \<and> 0 \<le> n \<and> n < 2 ^ 64
       \<and> tcb_from_bytes (le_bytes 8 (nat n)) Turin
         = Inr \<lparr>tcb_bootloader = 4, tcb_tee = 0, tcb_snp = 27, tcb_microcode = 25,
                tcb_fmc = Some 1\<rparr>"
  by (rule tcb_u64_roundtrip) (simp add: tcb_wf_def is_byte_def)

section \<open>The generation table\<close>

lemma resolve_generation_Inr:
  "resolve_generation f m = Inr g \<longleftrightarrow> lookup_generation supported_generations f m = Some g"
  by (auto simp: resolve_generation_def split: option.splits)

lemma resolve_generation_Inl:
  "resolve_generation f m = Inl e \<Longrightarrow>
     lookup_generation supported_generations f m = None \<and> class_of e = ReportUnsupportedCpu"
  by (auto simp: resolve_generation_def split: option.splits)

text \<open>No two entries cover the same family and model.\<close>

fun gens_disjoint :: "gen_entry list \<Rightarrow> bool" where
  "gens_disjoint [] = True"
| "gens_disjoint ((f, lo, hi, _, _) # es) =
     (list_all (\<lambda>(f', lo', hi', _, _). f \<noteq> f' \<or> hi \<le> lo' \<or> hi' \<le> lo) es \<and> gens_disjoint es)"

lemma lookup_generation_iff:
  "gens_disjoint es \<Longrightarrow>
   lookup_generation es f m = Some (name, layout) \<longleftrightarrow>
     (\<exists>lo hi. (f, lo, hi, name, layout) \<in> set es \<and> lo \<le> m \<and> m < hi)"
proof (induction es)
  case Nil
  then show ?case by simp
next
  case (Cons e es)
  obtain f0 lo0 hi0 n0 l0 where e: "e = (f0, lo0, hi0, n0, l0)" by (cases e)
  show ?case
  proof (cases "f = f0 \<and> lo0 \<le> m \<and> m < hi0")
    case True
    have "\<not> (lo \<le> m \<and> m < hi)" if "(f, lo, hi, n, l) \<in> set es" for lo hi n l
    proof -
      from Cons.prems that have "f0 \<noteq> f \<or> hi0 \<le> lo \<or> hi \<le> lo0"
        by (auto simp: e list_all_iff)
      with True show ?thesis by auto
    qed
    with True show ?thesis by (auto simp: e)
  next
    case False
    with Cons.IH Cons.prems show ?thesis by (auto simp: e)
  qed
qed

lemma supported_disjoint: "gens_disjoint supported_generations"
  by (simp add: supported_generations_def)

lemma supported_layouts:
  "list_all (\<lambda>(_, _, _, _, l). l = Legacy \<or> l = Turin) supported_generations"
  by (simp add: supported_generations_def)

text \<open>
  The table of generations is unambiguous: \<^verbatim>\<open>resolve_generation\<close> returns a generation
  exactly if some entry of the table covers the family and model, and the entry it returns is
  the only one that does, whatever the order of the table.
\<close>

theorem resolve_generation_iff:
  "(resolve_generation f m = Inr (name, layout)) =
     (\<exists>lo hi. (f, lo, hi, name, layout) \<in> set supported_generations \<and> lo \<le> m \<and> m < hi)"
  by (simp add: resolve_generation_Inr lookup_generation_iff [OF supported_disjoint])

lemma resolved_layout_known:
  "resolve_generation f m = Inr (name, layout) \<Longrightarrow> layout = Legacy \<or> layout = Turin"
  using supported_layouts
  by (auto simp: resolve_generation_Inr lookup_generation_iff [OF supported_disjoint] list_all_iff)

section \<open>Which reports are accepted\<close>

definition report_version :: "bytes \<Rightarrow> int" where
  "report_version data = unpack_u32 data off_version"

definition cpu_consistent :: "bytes \<Rightarrow> generation option \<Rightarrow> bool" where
  "cpu_consistent data g =
     (case g of
        None \<Rightarrow> True
      | Some (name, layout) \<Rightarrow>
          (layout = Legacy \<or> layout = Turin) \<and>
          (case report_cpuid data (report_version data) of
             None \<Rightarrow> True
           | Some (f, m, _) \<Rightarrow>
               (case resolve_generation f m of Inl _ \<Rightarrow> True | Inr g' \<Rightarrow> g' = (name, layout))))"

lemma tcb_from_bytes_total:
  "length raw = 8 \<Longrightarrow> layout = Legacy \<or> layout = Turin \<Longrightarrow> \<exists>t. tcb_from_bytes raw layout = Inr t"
  by (auto simp: byte_at_def)

lemma version_check_Inr: "(\<exists>n. version_check v = Inr n) \<longleftrightarrow> 2 \<le> v"
  by (auto simp: version_check_def known_versions_def known_min_def)

lemma version_check_Inl: "version_check v = Inl e \<Longrightarrow> v < 2 \<and> class_of e = ReportUnsupportedVersion"
  by (auto simp: version_check_def known_versions_def known_min_def split: if_splits)

lemma length_tcb_fields:
  "length data = report_size \<Longrightarrow>
     length (subbytes off_reported_tcb 8 data) = 8 \<and> length (subbytes off_launch_tcb 8 data) = 8"
  by (simp add: report_consts length_subbytes)

lemma decode_tcbs_known:
  assumes "length data = report_size" and "layout = Legacy \<or> layout = Turin"
  shows "\<exists>r l. decode_tcbs data v (Some (name, layout)) = Inr (name, Some r, l)
      \<and> tcb_from_bytes (subbytes off_reported_tcb 8 data) layout = Inr r
      \<and> (3 \<le> v \<longrightarrow> (\<exists>t. l = Some t \<and> tcb_from_bytes (subbytes off_launch_tcb 8 data) layout = Inr t))
      \<and> (v < 3 \<longrightarrow> l = None)"
proof -
  obtain r where "tcb_from_bytes (subbytes off_reported_tcb 8 data) layout = Inr r"
    using tcb_from_bytes_total assms length_tcb_fields by blast
  moreover obtain t where "tcb_from_bytes (subbytes off_launch_tcb 8 data) layout = Inr t"
    using tcb_from_bytes_total assms length_tcb_fields by blast
  ultimately show ?thesis by (simp add: decode_tcbs_def)
qed

lemma decode_tcbs_other:
  "decode_tcbs data v (Some (name, OtherLayout l)) = Inl (unknown_layout (OtherLayout l))"
  by (simp add: decode_tcbs_def)

lemma decode_tcbs_reported:
  "decode_tcbs data v g = Inr (n, Some t, l) \<Longrightarrow>
     \<exists>layout. g = Some (n, layout) \<and> tcb_from_bytes (subbytes off_reported_tcb 8 data) layout = Inr t"
  by (cases g) (auto simp: decode_tcbs_def rbind_eq_Inr split: if_splits)

text \<open>What \<open>choose_generation\<close> returns, and when it refuses.\<close>

lemma choose_generation_host:
  "choose_generation (Some g) c = Inr (g', note) \<Longrightarrow> g' = Some g"
  by (cases c) (auto split: sum.splits if_splits)

lemma choose_generation_none:
  "choose_generation None c = Inr (Some g, note) \<Longrightarrow>
     \<exists>f m s. c = Some (f, m, s) \<and> resolve_generation f m = Inr g"
  by (cases c) (auto split: sum.splits if_splits)

lemma choose_generation_class:
  "choose_generation g c = Inl e \<Longrightarrow> class_of e = ReportUnsupportedCpu"
  by (induction g c rule: choose_generation.induct) (auto split: sum.splits if_splits)

lemma choose_generation_None_total: "\<exists>g note. choose_generation None c = Inr (g, note)"
  by (cases c) (auto split: sum.splits)

lemma choose_generation_Some_total:
  "(\<exists>g' note. choose_generation (Some g) c = Inr (g', note)) =
     (case c of None \<Rightarrow> True
      | Some (f, m, _) \<Rightarrow> (case resolve_generation f m of Inl _ \<Rightarrow> True | Inr g' \<Rightarrow> g' = g))"
  by (cases c) (auto split: sum.splits if_splits)

text \<open>The successful run of \<open>parse_report_bytes\<close>, taken apart.\<close>

lemma parse_report_Inr:
  assumes "parse_report_bytes data generation = Inr a"
  obtains vnote gen cnote where
    "length data = report_size"
    "version_check (report_version data) = Inr vnote"
    "choose_generation generation (report_cpuid data (report_version data)) = Inr (gen, cnote)"
    "decode_tcbs data (report_version data) gen
       = Inr (rep_generation a, rep_reported_tcb a, rep_launch_tcb a)"
    "rep_version a = report_version data" "rep_version_note a = vnote" "rep_cpuid_note a = cnote"
    "rep_cpuid a = report_cpuid data (report_version data)"
  using assms
  by (fastforce simp: parse_report_bytes_def report_version_def Let_def rbind_eq_Inr split: if_splits)

text \<open>
  Which reports \<^verbatim>\<open>parse\<close> accepts: those of the fixed size, of version 2 or later, for
  which the supplied generation, if any, has a known layout and is not contradicted by the
  report's own CPUID (present from version 3). A report from an unknown processor is not
  refused.
\<close>

theorem parse_accepts_iff:
  "(\<exists>a. parse_report_bytes data generation = Inr a) =
     (length data = 1184 \<and> 2 \<le> report_version data \<and> cpu_consistent data generation)"
proof -
  let ?v = "report_version data" and ?c = "report_cpuid data (report_version data)"
  have "(\<exists>a. parse_report_bytes data generation = Inr a) \<longleftrightarrow>
      length data = report_size \<and> (\<exists>n. version_check ?v = Inr n) \<and>
      (\<exists>g n t. choose_generation generation ?c = Inr (g, n) \<and> decode_tcbs data ?v g = Inr t)"
    by (fastforce simp: parse_report_bytes_def report_version_def Let_def rbind_eq_Inr
        split: if_splits)
  moreover have "(\<exists>g n t. choose_generation generation ?c = Inr (g, n) \<and> decode_tcbs data ?v g = Inr t)
      \<longleftrightarrow> cpu_consistent data generation" if len: "length data = report_size"
  proof (cases generation)
    case None
    obtain g n where g: "choose_generation None ?c = Inr (g, n)"
      using choose_generation_None_total by blast
    have "\<exists>t. decode_tcbs data ?v g = Inr t"
    proof (cases g)
      case None
      then show ?thesis by (simp add: decode_tcbs_def)
    next
      case (Some g0)
      obtain name layout where g0: "g0 = (name, layout)" by fastforce
      with Some g choose_generation_none have "layout = Legacy \<or> layout = Turin"
        by (metis resolved_layout_known)
      with Some g0 len show ?thesis using decode_tcbs_known by blast
    qed
    with None g show ?thesis by (auto simp: cpu_consistent_def)
  next
    case (Some g0)
    obtain name layout where g0: "g0 = (name, layout)" by fastforce
    have dec: "(\<exists>t. decode_tcbs data ?v (Some (name, layout)) = Inr t) \<longleftrightarrow>
        layout = Legacy \<or> layout = Turin"
    proof (cases "layout = Legacy \<or> layout = Turin")
      case True
      with decode_tcbs_known [OF len True] show ?thesis by blast
    next
      case False
      then show ?thesis by (cases layout) (auto simp: decode_tcbs_other)
    qed
    have "(\<exists>g n t. choose_generation (Some g0) ?c = Inr (g, n) \<and> decode_tcbs data ?v g = Inr t)
        \<longleftrightarrow> (\<exists>g n. choose_generation (Some g0) ?c = Inr (g, n)) \<and>
            (\<exists>t. decode_tcbs data ?v (Some g0) = Inr t)"
      using choose_generation_host by blast
    also have "\<dots> \<longleftrightarrow> cpu_consistent data (Some g0)"
      unfolding choose_generation_Some_total g0 dec cpu_consistent_def by auto
    finally show ?thesis using Some by simp
  qed
  ultimately show ?thesis by (auto simp: version_check_Inr report_size_def)
qed

text \<open>
  How \<^verbatim>\<open>parse\<close> refuses: a wrong size is \<^verbatim>\<open>ReportMalformed\<close>, then a version below 2 is
  \<^verbatim>\<open>ReportUnsupportedVersion\<close>, and everything else it refuses is \<^verbatim>\<open>ReportUnsupportedCpu\<close>; no
  other exception escapes, so an \<^verbatim>\<open>except ReportError\<close> clause catches every refusal.
\<close>

theorem parse_error_class:
  assumes "parse_report_bytes data generation = Inl e"
  shows "class_of e = (if length data \<noteq> 1184 then ReportMalformed
                       else if report_version data < 2 then ReportUnsupportedVersion
                       else ReportUnsupportedCpu)
         \<and> is_a e ReportError"
proof -
  let ?v = "report_version data"
  have "class_of e = (if length data \<noteq> 1184 then ReportMalformed
                       else if ?v < 2 then ReportUnsupportedVersion
                       else ReportUnsupportedCpu)"
  proof (cases "length data = report_size \<and> 2 \<le> ?v")
    case False
    with assms show ?thesis
      by (auto simp: parse_report_bytes_def report_version_def report_size_def Let_def rbind_eq_Inl
          dest: version_check_Inl split: if_splits)
        (metis not_le version_check_Inr)+
  next
    case True
    then obtain n where "version_check ?v = Inr n" using version_check_Inr by blast
    with True assms consider
      "choose_generation generation (report_cpuid data ?v) = Inl e"
    | g cn where "choose_generation generation (report_cpuid data ?v) = Inr (g, cn)"
        "decode_tcbs data ?v g = Inl e"
      by (auto simp: parse_report_bytes_def report_version_def Let_def rbind_eq_Inl)
    then have "class_of e = ReportUnsupportedCpu"
    proof cases
      case 1
      then show ?thesis by (rule choose_generation_class)
    next
      case 2
      then obtain name layout where g: "g = Some (name, layout)"
        by (cases g) (auto simp: decode_tcbs_def)
      with 2 True decode_tcbs_known [of data layout ?v name]
      obtain l where "layout = OtherLayout l" by (cases layout) auto
      with g 2 show ?thesis by (auto simp: decode_tcbs_other unknown_layout_def)
    qed
    with True show ?thesis by (simp add: report_size_def)
  qed
  then show ?thesis by (auto simp: is_a_def)
qed

theorem parse_error_class_witness:
  "\<exists>e. parse_report_bytes [] None = Inl e \<and> class_of e = ReportMalformed"
proof -
  obtain e where e: "parse_report_bytes [] None = Inl e"
    by (simp add: parse_report_bytes_def report_size_def)
  with parse_error_class [OF e] show ?thesis by simp
qed


section \<open>The layout of the report\<close>

text \<open>
  The ATTESTATION_REPORT structure as the ABI lays it out: consecutive fields of fixed widths,
  from version 3 on. \<open>render_report\<close> is this independent description; the parser reads the
  same bytes by offset.
\<close>

record raw_report =
  rr_version :: bytes
  rr_guest_svn :: bytes
  rr_policy :: bytes
  rr_family_id :: bytes
  rr_image_id :: bytes
  rr_vmpl :: bytes
  rr_skip1 :: bytes
  rr_report_data :: bytes
  rr_measurement :: bytes
  rr_host_data :: bytes
  rr_id_key_digest :: bytes
  rr_author_key_digest :: bytes
  rr_report_id :: bytes
  rr_skip2 :: bytes
  rr_reported_tcb :: bytes
  rr_cpuid :: bytes
  rr_skip3 :: bytes
  rr_launch_tcb :: bytes
  rr_skip4 :: bytes

definition raw_fields :: "raw_report \<Rightarrow> bytes list" where
  "raw_fields r =
     [rr_version r, rr_guest_svn r, rr_policy r, rr_family_id r, rr_image_id r, rr_vmpl r,
      rr_skip1 r, rr_report_data r, rr_measurement r, rr_host_data r, rr_id_key_digest r,
      rr_author_key_digest r, rr_report_id r, rr_skip2 r, rr_reported_tcb r, rr_cpuid r,
      rr_skip3 r, rr_launch_tcb r, rr_skip4 r]"

definition raw_widths :: "nat list" where
  "raw_widths = [4, 4, 8, 16, 16, 4, 28, 64, 48, 32, 48, 48, 32, 32, 8, 3, 101, 8, 680]"

definition render_report :: "raw_report \<Rightarrow> bytes" where
  "render_report r = concat (raw_fields r)"

definition wf_raw :: "raw_report \<Rightarrow> bool" where
  "wf_raw r \<longleftrightarrow> map length (raw_fields r) = raw_widths"

lemma subbytes_field:
  assumes "k < length xss" and "sum_list (map length (take k xss)) = off" and "length (xss ! k) = n"
  shows "subbytes off n (concat xss) = xss ! k"
proof -
  have "xss = take k xss @ xss ! k # drop (Suc k) xss"
    using assms(1) by (simp add: id_take_nth_drop)
  then have "concat xss = concat (take k xss) @ xss ! k @ concat (drop (Suc k) xss)"
    by (metis concat.simps(2) concat_append)
  moreover have "length (concat (take k xss)) = off" using assms(2) by (simp add: length_concat)
  ultimately show ?thesis using assms(3) by (simp add: subbytes_def)
qed

lemma raw_field:
  assumes "wf_raw r" and "k < 19"
  shows "subbytes (sum_list (take k raw_widths)) (raw_widths ! k) (render_report r) = raw_fields r ! k"
proof -
  have len: "map length (raw_fields r) = raw_widths" using assms(1) by (simp add: wf_raw_def)
  have k: "k < length (raw_fields r)" using assms(2) by (simp add: raw_fields_def)
  have "map length (take k (raw_fields r)) = take k raw_widths" by (simp add: take_map flip: len)
  moreover have "length (raw_fields r ! k) = raw_widths ! k" using k by (simp flip: len)
  ultimately show ?thesis unfolding render_report_def using subbytes_field [OF k] by simp
qed

lemma length_render: "wf_raw r \<Longrightarrow> length (render_report r) = report_size"
  by (simp add: render_report_def length_concat wf_raw_def raw_widths_def report_size_def)

lemmas raw_eval = raw_widths_def raw_fields_def numeral_eq_Suc

lemma raw_offsets:
  assumes "wf_raw r"
  shows "subbytes off_version 4 (render_report r) = rr_version r"
    "subbytes off_guest_svn 4 (render_report r) = rr_guest_svn r"
    "subbytes off_policy 8 (render_report r) = rr_policy r"
    "subbytes off_family_id len_id (render_report r) = rr_family_id r"
    "subbytes off_image_id len_id (render_report r) = rr_image_id r"
    "subbytes off_vmpl 4 (render_report r) = rr_vmpl r"
    "subbytes off_report_data len_report_data (render_report r) = rr_report_data r"
    "subbytes off_measurement len_measurement (render_report r) = rr_measurement r"
    "subbytes off_host_data len_host_data (render_report r) = rr_host_data r"
    "subbytes off_id_key_digest len_digest (render_report r) = rr_id_key_digest r"
    "subbytes off_author_key_digest len_digest (render_report r) = rr_author_key_digest r"
    "subbytes off_report_id len_report_id (render_report r) = rr_report_id r"
    "subbytes off_reported_tcb 8 (render_report r) = rr_reported_tcb r"
    "subbytes off_cpuid_fam 3 (render_report r) = rr_cpuid r"
    "subbytes off_launch_tcb 8 (render_report r) = rr_launch_tcb r"
  using raw_field [OF assms, of 0] raw_field [OF assms, of 1] raw_field [OF assms, of 2]
    raw_field [OF assms, of 3] raw_field [OF assms, of 4] raw_field [OF assms, of 5]
    raw_field [OF assms, of 7] raw_field [OF assms, of 8] raw_field [OF assms, of 9]
    raw_field [OF assms, of 10] raw_field [OF assms, of 11] raw_field [OF assms, of 12]
    raw_field [OF assms, of 14] raw_field [OF assms, of 15] raw_field [OF assms, of 17]
  by (simp_all add: raw_widths_def raw_fields_def report_consts)


definition sample_raw :: raw_report where
  "sample_raw =
     \<lparr>rr_version = [3, 0, 0, 0], rr_guest_svn = [48, 0, 0, 0],
      rr_policy = [0, 0, 11, 0, 0, 0, 0, 0], rr_family_id = replicate 16 65,
      rr_image_id = replicate 16 66, rr_vmpl = [1, 0, 0, 0], rr_skip1 = replicate 28 0,
      rr_report_data = replicate 64 7, rr_measurement = replicate 48 8,
      rr_host_data = replicate 32 0, rr_id_key_digest = replicate 48 9,
      rr_author_key_digest = replicate 48 0, rr_report_id = replicate 32 5,
      rr_skip2 = replicate 32 0, rr_reported_tcb = [4, 0, 0, 0, 0, 0, 27, 25],
      rr_cpuid = [0x19, 0x11, 1], rr_skip3 = replicate 101 0,
      rr_launch_tcb = [4, 0, 0, 0, 0, 0, 27, 25], rr_skip4 = replicate 680 0\<rparr>"

lemma sample_wf: "wf_raw sample_raw"
  by (simp add: wf_raw_def raw_fields_def raw_widths_def sample_raw_def)

lemma sample_version: "report_version (render_report sample_raw) = 3"
  by (simp add: report_version_def unpack_u32_def raw_offsets [OF sample_wf])
    (simp add: sample_raw_def)

lemma sample_accepted: "\<exists>a. parse_report_bytes (render_report sample_raw) None = Inr a"
  unfolding parse_accepts_iff
  using length_render [OF sample_wf] by (simp add: sample_version cpu_consistent_def report_size_def)



text \<open>
  Versions newer than the table are decoded and flagged, and so is version 4, whose note
  says that it is newer than any validated version although version 5 is validated; the known
  versions carry no note.
\<close>

theorem version_note_iff:
  "(\<exists>n. version_check v = Inr (Some n)) = (v = 4 \<or> 5 < v)"
  by (auto simp: version_check_def known_versions_def known_min_def)

text \<open>
  Without a host generation, a report whose CPUID is not in the table is still accepted:
  its TCBs are left undecoded and a note says so.
\<close>

theorem unknown_cpu_undecoded:
  assumes "length data = 1184" and "3 \<le> report_version data"
    and "report_cpuid data (report_version data) = Some (f, m, s)"
    and "lookup_generation supported_generations f m = None"
  shows "\<exists>a note. parse_report_bytes data None = Inr a \<and> rep_generation a = ''unknown''
      \<and> rep_reported_tcb a = None \<and> rep_launch_tcb a = None \<and> rep_cpuid_note a = Some note"
proof -
  have "\<exists>a. parse_report_bytes data None = Inr a"
    unfolding parse_accepts_iff using assms(1,2) by (simp add: cpu_consistent_def)
  then obtain a where a: "parse_report_bytes data None = Inr a" by blast
  obtain e where e: "resolve_generation f m = Inl e"
    using assms(4) by (simp add: resolve_generation_def)
  from a obtain gen where
    gen: "choose_generation None (report_cpuid data (report_version data)) = Inr (gen, rep_cpuid_note a)"
    and dec: "decode_tcbs data (report_version data) gen
                = Inr (rep_generation a, rep_reported_tcb a, rep_launch_tcb a)"
    by (rule parse_report_Inr) blast
  from gen e assms(3) have g: "gen = None" "\<exists>n. rep_cpuid_note a = Some n"
    by (auto simp: eq_commute [of "Some _" "rep_cpuid_note a"])
  from dec g(1) have "rep_generation a = ''unknown'' \<and> rep_reported_tcb a = None \<and> rep_launch_tcb a = None"
    by (simp add: decode_tcbs_def)
  with a g(2) show ?thesis by blast
qed

definition alien_raw :: raw_report where
  "alien_raw = sample_raw\<lparr>rr_cpuid := [0x17, 0x31, 0]\<rparr>"

theorem unknown_cpu_undecoded_witness:
  "\<exists>a note. parse_report_bytes (render_report alien_raw) None = Inr a
      \<and> rep_reported_tcb a = None \<and> rep_cpuid_note a = Some note"
proof -
  let ?d = "render_report alien_raw"
  have wf: "wf_raw alien_raw"
    by (simp add: alien_raw_def sample_raw_def wf_raw_def raw_fields_def raw_widths_def)
  have v: "report_version ?d = 3"
    by (simp add: report_version_def unpack_u32_def raw_offsets [OF wf])
      (simp add: alien_raw_def sample_raw_def)
  have len: "length ?d = 1184" using length_render [OF wf] by (simp add: report_size_def)
  have "?d ! (off_cpuid_fam + i) = rr_cpuid alien_raw ! i" if "i < 3" for i
  proof -
    have "rr_cpuid alien_raw = subbytes off_cpuid_fam 3 ?d" by (simp add: raw_offsets [OF wf])
    then show ?thesis using that len by (simp add: subbytes_def report_consts)
  qed
  from this [of 0] this [of 1] this [of 2] have
    c: "report_cpuid ?d (report_version ?d) = Some (0x17, 0x31, 0)"
    unfolding v by (simp add: report_cpuid_def alien_raw_def)
  have "lookup_generation supported_generations 0x17 0x31 = None"
    by (simp add: supported_generations_def)
  from unknown_cpu_undecoded [OF len _ c this] v show ?thesis by auto
qed

end
