(* ===== verification/Processor_Model.thy ===== *)
theory Processor_Model
  imports Attestation_Report
begin

text \<open>
  The script \<^verbatim>\<open>get_processor_model.py\<close> of the beacon image, which names the processor from CPUID.
  The package \<^verbatim>\<open>cpuid\<close> is the parameter: the four registers of a function, or an exception. The
  fields are cut out of the reversed binary text of EAX; the theory relates them to the bits of
  the word and the table to the one of the report parser.
\<close>

type_synonym cpuid = "nat \<Rightarrow> exc + 32 word list"

definition cpu_registers :: "string list" where
  "cpu_registers = [''eax'', ''ebx'', ''ecx'', ''edx'']"

definition get_cpuid :: "cpuid \<Rightarrow> nat \<Rightarrow> string \<Rightarrow> exc + 32 word option" where
  "get_cpuid cpuid function register =
     (case cpuid function of
        Inl e \<Rightarrow> if is_a e ValueError then Inr None else Inl e
      | Inr register_values \<Rightarrow>
          (case map_of (zip cpu_registers register_values) register of
             None \<Rightarrow> raise KeyError (repr_str register)
           | Some v \<Rightarrow> Inr (Some v)))"

text \<open>\<^verbatim>\<open>int(s, 2)\<close>, and the characters from \<open>a\<close> to \<open>b\<close> in the order of the number.\<close>

definition int2 :: "string \<Rightarrow> exc + int" where
  "int2 s = (case signed_parse (parse_nat 2) s of
     Some n \<Rightarrow> Inr n
   | None \<Rightarrow> raise ValueError (''invalid literal for int() with base 2: '' @ repr_str s))"

definition bit_slice :: "nat \<Rightarrow> nat \<Rightarrow> string \<Rightarrow> string" where
  "bit_slice a b s = rev (take (b - a) (drop a s))"

datatype cpu_name = Codename string string | InvalidCpu

definition codename_of :: "int \<Rightarrow> int \<Rightarrow> cpu_name" where
  "codename_of family model =
     (if family = 23 \<and> 0 \<le> model \<and> model \<le> 15 then Codename ''Naples'' ''7001''
      else if family = 23 \<and> 48 \<le> model \<and> model \<le> 63 then Codename ''Rome'' ''7002''
      else if family = 25 \<and> 0 \<le> model \<and> model \<le> 15 then Codename ''Milan'' ''7003''
      else if family = 25 \<and> ((16 \<le> model \<and> model \<le> 31) \<or> (160 \<le> model \<and> model \<le> 175))
        then Codename ''Genoa'' ''9004''
      else if family = 26 \<and> 0 \<le> model \<and> model \<le> 17 then Codename ''Turin'' ''9005''
      else InvalidCpu)"

definition get_processor_model :: "cpuid \<Rightarrow> exc + cpu_name option" where
  "get_processor_model cpuid =
     rbind (get_cpuid cpuid 0x80000001 ''eax'') (\<lambda>eax.
       case eax of
         None \<Rightarrow> Inr None
       | Some eax \<Rightarrow>
           let bin_value = rev (nat_str 2 (unat eax)) in
           rbind (int2 (bit_slice 8 12 bin_value)) (\<lambda>base_family.
           rbind (int2 (bit_slice 20 28 bin_value)) (\<lambda>extended_family.
           let base_model = bit_slice 4 8 bin_value;
               extended_model = bit_slice 16 20 bin_value;
               family = base_family + extended_family in
           rbind (int2 (extended_model @ base_model)) (\<lambda>model.
             Inr (Some (codename_of family model))))))"

text \<open>
  The script's output for its optional argument; the result \<^verbatim>\<open>None\<close> of a failed read is not
  subscriptable.
\<close>

definition model_line :: "string option \<Rightarrow> cpu_name option \<Rightarrow> exc + string" where
  "model_line field result =
     (case result of
        None \<Rightarrow> raise TypeError (repr_str ''NoneType'' @ '' object is not subscriptable'')
      | Some InvalidCpu \<Rightarrow> Inr ''invalid cpu''
      | Some (Codename name series) \<Rightarrow>
          Inr (if field = Some ''codename'' then name
               else if field = Some ''series'' then series
               else name @ '' '' @ series))"

section \<open>The bits of a binary text\<close>

fun lsb_bits :: "nat \<Rightarrow> nat list" where
  "lsb_bits n = (if n < 2 then [n] else n mod 2 # lsb_bits (n div 2))"

declare lsb_bits.simps [simp del]

definition bits_value :: "nat list \<Rightarrow> nat" where
  "bits_value ds = foldr (\<lambda>d v. d + 2 * v) ds 0"

lemma rev_nat_str_bits: "rev (nat_str 2 n) = map digit_char (lsb_bits n)"
proof (induction n rule: lsb_bits.induct)
  case (1 n)
  then show ?case
    by (subst nat_str.simps, subst lsb_bits.simps) simp
qed

lemma lsb_bits_bit: "d \<in> set (lsb_bits n) \<Longrightarrow> d < 2"
proof (induction n rule: lsb_bits.induct)
  case (1 n)
  then show ?case
    by (subst (asm) (2) lsb_bits.simps) (auto split: if_splits)
qed

lemma drop_lsb_bits: "a = 0 \<or> 2 ^ a \<le> n \<Longrightarrow> drop a (lsb_bits n) = lsb_bits (n div 2 ^ a)"
proof (induction a arbitrary: n)
  case (Suc a)
  then have "2 \<le> n" using order_trans [of 2 "2 ^ Suc a" n] by simp
  then have "drop (Suc a) (lsb_bits n) = drop a (lsb_bits (n div 2))"
    by (subst lsb_bits.simps) simp
  also have "\<dots> = lsb_bits (n div 2 div 2 ^ a)" using Suc by (intro Suc.IH) auto
  finally show ?case by (simp add: div_mult2_eq)
qed simp

lemma bits_value_take: "bits_value (take k (lsb_bits m)) = m mod 2 ^ k"
proof (induction k arbitrary: m)
  case (Suc k)
  show ?case
  proof (cases "m < 2")
    case True
    have "(2 :: nat) \<le> 2 ^ Suc k" by simp
    then have "m mod 2 ^ Suc k = m" using True by (intro mod_less) linarith
    then show ?thesis using True by (subst lsb_bits.simps) (simp add: bits_value_def)
  next
    case False
    have "m mod 2 ^ Suc k = m mod 2 + 2 * (m div 2 mod 2 ^ k)" by (simp add: mod_mult2_eq)
    then show ?thesis using False Suc by (subst lsb_bits.simps) (simp add: bits_value_def)
  qed
qed (simp add: bits_value_def)

lemma digits_from_bits:
  "\<forall>d \<in> set ds. d < 2 \<Longrightarrow> ds \<noteq> [] \<or> \<not> need \<Longrightarrow>
     digits_from 2 acc need (map digit_char ds) = Some (foldl (\<lambda>a d. a * 2 + d) acc ds)"
proof (induction ds arbitrary: acc need)
  case (Cons d ds)
  have "digits_from 2 acc need (digit_char d # map digit_char ds)
      = digits_from 2 (acc * 2 + d) False (map digit_char ds)"
    using Cons.prems(1) by (subst digits_from_digit) simp_all
  then show ?case using Cons by simp
qed simp

lemma int2_bits:
  assumes "ds \<noteq> []" and "\<forall>d \<in> set ds. d < 2"
  shows "int2 (map digit_char ds) = Inr (int (foldl (\<lambda>a d. a * 2 + d) 0 ds))"
proof -
  have "\<not> py_space (digit_char d) \<and> digit_char d \<noteq> CHR ''-'' \<and> digit_char d \<noteq> CHR ''+''" if "d < 2" for d
    using digit_char_not_special [of d] that by simp
  then have "strip (map digit_char ds) = map digit_char ds" "take 1 (map digit_char ds) \<noteq> ''-''"
    "take 1 (map digit_char ds) \<noteq> ''+''"
    using assms by (auto intro!: strip_id simp: hd_map last_map) (cases ds; simp)+
  moreover have "parse_nat 2 (map digit_char ds) = Some (foldl (\<lambda>a d. a * 2 + d) 0 ds)"
    unfolding parse_nat_def using assms by (intro digits_from_bits) auto
  ultimately show ?thesis by (simp add: int2_def signed_parse_def Let_def)
qed

text \<open>A slice of the text, read as a number, is the field of bits.\<close>

lemma slice_bits:
  assumes "2 ^ a \<le> n" and "a < b"
  shows "\<exists>ds. bit_slice a b (rev (nat_str 2 n)) = map digit_char ds \<and> ds \<noteq> [] \<and> (\<forall>d \<in> set ds. d < 2) \<and>
    foldl (\<lambda>a d. a * 2 + d) acc ds = acc * 2 ^ length ds + take_bit (b - a) (drop_bit a n) \<and>
    (2 ^ b \<le> n \<longrightarrow> length ds = b - a)"
proof -
  let ?bs = "take (b - a) (lsb_bits (n div 2 ^ a))"
  have ne: "lsb_bits m \<noteq> []" for m by (subst lsb_bits.simps) simp
  have fold: "foldl (\<lambda>a d. a * 2 + d) acc (rev ds) = acc * 2 ^ length ds + bits_value ds" for ds acc
    by (induction ds arbitrary: acc) (simp_all add: bits_value_def algebra_simps)
  have "drop a (lsb_bits n) = lsb_bits (n div 2 ^ a)" using assms(1) by (intro drop_lsb_bits) simp
  then have "bit_slice a b (rev (nat_str 2 n)) = map digit_char (rev ?bs)"
    by (simp add: bit_slice_def rev_nat_str_bits drop_map take_map rev_map)
  moreover have "\<forall>d \<in> set (rev ?bs). d < 2" using lsb_bits_bit by (auto dest: in_set_takeD)
  moreover have "bits_value ?bs = take_bit (b - a) (drop_bit a n)"
    by (simp add: bits_value_take take_bit_eq_mod drop_bit_eq_div)
  moreover have "length (rev ?bs) = b - a" if "2 ^ b \<le> n"
  proof -
    have "drop b (lsb_bits n) = lsb_bits (n div 2 ^ b)" using that by (intro drop_lsb_bits) simp
    then have "b < length (lsb_bits n)" using ne [of "n div 2 ^ b"] by (metis drop_all linorder_not_less)
    moreover have "length (lsb_bits (n div 2 ^ a)) = length (lsb_bits n) - a"
      using \<open>drop a (lsb_bits n) = lsb_bits (n div 2 ^ a)\<close> by (metis length_drop)
    ultimately show ?thesis by simp
  qed
  ultimately show ?thesis using fold [of acc ?bs] ne assms(2)
    by (intro exI [of _ "rev ?bs"]) simp
qed

section \<open>Properties\<close>

text \<open>The fields of CPUID function 0x80000001, as the processor's manual has them.\<close>

definition cpu_family :: "32 word \<Rightarrow> int" where
  "cpu_family eax = int (take_bit 4 (drop_bit 8 (unat eax)) + take_bit 8 (drop_bit 20 (unat eax)))"

definition cpu_model :: "32 word \<Rightarrow> int" where
  "cpu_model eax = int (16 * take_bit 4 (drop_bit 16 (unat eax)) + take_bit 4 (drop_bit 4 (unat eax)))"

lemma processor_model_fields:
  assumes "get_cpuid cpuid 0x80000001 ''eax'' = Inr (Some eax)" and "2 ^ 20 \<le> unat eax"
  shows "get_processor_model cpuid = Inr (Some (codename_of (cpu_family eax) (cpu_model eax)))"
proof -
  let ?n = "unat eax" and ?s = "rev (nat_str 2 (unat eax))"
  have field: "\<exists>ds. bit_slice a b ?s = map digit_char ds \<and> ds \<noteq> [] \<and> (\<forall>d \<in> set ds. d < 2) \<and>
    foldl (\<lambda>a d. a * 2 + d) acc ds = acc * 2 ^ length ds + take_bit (b - a) (drop_bit a ?n) \<and>
    (2 ^ b \<le> ?n \<longrightarrow> length ds = b - a)" if "a \<le> 20" "a < b" for a b acc
  proof (rule slice_bits)
    have "(2 :: nat) ^ a \<le> 2 ^ 20" using that(1) by (intro power_increasing) simp_all
    then show "2 ^ a \<le> ?n" using assms(2) by linarith
  qed (rule that(2))
  have fam: "int2 (bit_slice a b ?s) = Inr (int (take_bit (b - a) (drop_bit a ?n)))" if "a \<le> 20" "a < b" for a b
    using field [OF that, of 0] int2_bits by fastforce
  obtain hi where hi: "bit_slice 16 20 ?s = map digit_char hi" "\<forall>d \<in> set hi. d < 2" "hi \<noteq> []"
    "foldl (\<lambda>a d. a * 2 + d) 0 hi = take_bit 4 (drop_bit 16 ?n)"
    using field [of 16 20 0] by auto
  have "(2 :: nat) ^ 8 \<le> 2 ^ 20" by simp
  then have "2 ^ 8 \<le> ?n" using assms(2) by linarith
  then obtain lo where lo: "bit_slice 4 8 ?s = map digit_char lo" "\<forall>d \<in> set lo. d < 2" "length lo = 4"
    "foldl (\<lambda>a d. a * 2 + d) (take_bit 4 (drop_bit 16 ?n)) lo
       = take_bit 4 (drop_bit 16 ?n) * 2 ^ length lo + take_bit 4 (drop_bit 4 ?n)"
    using field [of 4 8 "take_bit 4 (drop_bit 16 ?n)"] by auto
  have "int2 (map digit_char (hi @ lo)) = Inr (int (foldl (\<lambda>a d. a * 2 + d) 0 (hi @ lo)))"
    using hi lo by (intro int2_bits) auto
  also have "foldl (\<lambda>a d. a * 2 + d) 0 (hi @ lo) = 16 * take_bit 4 (drop_bit 16 ?n) + take_bit 4 (drop_bit 4 ?n)"
    using hi(4) lo(3,4) by simp
  finally have model: "int2 (bit_slice 16 20 ?s @ bit_slice 4 8 ?s) = Inr (cpu_model eax)"
    by (simp add: hi(1) lo(1) cpu_model_def)
  show ?thesis
    using fam [of 8 12] fam [of 20 28] model
    by (simp add: get_processor_model_def assms(1) Let_def cpu_family_def)
qed

text \<open>
  C35: the script and the report parser agree on the processor: on every EAX with an extended
  family, the text slices are the family and model of the manual, the script names a supported
  processor exactly when the parser has a generation for that family and model, and under the
  same name, except that what the parser calls Bergamo/Siena the script calls Genoa.
\<close>

theorem processor_model_agrees:
  assumes "get_cpuid cpuid 0x80000001 ''eax'' = Inr (Some eax)" and "2 ^ 20 \<le> unat eax"
  shows "\<exists>result. get_processor_model cpuid = Inr (Some result) \<and>
    (case resolve_generation (cpu_family eax) (cpu_model eax) of
       Inr g \<Rightarrow> \<exists>name series. result = Codename name series \<and>
         (fst g = name \<or> (fst g = ''Bergamo/Siena'' \<and> name = ''Genoa''))
     | Inl e \<Rightarrow> result = InvalidCpu \<or> (\<exists>name series. result = Codename name series \<and> name \<in> {''Naples'', ''Rome''}))"
proof -
  have "0 \<le> cpu_model eax" by (simp add: cpu_model_def)
  then show ?thesis
    using processor_model_fields [OF assms]
    by (auto simp: codename_of_def resolve_generation_def supported_generations_def split: option.splits)
qed

text \<open>
  Without an extended family the script fails: when EAX is below 2 to the 20 the text has no
  characters for it, and the conversion of the empty text raises a \<^verbatim>\<open>ValueError\<close>, which nothing
  catches.
\<close>

theorem short_eax_raises:
  assumes "get_cpuid cpuid 0x80000001 ''eax'' = Inr (Some eax)" and "unat eax < 2 ^ 20"
  shows "\<exists>e. get_processor_model cpuid = Inl e \<and> class_of e = ValueError"
proof -
  have len: "n < 2 ^ k \<Longrightarrow> 0 < k \<Longrightarrow> length (lsb_bits n) \<le> k" for n k
  proof (induction n arbitrary: k rule: lsb_bits.induct)
    case (1 n)
    show ?case
    proof (cases "n < 2")
      case True
      then show ?thesis using 1 by (subst lsb_bits.simps) simp
    next
      case False
      then obtain k' where k: "k = Suc k'" "0 < k'" using "1.prems" by (cases k; cases "k - 1") auto
      then have "length (lsb_bits (n div 2)) \<le> k'" using "1.IH" [OF False, of k'] "1.prems" by auto
      then show ?thesis using False k by (subst lsb_bits.simps) simp
    qed
  qed
  have "bit_slice 20 28 (rev (nat_str 2 (unat eax))) = []"
    using len [OF assms(2)] by (simp add: bit_slice_def rev_nat_str_bits)
  moreover have "int2 [] = raise ValueError (''invalid literal for int() with base 2: '' @ repr_str [])"
    by (simp add: int2_def signed_parse_def strip_def strip_by_def Let_def parse_nat_def)
  moreover have "int2 s = Inl e \<Longrightarrow> class_of e = ValueError" for s e
    by (auto simp: int2_def split: option.splits)
  ultimately show ?thesis
    by (cases "int2 (bit_slice 8 12 (rev (nat_str 2 (unat eax))))")
      (auto simp: get_processor_model_def assms(1) Let_def)
qed

section \<open>Concrete instances\<close>

text \<open>Milan (family 0x19, model 1), and a processor without an extended family.\<close>

definition milan_cpuid :: cpuid where "milan_cpuid f = Inr [0x00A00F11, 0, 0, 0]"
definition old_cpuid :: cpuid where "old_cpuid f = Inr [0x00000F51, 0, 0, 0]"

theorem processor_model_agrees_witness:
  "\<exists>name series. get_processor_model milan_cpuid = Inr (Some (Codename name series)) \<and> name = ''Milan''"
proof -
  have c: "get_cpuid milan_cpuid 0x80000001 ''eax'' = Inr (Some 0x00A00F11)"
    by (simp add: get_cpuid_def milan_cpuid_def cpu_registers_def)
  have r: "resolve_generation (cpu_family 0x00A00F11) (cpu_model 0x00A00F11) = Inr (''Milan'', Legacy)"
    by (simp add: cpu_family_def cpu_model_def take_bit_eq_mod drop_bit_eq_div resolve_generation_def
        supported_generations_def)
  from processor_model_agrees [OF c] r show ?thesis by auto
qed

theorem short_eax_raises_witness:
  "\<exists>e. get_processor_model old_cpuid = Inl e \<and> class_of e = ValueError"
proof (rule short_eax_raises)
  show "get_cpuid old_cpuid 0x80000001 ''eax'' = Inr (Some 0x00000F51)"
    by (simp add: get_cpuid_def old_cpuid_def cpu_registers_def)
qed simp

end
