(* ===== verification/Profile_Mapping.thy ===== *)
theory Profile_Mapping
  imports Vm_Profile Json
begin

text \<open>
  \<^verbatim>\<open>VMProfile.from_mapping\<close> of \<^verbatim>\<open>sev_verify/vm_profile.py\<close>: a profile from an untyped dictionary. A
  data class does not check types, so the instance it returns is a value per field.
\<close>

text \<open>\<open>PFloat\<close> holds the text of a float.\<close>

datatype pyval = PNone | PBool bool | PInt int | PFloat string | PStr string

definition field_aliases :: "(string \<times> string) list" where
  "field_aliases =
     [(''auth-key-enabled'', ''auth_key_enabled''), (''auth_key_enabled'', ''auth_key_enabled''),
      (''network_enabled'', ''network_enabled''), (''network-enabled'', ''network_enabled''),
      (''vsock-cid'', ''vsock_cid''), (''vsock_cid'', ''vsock_cid''),
      (''vsock-port'', ''vsock_port''), (''vsock_port'', ''vsock_port''),
      (''vsock-use-vhost'', ''vsock_use_vhost''), (''vsock_use_vhost'', ''vsock_use_vhost'')]"

definition underscores :: "string \<Rightarrow> string" where
  "underscores key = map (\<lambda>c. if c = CHR ''-'' then CHR ''_'' else c) key"

definition field_name :: "string \<Rightarrow> string" where
  "field_name key = (case map_of field_aliases key of Some f \<Rightarrow> f | None \<Rightarrow> underscores key)"

definition normalized :: "(string \<times> 'v) list \<Rightarrow> (string \<times> 'v) list" where
  "normalized data = foldl (\<lambda>d (key, v). dict_set (field_name key) v d) [] data"

text \<open>The fields in order, with their defaults; the image path has none.\<close>

definition profile_fields :: "(string \<times> pyval option) list" where
  "profile_fields =
     [(''image_path'', None), (''guest_id'', Some PNone), (''qemu_binary'', Some (PStr default_qemu_binary)),
      (''ovmf_path'', Some PNone), (''memory_mb'', Some (PInt 4096)),
      (''guest_error_log'', Some (PStr ''/tmp/guest-error.log'')),
      (''guest_boot_log'', Some (PStr ''/tmp/guest-boot.log'')),
      (''network_enabled'', Some (PBool True)), (''vsock_cid'', Some (PInt 3)), (''vsock_port'', Some (PInt 5000)),
      (''vsock_use_vhost'', Some (PBool True)), (''vsock_boot_timeout'', Some (PFloat ''180.0'')),
      (''vsock_connect_timeout'', Some (PFloat ''10.0'')), (''vsock_command_timeout'', Some (PFloat ''300.0'')),
      (''vsock_max_response_bytes'', Some (PInt (16 * 1024 * 1024))), (''host_data'', Some PNone),
      (''policy'', Some PNone), (''auth_key_enabled'', Some (PBool False)), (''kernel_hashes'', Some (PBool True)),
      (''id_block'', Some PNone), (''id_auth'', Some PNone), (''cbitpos'', Some (PInt 51)),
      (''reduced_phys_bits'', Some (PInt 1)), (''debug'', Some (PBool False))]"

definition known_fields :: "string list" where "known_fields = map fst profile_fields"

text \<open>\<^verbatim>\<open>cls(**kwargs)\<close>\<close>

definition init_profile :: "(string \<times> pyval) list \<Rightarrow> exc + (string \<times> pyval) list" where
  "init_profile kwargs =
     (if map_of kwargs ''image_path'' = None then
        raise TypeError (''VMProfile.__init__() missing 1 required positional argument: '' @ repr_str ''image_path'')
      else Inr (map (\<lambda>(f, d). (f, case map_of kwargs f of Some v \<Rightarrow> v | None \<Rightarrow> the d)) profile_fields))"

definition from_mapping :: "(string \<times> pyval) list \<Rightarrow> exc + (string \<times> pyval) list" where
  "from_mapping data =
     init_profile (filter (\<lambda>(k, v). List.member known_fields k) (normalized data))"

section \<open>Properties\<close>

text \<open>The instance a typed profile stands for.\<close>

definition optional_value :: "string option \<Rightarrow> pyval" where
  "optional_value v = (case v of None \<Rightarrow> PNone | Some s \<Rightarrow> PStr s)"

definition seconds_value :: "int \<Rightarrow> pyval" where "seconds_value n = PFloat (str_int n @ ''.0'')"

definition profile_values :: "vm_profile \<Rightarrow> (string \<times> pyval) list" where
  "profile_values p =
     [(''image_path'', PStr (vp_image_path p)), (''guest_id'', optional_value (vp_guest_id p)),
      (''qemu_binary'', PStr (vp_qemu_binary p)), (''ovmf_path'', optional_value (vp_ovmf_path p)),
      (''memory_mb'', PInt (vp_memory_mb p)), (''guest_error_log'', PStr (vp_guest_error_log p)),
      (''guest_boot_log'', PStr (vp_guest_boot_log p)), (''network_enabled'', PBool (vp_network_enabled p)),
      (''vsock_cid'', PInt (vp_vsock_cid p)), (''vsock_port'', PInt (vp_vsock_port p)),
      (''vsock_use_vhost'', PBool (vp_vsock_use_vhost p)),
      (''vsock_boot_timeout'', seconds_value (vp_vsock_boot_timeout p)),
      (''vsock_connect_timeout'', seconds_value (vp_vsock_connect_timeout p)),
      (''vsock_command_timeout'', seconds_value (vp_vsock_command_timeout p)),
      (''vsock_max_response_bytes'', PInt (vp_vsock_max_response_bytes p)),
      (''host_data'', optional_value (vp_host_data p)),
      (''policy'', case vp_policy p of None \<Rightarrow> PNone | Some (PolicyInt n) \<Rightarrow> PInt n | Some (PolicyStr s) \<Rightarrow> PStr s),
      (''auth_key_enabled'', PBool (vp_auth_key_enabled p)), (''kernel_hashes'', PBool (vp_kernel_hashes p)),
      (''id_block'', optional_value (vp_id_block p)), (''id_auth'', optional_value (vp_id_auth p)),
      (''cbitpos'', PInt (vp_cbitpos p)), (''reduced_phys_bits'', PInt (vp_reduced_phys_bits p)),
      (''debug'', PBool (vp_debug p))]"

text \<open>Without an alias the dashes of a key become underscores, and the aliases say the same.\<close>

lemma field_name_underscores: "field_name key = underscores key"
proof (cases "map_of field_aliases key")
  case (Some f)
  then have "(key, f) \<in> set field_aliases" by (rule map_of_SomeD)
  then have "f = underscores key" by (auto simp: field_aliases_def underscores_def)
  then show ?thesis using Some by (simp add: field_name_def)
qed (simp add: field_name_def)

text \<open>The value a dictionary gives a field: that of the last key that names it.\<close>

definition given_value :: "(string \<times> 'v) list \<Rightarrow> string \<Rightarrow> 'v option" where
  "given_value data f = map_of (rev (map (\<lambda>(k, v). (underscores k, v)) data)) f"

lemma normalized_lookup: "map_of (normalized data) f = given_value data f"
proof -
  have "map_of (foldl (\<lambda>d (key, v). dict_set (field_name key) v d) d data) f
      = (case given_value data f of Some v \<Rightarrow> Some v | None \<Rightarrow> map_of d f)" for d
    by (induction data arbitrary: d)
      (auto simp: given_value_def map_of_dict_set field_name_underscores map_add_def split: option.splits)
  from this [of "[]"] show ?thesis by (simp add: normalized_def split: option.splits)
qed

lemma map_of_filter_keys: "map_of (filter (\<lambda>(k, v). P k) xs) k = (if P k then map_of xs k else None)"
  by (induction xs) auto

text \<open>
  How a mapping becomes a profile: every field takes the value of the last entry whose key, with
  dashes read as underscores, is its name, and its default when there is none; other keys are
  ignored, and a mapping that names no image path raises \<^verbatim>\<open>TypeError\<close>. A mapping of the image path
  alone gives the profile the constructor gives.
\<close>

theorem from_mapping_fields:
  "from_mapping data =
     (if given_value data ''image_path'' = None
      then raise TypeError (''VMProfile.__init__() missing 1 required positional argument: '' @ repr_str ''image_path'')
      else Inr (map (\<lambda>(f, d). (f, case given_value data f of Some v \<Rightarrow> v | None \<Rightarrow> the d)) profile_fields)) \<and>
   from_mapping [(''image_path'', PStr img)] = Inr (profile_values (mk_profile img))"
proof
  let ?kwargs = "filter (\<lambda>(k, v). List.member known_fields k) (normalized data)"
  have "map_of ?kwargs f = given_value data f" if "(f, d) \<in> set profile_fields" for f d
  proof -
    have "List.member known_fields f" using that by (force simp: known_fields_def)
    then show ?thesis
      using map_of_filter_keys [of "List.member known_fields" "normalized data" f] by (simp add: normalized_lookup)
  qed
  moreover have "(''image_path'', None) \<in> set profile_fields" by (simp add: profile_fields_def)
  ultimately show "from_mapping data =
     (if given_value data ''image_path'' = None
      then raise TypeError (''VMProfile.__init__() missing 1 required positional argument: '' @ repr_str ''image_path'')
      else Inr (map (\<lambda>(f, d). (f, case given_value data f of Some v \<Rightarrow> v | None \<Rightarrow> the d)) profile_fields))"
    unfolding from_mapping_def init_profile_def by (auto intro!: map_cong)
  have "normalized [(''image_path'', PStr img)] = [(''image_path'', PStr img)]"
    by (simp add: normalized_def field_name_underscores underscores_def)
  moreover have "str_int 180 = ''180''" "str_int 10 = ''10''" "str_int 300 = ''300''" by code_simp+
  ultimately show "from_mapping [(''image_path'', PStr img)] = Inr (profile_values (mk_profile img))"
    by (simp add: from_mapping_def init_profile_def known_fields_def profile_fields_def profile_values_def
        mk_profile_def optional_value_def seconds_value_def)
qed

end
