(* ===== verification/Cvm_Props.thy ===== *)
theory Cvm_Props
  imports Test_Runs
begin

text \<open>
  \<^verbatim>\<open>sev_verify/cvm_props.py\<close>: the callables that compute the expected launch measurement and
  generate an ID block. The environment variables, the names of temporary directories and the
  package \<^verbatim>\<open>cryptography\<close>, of which the code uses a fresh P-384 key in PEM form, are the record
  \<open>'e id_tools\<close>. The codec's part of the message about a value that is not ASCII is left out.
\<close>

record 'e id_tools =
  it_environ :: "string \<Rightarrow> string option"
  it_generate_key :: "('e world, bytes) io"
  it_mkdtemp :: "('e world, path) io"

definition measurement_file :: string where "measurement_file = ''guest_measurement.txt''"
definition id_block_file :: string where "id_block_file = ''id-block.b64''"
definition id_auth_file :: string where "id_auth_file = ''id-auth.b64''"

definition default_family_id :: string where "default_family_id = ''sev-certify-fam0''"
definition default_image_id :: string where "default_image_id = ''sev-certify-img0''"
definition default_guest_svn :: string where "default_guest_svn = ''48''"
definition default_policy :: string where "default_policy = ''0xb0000''"

definition measurement_hex_len :: nat where "measurement_hex_len = 96"
definition id_field_size :: nat where "id_field_size = 16"

section \<open>The metadata of the ID block\<close>

record id_block_metadata =
  im_family_id :: string
  im_image_id :: string
  im_guest_svn :: int
  im_policy :: int

text \<open>\<^verbatim>\<open>s.encode("ascii").ljust(ID_FIELD_SIZE, b"\x00")\<close>\<close>

definition id_field_bytes :: "string \<Rightarrow> bytes" where
  "id_field_bytes s = encode s @ replicate (id_field_size - length s) 0"

definition family_id_bytes :: "id_block_metadata \<Rightarrow> bytes" where
  "family_id_bytes m = id_field_bytes (im_family_id m)"

definition image_id_bytes :: "id_block_metadata \<Rightarrow> bytes" where
  "image_id_bytes m = id_field_bytes (im_image_id m)"

definition environ_get :: "'e id_tools \<Rightarrow> string \<Rightarrow> string \<Rightarrow> string" where
  "environ_get tools var fallback = (case it_environ tools var of None \<Rightarrow> fallback | Some v \<Rightarrow> v)"

definition read_id_field :: "'e id_tools \<Rightarrow> string \<Rightarrow> string \<Rightarrow> exc + string" where
  "read_id_field tools var fallback =
     (let v = environ_get tools var fallback in
      if \<not> list_all is_ascii v then
        raise IdBlockMetadataError (var @ '': must be ASCII; '' @ repr_str v @ '' is not'')
      else if length v > id_field_size then
        raise IdBlockMetadataError (var @ '': must be at most '' @ nat_str 10 id_field_size
          @ '' bytes to fit the SNP field; '' @ repr_str v @ '' is '' @ nat_str 10 (length v))
      else Inr v)"

text \<open>\<open>parse\<close> is \<^verbatim>\<open>int(raw, base)\<close>.\<close>

definition read_int ::
  "(string \<Rightarrow> int option) \<Rightarrow> 'e id_tools \<Rightarrow> string \<Rightarrow> string \<Rightarrow> exc + int" where
  "read_int parse tools var fallback =
     (let raw = environ_get tools var fallback in
      case parse raw of
        None \<Rightarrow> raise IdBlockMetadataError (var @ '': expected an integer, got '' @ repr_str raw)
      | Some n \<Rightarrow>
          if n < 0 then raise IdBlockMetadataError (var @ '': must not be negative, got '' @ str_int n)
          else Inr n)"

definition read_id_block_metadata :: "'e id_tools \<Rightarrow> exc + id_block_metadata" where
  "read_id_block_metadata tools =
     rbind (read_id_field tools ''ID_BLOCK_FAMILY_ID'' default_family_id) (\<lambda>family.
     rbind (read_id_field tools ''ID_BLOCK_IMAGE_ID'' default_image_id) (\<lambda>image.
     rbind (read_int py_int tools ''ID_BLOCK_GUEST_SVN'' default_guest_svn) (\<lambda>svn.
     rbind (read_int py_int0 tools ''ID_BLOCK_POLICY'' default_policy) (\<lambda>pol.
       Inr \<lparr>im_family_id = family, im_image_id = image, im_guest_svn = svn, im_policy = pol\<rparr>))))"

section \<open>The measurement\<close>

text \<open>Reading a text file: UTF-8, and every line ending read as LF.\<close>

fun universal_newlines :: "string \<Rightarrow> string" where
  "universal_newlines [] = []"
| "universal_newlines (c # s) =
     (if c = CHR 0x0D then CHR 0x0A # universal_newlines (if take 1 s = [CHR 0x0A] then drop 1 s else s)
      else c # universal_newlines s)"

definition read_text :: "path \<Rightarrow> ('e world, string) io" where
  "read_text p = ibind (read_bytes p) (\<lambda>b. ilift (rbind (decode_strict b) (\<lambda>s. Inr (universal_newlines s))))"

text \<open>The digest without its prefix, checked.\<close>

definition bare_digest :: "string \<Rightarrow> string" where
  "bare_digest raw = (if lower (take 2 raw) = ''0x'' then drop 2 raw else raw)"

definition check_digest :: "string \<Rightarrow> exc + string" where
  "check_digest body =
     (if len_chars body \<noteq> measurement_hex_len then
        raise MeasurementMalformed (measurement_file @ '': expected a '' @ nat_str 10 measurement_hex_len
          @ ''-character hex digest (48 bytes), got '' @ nat_str 10 (len_chars body) @ '' characters'')
      else if \<not> list_all (\<lambda>c. hex_val c \<noteq> None) body then
        raise MeasurementMalformed (measurement_file @ '': contains non-hex characters'')
      else Inr body)"

definition read_measurement :: "path \<Rightarrow> ('e world, string) io" where
  "read_measurement artifact_dir =
     ibind (itry FileNotFoundError
              (ibind (read_text (path_sub artifact_dir measurement_file)) (\<lambda>s. iret (strip s)))
              (\<lambda>_. ithrow (Exc MeasurementMissing (measurement_file @ '' not found''))))
       (\<lambda>raw. ilift (check_digest (bare_digest raw)))"

section \<open>Handlers\<close>

text \<open>A handler may replace the context's profile: it runs on the context and the world.\<close>

definition on_world :: "('e world, 'a) io \<Rightarrow> (ctx \<times> 'e world, 'a) io" where
  [io_defs]: "on_world m = (\<lambda>(c, w). case m w of (r, w') \<Rightarrow> (r, (c, w')))"

definition stateful_handler :: "(ctx \<times> 'e world, handler_result) io \<Rightarrow> 'e attr" where
  "stateful_handler h = Fn (\<lambda>s. case h s of (r, s') \<Rightarrow> (map_sum id HandlerResult r, s'))"

text \<open>\<^verbatim>\<open>subprocess.run(args, ...)\<close> without a timeout\<close>

definition run_untimed :: "'e ops \<Rightarrow> string list \<Rightarrow> ('e world, completed) io" where
  "run_untimed ops args = ext (op_run ops (Argv args) [] None)"

definition tool_failed :: "completed \<Rightarrow> string list \<Rightarrow> handler_result" where
  "tool_failed result args =
     handler_returns (cp_returncode result) (cp_stdout result) (cp_stderr result) (Some (shlex_join args))"

definition measurement_args :: "string \<Rightarrow> ctx \<Rightarrow> string list" where
  "measurement_args ovmf c =
     [''snpguest'', ''generate'', ''measurement'', ''--vcpu-type'', ''EPYC-v4'',
      ''--ovmf'', path_str (path_of ovmf), ''--kernel'', path_str (ctx_guest_path c),
      ''--output-format'', ''hex'',
      ''--measurement-file'', path_str (path_sub (ctx_artifact_dir c) measurement_file)]"

definition profile_ovmf :: "ctx \<Rightarrow> 'e world \<Rightarrow> exc + string" where
  "profile_ovmf c w =
     (case ctx_profile c of
        None \<Rightarrow> raise AttributeError (repr_str ''NoneType'' @ '' object has no attribute ''
                  @ repr_str ''resolved_ovmf_path'')
      | Some p \<Rightarrow> resolved_ovmf_path p w)"

definition calculate_measurement :: "'e ops \<Rightarrow> ctx \<Rightarrow> ('e world, handler_result) io" where
  "calculate_measurement ops c =
     ibind (itry VMProfileError
              (ibind (iask (profile_ovmf c)) (\<lambda>ovmf. iret (Inr ovmf)))
              (\<lambda>e. iret (Inl (handler_returns 1 [] (msg_of e) None))))
       (\<lambda>found. case found of Inl refusal \<Rightarrow> iret refusal | Inr ovmf \<Rightarrow>
     let args = measurement_args ovmf c in
     ibind (run_untimed ops args) (\<lambda>result.
       if cp_returncode result \<noteq> 0 then iret (tool_failed result args)
       else
         ibind (read_text (path_sub (ctx_artifact_dir c) measurement_file)) (\<lambda>s.
           iret (handler_returns 0 (''Measurement: '' @ strip s) [] (Some (shlex_join args))))))"

text \<open>\<^verbatim>\<open>with tempfile.TemporaryDirectory() as tmpdir\<close>: the directory and all below it go in the end.\<close>

definition below_dir :: "path \<Rightarrow> path \<Rightarrow> bool" where
  "below_dir d p = (path_root p = path_root d \<and> take (length (path_parts d)) (path_parts p) = path_parts d)"

definition remove_tree :: "path \<Rightarrow> ('e world, unit) io" where
  "remove_tree d = imodify (\<lambda>w. w\<lparr>w_files := (\<lambda>p. if below_dir d p then None else w_files w p),
     w_dirs := (\<lambda>p. \<not> below_dir d p \<and> w_dirs w p)\<rparr>)"

definition in_temp_dir :: "'e id_tools \<Rightarrow> (path \<Rightarrow> ('e world, 'a) io) \<Rightarrow> ('e world, 'a) io" where
  "in_temp_dir tools f =
     ibind (ext (it_mkdtemp tools)) (\<lambda>tmp.
     iseq (imodify (\<lambda>w. w\<lparr>w_dirs := (w_dirs w)(tmp := True)\<rparr>))
          (ifinally (f tmp) (remove_tree tmp)))"

text \<open>The command of the tool, for a measurement in the form it reads.\<close>

definition snpguest_id_block ::
  "path \<Rightarrow> id_block_metadata \<Rightarrow> string \<Rightarrow> int \<Rightarrow> path \<Rightarrow> path \<Rightarrow> string list" where
  "snpguest_id_block tmp meta measurement pol id_file auth_file =
     [''snpguest'', ''generate'', ''id-block'',
      path_str (path_sub tmp ''id-key.pem''), path_str (path_sub tmp ''auth-key.pem''),
      measurement,
      ''--family-id'', im_family_id meta, ''--image-id'', im_image_id meta,
      ''--svn'', str_int (im_guest_svn meta), ''--policy'', hex_int pol,
      ''--id-file'', path_str id_file, ''--auth-file'', path_str auth_file]"

definition id_block_args :: "path \<Rightarrow> path \<Rightarrow> id_block_metadata \<Rightarrow> string \<Rightarrow> string list" where
  "id_block_args tmp artifact_dir meta measurement =
     snpguest_id_block tmp meta (''0x'' @ measurement) (im_policy meta)
       (path_sub artifact_dir id_block_file) (path_sub artifact_dir id_auth_file)"

text \<open>The tool runs on two fresh keys, written to a directory that is removed afterwards.\<close>

definition run_with_keys ::
  "'e id_tools \<Rightarrow> 'e ops \<Rightarrow> (path \<Rightarrow> string list) \<Rightarrow> ('e world, completed \<times> string list) io" where
  "run_with_keys tools ops command =
     ibind (ext (it_generate_key tools)) (\<lambda>id_key.
     ibind (ext (it_generate_key tools)) (\<lambda>auth_key.
     in_temp_dir tools (\<lambda>tmp.
       iseq (write_bytes (path_sub tmp ''id-key.pem'') id_key)
      (iseq (write_bytes (path_sub tmp ''auth-key.pem'') auth_key)
      (let args = command tmp in
       ibind (run_untimed ops args) (\<lambda>result. iret (result, args)))))))"

definition make_id_block ::
  "'e id_tools \<Rightarrow> 'e ops \<Rightarrow> path \<Rightarrow> id_block_metadata \<Rightarrow> string \<Rightarrow> ('e world, completed \<times> string list) io" where
  "make_id_block tools ops artifact_dir meta measurement =
     run_with_keys tools ops (\<lambda>tmp. id_block_args tmp artifact_dir meta measurement)"

text \<open>The measurement, or the result of the step when there is none to use.\<close>

definition usable_measurement :: "path \<Rightarrow> ('e world, handler_result + string) io" where
  "usable_measurement artifact_dir =
     itry MeasurementMalformed
       (itry MeasurementMissing
         (ibind (read_measurement artifact_dir) (\<lambda>m. iret (Inr m)))
         (\<lambda>e. iret (Inl (handler_returns 0
            (''INFO: '' @ msg_of e @ '' '' @ em_dash @ '' skipping ID block generation'') [] None))))
       (\<lambda>e. iret (Inl (handler_returns 1 [] (msg_of e) None)))"

definition set_id_block :: "string \<Rightarrow> string \<Rightarrow> int \<Rightarrow> (ctx \<times> 'e world, unit) io" where
  "set_id_block id_block id_auth pol = (\<lambda>(c, w).
     case ctx_profile c of
       None \<Rightarrow> (raise TypeError ''replace() should be called on dataclass instances'', (c, w))
     | Some p \<Rightarrow> (Inr (), (c\<lparr>ctx_profile := Some (p\<lparr>vp_id_block := Some id_block,
         vp_id_auth := Some id_auth, vp_policy := Some (PolicyInt pol)\<rparr>)\<rparr>, w)))"

definition id_block_done :: "id_block_metadata \<Rightarrow> string \<Rightarrow> string list \<Rightarrow> handler_result" where
  "id_block_done meta measurement args =
     handler_returns 0
       (''Generated ID block for measurement '' @ take 16 measurement @ ''...'' @ nl
        @ ''  family_id='' @ im_family_id meta @ '' image_id='' @ im_image_id meta
        @ '' svn='' @ str_int (im_guest_svn meta) @ '' policy='' @ hex_int (im_policy meta))
       [] (Some (shlex_join args))"

definition generate_id_block ::
  "'e id_tools \<Rightarrow> 'e ops \<Rightarrow> (ctx \<times> 'e world, handler_result) io" where
  "generate_id_block tools ops =
     ibind (iget fst) (\<lambda>c. let artifact_dir = ctx_artifact_dir c in
     case read_id_block_metadata tools of
       Inl e \<Rightarrow> if is_a e IdBlockMetadataError then iret (handler_returns 1 [] (msg_of e) None) else ithrow e
     | Inr meta \<Rightarrow>
     ibind (on_world (usable_measurement artifact_dir)) (\<lambda>usable.
     case usable of Inl early \<Rightarrow> iret early | Inr measurement \<Rightarrow>
     ibind (on_world (make_id_block tools ops artifact_dir meta measurement)) (\<lambda>(result, args).
     if cp_returncode result \<noteq> 0 then iret (tool_failed result args)
     else
       ibind (on_world (read_text (path_sub artifact_dir id_block_file))) (\<lambda>id_block.
       ibind (on_world (read_text (path_sub artifact_dir id_auth_file))) (\<lambda>id_auth.
       iseq (set_id_block (strip id_block) (strip id_auth) (im_policy meta))
            (iret (id_block_done meta measurement args)))))))"

section \<open>Properties: the metadata\<close>

lemma read_id_field_Inr:
  "read_id_field tools var fallback = Inr v \<longleftrightarrow>
     v = environ_get tools var fallback \<and> list_all is_ascii v \<and> length v \<le> id_field_size"
  by (auto simp: read_id_field_def Let_def)

lemma read_int_Inr:
  "read_int parse tools var fallback = Inr n \<longleftrightarrow> parse (environ_get tools var fallback) = Some n \<and> 0 \<le> n"
  by (auto simp: read_int_def Let_def split: option.splits)

text \<open>
  The metadata that is used is valid: reading it succeeds exactly when both ID fields are
  ASCII of at most 16 bytes and both numbers are non-negative integers, and then the fields of
  the report have exactly 16 bytes and give the text back; every refusal is an
  \<^verbatim>\<open>IdBlockMetadataError\<close>, the class the step turns into a failure.
\<close>

theorem id_block_metadata_valid:
  "(read_id_block_metadata tools = Inr meta \<longleftrightarrow>
      im_family_id meta = environ_get tools ''ID_BLOCK_FAMILY_ID'' default_family_id \<and>
      im_image_id meta = environ_get tools ''ID_BLOCK_IMAGE_ID'' default_image_id \<and>
      py_int (environ_get tools ''ID_BLOCK_GUEST_SVN'' default_guest_svn) = Some (im_guest_svn meta) \<and>
      py_int0 (environ_get tools ''ID_BLOCK_POLICY'' default_policy) = Some (im_policy meta) \<and>
      0 \<le> im_guest_svn meta \<and> 0 \<le> im_policy meta \<and>
      (\<forall>f \<in> {im_family_id meta, im_image_id meta}. list_all is_ascii f \<and> length f \<le> 16)) \<and>
   (read_id_block_metadata tools = Inr meta \<longrightarrow>
      length (family_id_bytes meta) = 16 \<and> length (image_id_bytes meta) = 16 \<and>
      take (length (im_family_id meta)) (family_id_bytes meta) = encode (im_family_id meta) \<and>
      take (length (im_image_id meta)) (image_id_bytes meta) = encode (im_image_id meta)) \<and>
   (\<forall>e. read_id_block_metadata tools = Inl e \<longrightarrow> class_of e = IdBlockMetadataError)"
proof (intro conjI)
  show "read_id_block_metadata tools = Inr meta \<longleftrightarrow>
      im_family_id meta = environ_get tools ''ID_BLOCK_FAMILY_ID'' default_family_id \<and>
      im_image_id meta = environ_get tools ''ID_BLOCK_IMAGE_ID'' default_image_id \<and>
      py_int (environ_get tools ''ID_BLOCK_GUEST_SVN'' default_guest_svn) = Some (im_guest_svn meta) \<and>
      py_int0 (environ_get tools ''ID_BLOCK_POLICY'' default_policy) = Some (im_policy meta) \<and>
      0 \<le> im_guest_svn meta \<and> 0 \<le> im_policy meta \<and>
      (\<forall>f \<in> {im_family_id meta, im_image_id meta}. list_all is_ascii f \<and> length f \<le> 16)"
    by (cases meta) (auto simp: read_id_block_metadata_def rbind_eq_Inr read_id_field_Inr read_int_Inr id_field_size_def)
  then show "read_id_block_metadata tools = Inr meta \<longrightarrow>
      length (family_id_bytes meta) = 16 \<and> length (image_id_bytes meta) = 16 \<and>
      take (length (im_family_id meta)) (family_id_bytes meta) = encode (im_family_id meta) \<and>
      take (length (im_image_id meta)) (image_id_bytes meta) = encode (im_image_id meta)"
    by (auto simp: family_id_bytes_def image_id_bytes_def id_field_bytes_def encode_def id_field_size_def)
  show "\<forall>e. read_id_block_metadata tools = Inl e \<longrightarrow> class_of e = IdBlockMetadataError"
    by (auto simp: read_id_block_metadata_def rbind_eq_Inl read_id_field_def read_int_def Let_def
        split: if_splits option.splits)
qed

section \<open>Properties: the measurement\<close>

lemma hex_val_ascii: "hex_val c \<noteq> None \<Longrightarrow> code_of c < 128"
  by (auto simp: hex_val_def digit_val_def Let_def split: option.splits if_splits)

lemma len_chars_hex: "list_all (\<lambda>c. hex_val c \<noteq> None) s \<Longrightarrow> len_chars s = length s"
  unfolding len_chars_def using hex_val_ascii by (induction s) (auto simp: less_imp_le)

text \<open>
  The measurement is read back as it was meant: whatever the read returns is a digest of 96
  hexadecimal digits, the stripped text of the file without an \<^verbatim>\<open>0x\<close>; and a file that holds
  such a digest, with or without the prefix in either case and surrounded by blanks, gives
  exactly the digest.
\<close>

theorem measurement_read_back:
  fixes w :: "'e world" and d :: path
  defines "file \<equiv> path_sub d measurement_file"
  shows "(\<forall>body w'. read_measurement d w = (Inr body, w') \<longrightarrow>
      w' = w \<and> length body = 96 \<and> list_all (\<lambda>c. hex_val c \<noteq> None) body \<and>
      (\<exists>s. read_text file w = (Inr s, w) \<and> body = bare_digest (strip s))) \<and>
    (\<forall>s body prefix. read_text file w = (Inr s, w) \<longrightarrow> strip s = prefix @ body \<longrightarrow> prefix \<in> {[], ''0x'', ''0X''} \<longrightarrow>
      length body = 96 \<longrightarrow> list_all (\<lambda>c. hex_val c \<noteq> None) body \<longrightarrow> read_measurement d w = (Inr body, w))"
proof (intro conjI allI impI)
  fix body w' assume r: "read_measurement d w = (Inr body, w')"
  have world: "read_text file w = (fst (read_text file w), w)"
    by (simp add: read_text_def ibind_def read_bytes_def split: option.splits)
  obtain s where s: "read_text file w = (Inr s, w)" "check_digest (bare_digest (strip s)) = Inr body" "w' = w"
    using r world unfolding read_measurement_def file_def [symmetric]
    by (cases "fst (read_text file w)") (auto simp: ibind_def itry_def ithrow_def split: if_splits)
  from s(2) have "body = bare_digest (strip s)" "list_all (\<lambda>c. hex_val c \<noteq> None) body" "len_chars body = 96"
    by (auto simp: check_digest_def measurement_hex_len_def split: if_splits)
  with s show "w' = w" "length body = 96" "list_all (\<lambda>c. hex_val c \<noteq> None) body"
    "\<exists>s. read_text file w = (Inr s, w) \<and> body = bare_digest (strip s)"
    by (auto simp: len_chars_hex)
next
  fix s body prefix assume s: "read_text file w = (Inr s, w)" "strip s = prefix @ body" "prefix \<in> {[], ''0x'', ''0X''}"
    and b: "length body = 96" "list_all (\<lambda>c. hex_val c \<noteq> None) body"
  have "lower (take 2 body) \<noteq> ''0x''"
  proof
    assume x: "lower (take 2 body) = ''0x''"
    then obtain c1 c2 rest where body: "body = c1 # c2 # rest" using b(1) by (cases body; cases "tl body") auto
    then have "lower_char c2 = CHR ''x''" using x by (simp add: lower_def)
    then have "of_char (lower_char c2) = (120 :: nat)" by simp
    then have "code_of c2 = 120 \<or> code_of c2 = 88"
      by (auto simp: lower_char_def code_of_def Let_def split: if_splits)
    then have "hex_val c2 = None"
      by (auto simp: hex_val_def digit_val_def Let_def split: option.splits if_splits)
    then show False using b(2) body by simp
  qed
  moreover have "lower ''0x'' = ''0x''" "lower ''0X'' = ''0x''" by code_simp+
  ultimately have "bare_digest (strip s) = body" using s(2,3) by (auto simp: bare_digest_def)
  with s(1) b show "read_measurement d w = (Inr body, w)"
    by (simp add: read_measurement_def file_def [symmetric] ibind_def itry_def check_digest_def
        measurement_hex_len_def len_chars_hex)
qed

section \<open>Properties: the private keys\<close>

definition nothing_below :: "path \<Rightarrow> 'e world \<Rightarrow> bool" where
  "nothing_below d w \<longleftrightarrow> (\<forall>p. below_dir d p \<longrightarrow> w_files w p = None)"

lemma nothing_below_after: "nothing_below d (snd (remove_tree d w))"
  by (simp add: nothing_below_def remove_tree_def)

lemma keeps_on_world: "keeps I m \<Longrightarrow> keeps (\<lambda>(c, w). I w) (on_world m)"
  by (auto simp: keeps_def on_world_def split: prod.splits)

lemma reading_keeps: "keeps I (read_text p)" "keeps I (usable_measurement d)"
proof -
  show r: "keeps I (read_text p)" for p
    unfolding read_text_def by (intro keeps_intro) (simp add: keeps_def read_bytes_def split: option.splits)
  show "keeps I (usable_measurement d)"
    unfolding usable_measurement_def read_measurement_def by (intro keeps_intro r)
qed


section \<open>Properties: the block reaches QEMU\<close>

lemma read_text_same: "read_text p w = (fst (read_text p w), w)"
  by (simp add: read_text_def ibind_def read_bytes_def split: option.splits)

text \<open>The step succeeds without a measurement only when its file is absent.\<close>

lemma early_success:
  assumes "usable_measurement d w = (Inr (Inl early), w)" and "hr_exit_code early = 0"
  shows "w_files w (path_sub d measurement_file) = None"
proof -
  let ?r = "fst (read_text (path_sub d measurement_file) w)"
  have absent: "?r = Inl e \<Longrightarrow> is_a e FileNotFoundError \<Longrightarrow> w_files w (path_sub d measurement_file) = None" for e
    by (auto simp: read_text_def ibind_def read_bytes_def is_a_def rbind_eq_Inl
        dest: decode_strict_error split: option.splits)
  have cls: "class_of e \<in> {OSError, FileNotFoundError, UnicodeDecodeError}" if "?r = Inl e" for e
    using that by (auto simp: read_text_def ibind_def read_bytes_def rbind_eq_Inl
        dest: decode_strict_error split: option.splits if_splits)
  have "\<exists>e. ?r = Inl e \<and> is_a e FileNotFoundError"
  proof (rule ccontr)
    assume n: "\<not> ?thesis"
    have "hr_exit_code early = 1"
      using assms(1) n cls read_text_same [of "path_sub d measurement_file" w]
      by (cases ?r)
        (auto simp: usable_measurement_def read_measurement_def ibind_def itry_def check_digest_def is_a_def
          split: if_splits)
    with assms(2) show False by simp
  qed
  with absent show ?thesis by blast
qed

text \<open>With a measurement, success means that the tool made the block and its two files were read.\<close>

lemma id_block_made:
  assumes "generate_id_block tools ops (c, w) = (Inr hr, (c', w'))" and "hr_exit_code hr = 0"
    and m: "read_id_block_metadata tools = Inr meta"
    and u: "usable_measurement (ctx_artifact_dir c) w = (Inr (Inr measurement), w)"
  obtains a b args v where "read_text (path_sub (ctx_artifact_dir c) id_block_file) v = (Inr a, v)"
    "read_text (path_sub (ctx_artifact_dir c) id_auth_file) v = (Inr b, v)"
    "iseq (set_id_block (strip a) (strip b) (im_policy meta)) (iret (id_block_done meta measurement args)) (c, v)
       = (Inr hr, (c', w'))"
proof -
  let ?d = "ctx_artifact_dir c"
  obtain rs v where made: "make_id_block tools ops ?d meta measurement w = (rs, v)"
    by (cases "make_id_block tools ops ?d meta measurement w")
  obtain result args where rs: "rs = Inr (result, args)"
    using assms(1) m u made
    by (cases rs) (auto simp: generate_id_block_def Let_def ibind_def on_world_def)
  have ok: "cp_returncode result = 0"
    using assms made rs
    by (auto simp: generate_id_block_def Let_def ibind_def on_world_def tool_failed_def split: if_splits)
  show thesis
    using that assms(1) [unfolded generate_id_block_def Let_def] m u made rs ok
      read_text_same [of "path_sub ?d id_block_file" v] read_text_same [of "path_sub ?d id_auth_file" v]
    by (cases "fst (read_text (path_sub ?d id_block_file) v)"; cases "fst (read_text (path_sub ?d id_auth_file) v)")
      (auto simp: ibind_def on_world_def)
qed

text \<open>
  C31: what the step generates is what QEMU is given: when it returns success and there was a
  measurement, the profile differs from the one before in the ID block, the auth block and the
  policy alone; these are the stripped texts of the two files and the policy read from the
  environment, and when neither text is empty all three are in the arguments of QEMU's
  \<^verbatim>\<open>sev-snp-guest\<close> object. Without a measurement file the step succeeds and changes nothing.
\<close>

theorem id_block_reaches_qemu:
  assumes "generate_id_block tools ops (c, w) = (Inr hr, (c', w'))" and "hr_exit_code hr = 0"
  shows "(\<exists>p id_block id_auth meta w1. ctx_profile c = Some p \<and> read_id_block_metadata tools = Inr meta \<and>
       read_text (path_sub (ctx_artifact_dir c) id_block_file) w1 = (Inr id_block, w1) \<and>
       read_text (path_sub (ctx_artifact_dir c) id_auth_file) w1 = (Inr id_auth, w1) \<and> w' = w1 \<and>
       c' = c\<lparr>ctx_profile := Some (p\<lparr>vp_id_block := Some (strip id_block), vp_id_auth := Some (strip id_auth),
              vp_policy := Some (PolicyInt (im_policy meta))\<rparr>)\<rparr> \<and>
       (strip id_block \<noteq> [] \<and> strip id_auth \<noteq> [] \<longrightarrow>
          {''id-block='' @ strip id_block, ''id-auth='' @ strip id_auth, ''policy='' @ hex_int (im_policy meta)}
            \<subseteq> set (sev_parts (the (ctx_profile c'))))) \<or>
    (c' = c \<and> w' = w \<and> w_files w (path_sub (ctx_artifact_dir c) measurement_file) = None)"
proof -
  let ?d = "ctx_artifact_dir c"
  obtain meta where m: "read_id_block_metadata tools = Inr meta"
    using assms by (cases "read_id_block_metadata tools") (auto simp: generate_id_block_def Let_def split: if_splits)
  have use_world: "usable_measurement ?d w = (fst (usable_measurement ?d w), w)"
    using keepsD [OF reading_keeps(2) [of "\<lambda>v. v = w" ?d], of w] by (metis prod.collapse)
  obtain usable where u: "usable_measurement ?d w = (Inr usable, w)"
    using assms(1) use_world m
    by (cases "fst (usable_measurement ?d w)") (auto simp: generate_id_block_def Let_def ibind_def on_world_def)
  show ?thesis
  proof (cases usable)
    case (Inl early)
    then have here: "c' = c" "w' = w" "hr = early"
      using assms(1) m u by (auto simp: generate_id_block_def Let_def ibind_def on_world_def)
    with early_success [of ?d w early] u Inl assms(2) show ?thesis by blast
  next
    case (Inr measurement)
    from id_block_made [OF assms m u [unfolded Inr]] obtain a b args v where
      ab: "read_text (path_sub ?d id_block_file) v = (Inr a, v)" "read_text (path_sub ?d id_auth_file) v = (Inr b, v)"
      and last: "iseq (set_id_block (strip a) (strip b) (im_policy meta)) (iret (id_block_done meta measurement args)) (c, v)
        = (Inr hr, (c', w'))" .
    from last obtain p where p: "ctx_profile c = Some p"
      "c' = c\<lparr>ctx_profile := Some (p\<lparr>vp_id_block := Some (strip a), vp_id_auth := Some (strip b),
              vp_policy := Some (PolicyInt (im_policy meta))\<rparr>)\<rparr>" "w' = v"
      by (auto simp: set_id_block_def iseq_def ibind_def split: option.splits)
    have "strip a \<noteq> [] \<and> strip b \<noteq> [] \<longrightarrow>
        {''id-block='' @ strip a, ''id-auth='' @ strip b, ''policy='' @ hex_int (im_policy meta)}
          \<subseteq> set (sev_parts (the (ctx_profile c')))"
      by (simp add: p sev_parts_def given_def)
    with p ab m show ?thesis by blast
  qed
qed

section \<open>Concrete instances\<close>

definition demo_tools :: "unit id_tools" where
  "demo_tools = \<lparr>it_environ = (\<lambda>_. None), it_generate_key = iret [1, 2],
     it_mkdtemp = iret (Path ''/'' [''tmp'', ''tmpkeys''])\<rparr>"

definition demo_dir :: path where "demo_dir = Path [] [''a'']"

definition demo_digest :: string where "demo_digest = replicate 96 CHR ''A''"

definition id_world :: "unit world" where
  "id_world = (empty_world ())\<lparr>w_files :=
     [Path [] [''a'', ''guest_measurement.txt''] \<mapsto> encode (''0x'' @ demo_digest @ nl),
      Path [] [''a'', ''id-block.b64''] \<mapsto> encode (''QUJD'' @ nl),
      Path [] [''a'', ''id-auth.b64''] \<mapsto> encode (''REVG'' @ nl)]\<rparr>"

definition id_ctx :: ctx where
  "id_ctx =
     \<lparr>ctx_test = demo_test, ctx_guest_path = Path [] [''g.efi''], ctx_step_results = [],
      ctx_artifact_dir = demo_dir, ctx_profile = Some (mk_profile ''g.efi''), ctx_launch = None,
      ctx_cli_qemu_binary = None, ctx_cli_ovmf_path = None, ctx_allow_host_changes = False\<rparr>"

definition demo_meta :: id_block_metadata where
  "demo_meta = \<lparr>im_family_id = default_family_id, im_image_id = default_image_id, im_guest_svn = 48,
     im_policy = 720896\<rparr>"

lemma demo_meta_read: "read_id_block_metadata demo_tools = Inr demo_meta"
proof -
  have "hex_int 720896 = ''0xb0000''" by (simp add: hex_int_def nat_str.simps digit_char_def) code_simp
  then have "py_int0 ''0xb0000'' = Some 720896" by (metis py_int0_hex_int)
  moreover have "py_int ''48'' = Some 48" by code_simp
  moreover have "list_all is_ascii default_family_id \<and> length default_family_id \<le> id_field_size"
    "list_all is_ascii default_image_id \<and> length default_image_id \<le> id_field_size" by code_simp+
  ultimately show ?thesis
    by (simp add: read_id_block_metadata_def read_id_field_def read_int_def environ_get_def demo_tools_def
        demo_meta_def default_guest_svn_def default_policy_def)
qed

theorem id_block_metadata_valid_witness:
  "length (family_id_bytes demo_meta) = 16 \<and> im_policy demo_meta = 0xb0000"
  using id_block_metadata_valid [of demo_tools demo_meta] demo_meta_read by (simp add: demo_meta_def)

lemma demo_paths:
  "path_sub demo_dir measurement_file = Path [] [''a'', ''guest_measurement.txt'']"
  "path_sub demo_dir id_block_file = Path [] [''a'', ''id-block.b64'']"
  "path_sub demo_dir id_auth_file = Path [] [''a'', ''id-auth.b64'']"
  "path_sub (Path ''/'' [''tmp'', ''tmpkeys'']) ''id-key.pem'' = Path ''/'' [''tmp'', ''tmpkeys'', ''id-key.pem'']"
  "path_sub (Path ''/'' [''tmp'', ''tmpkeys'']) ''auth-key.pem'' = Path ''/'' [''tmp'', ''tmpkeys'', ''auth-key.pem'']"
  unfolding demo_dir_def by code_simp+

lemma ascii_text:
  assumes "list_all is_ascii s" and "list_all (\<lambda>c. c \<noteq> CHR 0x0D) s"
  shows "rbind (decode_strict (encode s)) (\<lambda>s. Inr (universal_newlines s)) = Inr s"
proof -
  have "list_all (\<lambda>c. c \<noteq> CHR 0x0D) t \<Longrightarrow> universal_newlines t = t" for t by (induction t) auto
  then show ?thesis using assms by (simp add: decode_strict_ascii)
qed

lemma demo_texts:
  "rbind (decode_strict (encode (''0x'' @ demo_digest @ nl))) (\<lambda>s. Inr (universal_newlines s)) = Inr (''0x'' @ demo_digest @ nl)"
  "rbind (decode_strict (encode (''QUJD'' @ nl))) (\<lambda>s. Inr (universal_newlines s)) = Inr (''QUJD'' @ nl)"
  "rbind (decode_strict (encode (''REVG'' @ nl))) (\<lambda>s. Inr (universal_newlines s)) = Inr (''REVG'' @ nl)"
  "strip (''0x'' @ demo_digest @ nl) = ''0x'' @ demo_digest" "strip (''QUJD'' @ nl) = ''QUJD''"
  "strip (''REVG'' @ nl) = ''REVG''"
proof -
  have "list_all is_ascii (''0x'' @ demo_digest @ nl)" "list_all (\<lambda>c. c \<noteq> CHR 0x0D) (''0x'' @ demo_digest @ nl)"
    by code_simp+
  then show "rbind (decode_strict (encode (''0x'' @ demo_digest @ nl))) (\<lambda>s. Inr (universal_newlines s))
      = Inr (''0x'' @ demo_digest @ nl)"
    by (rule ascii_text)
qed code_simp+

lemma demo_measurement_text: "read_text (path_sub demo_dir measurement_file) id_world = (Inr (''0x'' @ demo_digest @ nl), id_world)"
  using demo_texts(1) by (simp add: read_text_def ibind_def read_bytes_def demo_paths id_world_def)

theorem measurement_read_back_witness:
  "read_measurement demo_dir id_world = (Inr demo_digest, id_world)"
proof -
  have "length demo_digest = 96" "list_all (\<lambda>c. hex_val c \<noteq> None) demo_digest" by code_simp+
  with measurement_read_back [of demo_dir id_world] demo_measurement_text demo_texts(4) show ?thesis by blast
qed

lemma demo_generates:
  "\<exists>hr c' w'. generate_id_block demo_tools idle_ops (id_ctx, id_world) = (Inr hr, (c', w')) \<and> hr_exit_code hr = 0"
proof -
  have d: "ctx_artifact_dir id_ctx = demo_dir" by (simp add: id_ctx_def)
  have "check_digest (bare_digest (''0x'' @ demo_digest)) = Inr demo_digest" by code_simp
  then have u: "usable_measurement demo_dir id_world = (Inr (Inr demo_digest), id_world)"
    using demo_measurement_text demo_texts(4)
    by (simp add: usable_measurement_def read_measurement_def ibind_def itry_def)
  obtain args w1 where made: "make_id_block demo_tools idle_ops demo_dir demo_meta demo_digest id_world
      = (Inr (\<lparr>cp_returncode = 0, cp_stdout = [], cp_stderr = []\<rparr>, args), w1)"
    and files: "w_files w1 (Path [] [''a'', ''id-block.b64'']) = Some (encode (''QUJD'' @ nl))"
      "w_files w1 (Path [] [''a'', ''id-auth.b64'']) = Some (encode (''REVG'' @ nl))"
    by (simp add: make_id_block_def run_with_keys_def in_temp_dir_def demo_tools_def idle_ops_def run_untimed_def ext_def
        ibind_def iseq_def ifinally_def remove_tree_def write_bytes_def open_error_def demo_paths
        path_parent_def below_dir_def id_world_def empty_world_def Let_def)
  have texts: "read_text (path_sub demo_dir id_block_file) w1 = (Inr (''QUJD'' @ nl), w1)"
    "read_text (path_sub demo_dir id_auth_file) w1 = (Inr (''REVG'' @ nl), w1)"
    using demo_texts(2,3) files by (simp_all add: read_text_def ibind_def read_bytes_def demo_paths)
  show ?thesis
    by (simp add: generate_id_block_def ibind_def iseq_def d demo_meta_read on_world_def u made texts
        set_id_block_def id_ctx_def id_block_done_def Let_def)
qed


theorem id_block_reaches_qemu_witness:
  "\<exists>hr c' w'. generate_id_block demo_tools idle_ops (id_ctx, id_world) = (Inr hr, (c', w')) \<and>
     (\<exists>id_block. vp_id_block (the (ctx_profile c')) = Some id_block)"
proof -
  obtain hr c' w' where g: "generate_id_block demo_tools idle_ops (id_ctx, id_world) = (Inr hr, (c', w'))"
    "hr_exit_code hr = 0"
    using demo_generates by blast
  have "w_files id_world (path_sub (ctx_artifact_dir id_ctx) measurement_file) \<noteq> None"
    by (simp add: id_ctx_def demo_paths id_world_def)
  with id_block_reaches_qemu [OF g] have "\<exists>id_block. vp_id_block (the (ctx_profile c')) = Some id_block"
    by auto
  with g show ?thesis by blast
qed

end
