(* ===== verification/Guest_Report.thy ===== *)
theory Guest_Report
  imports Cvm_Props Attestation_Report
begin

text \<open>
  The report a guest made, read by a test: \<^verbatim>\<open>attestation_report.read(ctx.artifact_dir /
  "report.bin", generation=host_generation())\<close>. The host's CPU is read first.
\<close>

definition cpuinfo_path :: path where "cpuinfo_path = Path ''/'' [''proc'', ''cpuinfo'']"
definition report_file :: string where "report_file = ''report.bin''"

definition this_host_generation :: "('e world, generation) io" where
  "this_host_generation = iask (\<lambda>w. host_generation (fst (read_text cpuinfo_path w)))"

definition load_report :: "path \<Rightarrow> ('e world, attestation_report) io" where
  "load_report d =
     ibind this_host_generation (\<lambda>g.
       iask (\<lambda>w. read_report report_file (fst (read_bytes (path_sub d report_file) w)) (Some g)))"

text \<open>The bytes of the file, parsed with the layout of this host.\<close>

definition report_bytes :: "path \<Rightarrow> 'e world \<Rightarrow> bytes \<Rightarrow> attestation_report \<Rightarrow> bool" where
  "report_bytes d w data r \<longleftrightarrow>
     w_files w (path_sub d report_file) = Some data \<and>
     (\<exists>g. host_generation (fst (read_text cpuinfo_path w)) = Inr g \<and> parse_report_bytes data (Some g) = Inr r)"

lemma load_report_Inr:
  "load_report d w = (Inr r, w') \<longleftrightarrow> w' = w \<and> (\<exists>data. report_bytes d w data r)"
  by (auto simp: load_report_def this_host_generation_def report_bytes_def ibind_def read_report_def
      read_bytes_def rbind_eq_Inr catch_def split: sum.splits option.splits if_splits)

lemma load_report_world: "load_report d w = (fst (load_report d w), w)"
  by (simp add: load_report_def this_host_generation_def ibind_def split: sum.splits)

lemma load_report_keeps [keeps_intro]: "keeps I (load_report d)"
  by (metis keeps_def load_report_world snd_conv)

text \<open>The fields of the report, at their offsets in the bytes.\<close>

lemma parsed_fields:
  assumes "parse_report_bytes data g = Inr r"
  shows "length data = report_size"
    "rep_guest_svn r = int (le_nat (subbytes off_guest_svn 4 data))"
    "rep_policy r = int (le_nat (subbytes off_policy 8 data))"
    "rep_family_id r = subbytes off_family_id len_id data"
    "rep_image_id r = subbytes off_image_id len_id data"
    "rep_id_key_digest r = subbytes off_id_key_digest len_digest data"
  using assms
  by (auto simp: parse_report_bytes_def Let_def rbind_eq_Inr unpack_u32_def unpack_u64_def split: if_splits)

section \<open>What the modules share\<close>

text \<open>A value that may be absent, in an f-string.\<close>

definition optional_text :: "('a \<Rightarrow> string) \<Rightarrow> 'a option \<Rightarrow> string" where
  "optional_text f v = (case v of None \<Rightarrow> ''None'' | Some x \<Rightarrow> f x)"

text \<open>The hint of every first launch.\<close>

definition vm_running_hint :: "string \<times> string" where
  "vm_running_hint =
     (''Address already in use'',
      ''A previous VM may still be running. Try: sudo kill $(pgrep -f '' @ [CHR 0x27]
        @ ''qemu.*guest-cid'' @ [CHR 0x27] @ '')'')"

text \<open>A handler that replaces nothing of the context but the profile.\<close>

lemma only_profile_keeps [keeps_intro]:
  "keeps (only_profile c) (on_world m)" "keeps (only_profile c) (set_id_block a b p)"
  by (auto simp: keeps_def only_profile_def on_world_def set_id_block_def split: prod.splits option.splits)

lemma profile_attr_stateful:
  assumes "\<And>c. keeps (only_profile c) h"
  shows "profile_attr (stateful_handler h)"
proof -
  have "only_profile c (snd (h (c, w)))" for c w
    using keepsD [OF assms only_profile_refl] .
  then show ?thesis by (auto simp: profile_attr_def stateful_handler_def split: prod.splits) (metis snd_conv)
qed

section \<open>A report on a machine\<close>

text \<open>A report of a Genoa processor, version 3, with the default fields of the ID block.\<close>

definition demo_raw :: raw_report where
  "demo_raw = sample_raw\<lparr>rr_family_id := encode default_family_id, rr_image_id := encode default_image_id\<rparr>"

definition demo_report :: bytes where "demo_report = render_report demo_raw"

definition demo_cpuinfo :: string where
  "demo_cpuinfo = ''cpu family'' @ [CHR 0x09] @ '': 25'' @ nl @ ''model'' @ [CHR 0x09] @ '': 17'' @ nl"

definition report_world :: "unit world" where
  "report_world = id_world\<lparr>w_files := (w_files id_world)
     (cpuinfo_path \<mapsto> encode demo_cpuinfo, Path [] [''a'', ''report.bin''] \<mapsto> demo_report)\<rparr>"

lemma demo_raw_wf: "wf_raw demo_raw"
  using sample_wf by (simp add: wf_raw_def raw_fields_def raw_widths_def demo_raw_def sample_raw_def encode_def
      default_family_id_def default_image_id_def)

lemma demo_report_facts:
  "length demo_report = report_size" "report_version demo_report = 3"
  "subbytes off_guest_svn 4 demo_report = [48, 0, 0, 0]"
  "subbytes off_policy 8 demo_report = [0, 0, 11, 0, 0, 0, 0, 0]"
  "subbytes off_family_id len_id demo_report = encode default_family_id"
  "subbytes off_image_id len_id demo_report = encode default_image_id"
  "subbytes off_id_key_digest len_digest demo_report = replicate 48 9"
  "subbytes off_launch_tcb 8 demo_report = [4, 0, 0, 0, 0, 0, 27, 25]"
  using length_render [OF demo_raw_wf]
  by (simp_all add: demo_report_def report_version_def unpack_u32_def raw_offsets [OF demo_raw_wf])
    (simp_all add: demo_raw_def sample_raw_def)

text \<open>Any report of that processor in version 3 is parsed.\<close>

definition genoa_raw :: "raw_report \<Rightarrow> bool" where
  "genoa_raw r \<longleftrightarrow> wf_raw r \<and> rr_version r = [3, 0, 0, 0] \<and> rr_cpuid r = [0x19, 0x11, 1]"

lemma demo_raw_genoa: "genoa_raw demo_raw"
  using demo_raw_wf by (simp add: genoa_raw_def demo_raw_def sample_raw_def)

lemma genoa_facts:
  assumes "genoa_raw r"
  shows "length (render_report r) = report_size" "report_version (render_report r) = 3"
    "report_cpuid (render_report r) 3 = Some (0x19, 0x11, 1)"
proof -
  have wf: "wf_raw r" using assms by (simp add: genoa_raw_def)
  show len: "length (render_report r) = report_size" by (rule length_render [OF wf])
  show "report_version (render_report r) = 3"
    using assms by (simp add: report_version_def unpack_u32_def raw_offsets [OF wf] genoa_raw_def)
  have "render_report r ! (off_cpuid_fam + i) = rr_cpuid r ! i" if "i < 3" for i
  proof -
    have "rr_cpuid r = subbytes off_cpuid_fam 3 (render_report r)" by (simp add: raw_offsets [OF wf])
    then show ?thesis using that len by (simp add: subbytes_def report_consts)
  qed
  from this [of 0] this [of 1] this [of 2] show "report_cpuid (render_report r) 3 = Some (0x19, 0x11, 1)"
    using assms by (simp add: report_cpuid_def genoa_raw_def)
qed

lemma genoa_parsed:
  assumes "genoa_raw r"
  shows "\<exists>rep. parse_report_bytes (render_report r) (Some (''Genoa'', Legacy)) = Inr rep"
proof -
  have "resolve_generation 0x19 0x11 = Inr (''Genoa'', Legacy)"
    by (simp add: resolve_generation_Inr supported_generations_def)
  with genoa_facts [OF assms] show ?thesis
    unfolding parse_accepts_iff by (simp add: cpu_consistent_def) (simp add: report_size_def)
qed

lemma demo_generation: "host_generation (Inr demo_cpuinfo) = Inr (''Genoa'', Legacy)"
  by code_simp

lemma genoa_host:
  assumes "w_files w cpuinfo_path = Some (encode demo_cpuinfo)"
  shows "host_generation (fst (read_text cpuinfo_path w)) = Inr (''Genoa'', Legacy)"
proof -
  have "rbind (decode_strict (encode demo_cpuinfo)) (\<lambda>s. Inr (universal_newlines s)) = Inr demo_cpuinfo"
    by (rule ascii_text) code_simp+
  then have "fst (read_text cpuinfo_path w) = Inr demo_cpuinfo"
    using assms by (simp add: read_text_def ibind_def read_bytes_def)
  then show ?thesis by (simp add: demo_generation)
qed

lemma genoa_report_read:
  assumes "genoa_raw r" and "w_files w cpuinfo_path = Some (encode demo_cpuinfo)"
    and "w_files w (path_sub d report_file) = Some (render_report r)"
  shows "\<exists>rep. report_bytes d w (render_report r) rep"
  using genoa_parsed [OF assms(1)] genoa_host [OF assms(2)] assms(3) by (simp add: report_bytes_def)

lemma demo_report_read: "\<exists>r. report_bytes demo_dir report_world demo_report r"
proof -
  have "path_sub demo_dir report_file = Path [] [''a'', ''report.bin'']" unfolding demo_dir_def report_file_def by code_simp
  then show ?thesis
    using genoa_report_read [OF demo_raw_genoa, of report_world demo_dir]
    by (simp add: report_world_def cpuinfo_path_def demo_report_def)
qed

text \<open>Without an OVMF image there is no measurement.\<close>

lemma no_measurement:
  assumes "ctx_profile c = Some p" "vp_ovmf_path p = None" "w_files w = w_files (empty_world ())"
  shows "\<exists>hr. calculate_measurement ops c w = (Inr hr, w) \<and> hr_exit_code hr \<noteq> 0"
proof -
  have "find_ovmf_path w = None"
    using assms(3) by (simp add: find_ovmf_path_def find_ovmf_None is_file_def empty_world_def)
  then have "\<exists>e. resolved_ovmf_path p w = Inl e \<and> is_a e VMProfileError"
    using assms(2) by (auto simp: resolved_ovmf_path_def given_def)
  then show ?thesis
    using assms(1) by (auto simp: calculate_measurement_def profile_ovmf_def ibind_def itry_def)
qed

end
