(* ===== verification/Attestation_Test.thy ===== *)
theory Attestation_Test
  imports Guest_Report
begin

text \<open>
  \<^verbatim>\<open>cert_tests/c3_0/c3_0_0_0/attestation_test.py\<close>: a guest is launched, its report fetched, and
  the certificate chain, the signature, the measurement and the report data are verified by the
  tool on the host.
\<close>

definition request_file :: string where "request_file = ''request.bin''"

definition verify_attestation_args :: "path \<Rightarrow> string \<Rightarrow> bytes \<Rightarrow> string list" where
  "verify_attestation_args d measurement request =
     [''snpguest'', ''verify'', ''attestation'', path_str d, path_str (path_sub d report_file),
      ''--measurement'', ''0x'' @ measurement, ''--report-data'', ''0x'' @ to_hex request]"

definition attestation_result :: "completed \<Rightarrow> string list \<Rightarrow> handler_result" where
  "attestation_result result args =
     (if cp_returncode result \<noteq> 0 then tool_failed result args
      else handler_returns 0 ''Successfully verified report data and measurement'' [] (Some (shlex_join args)))"

definition verify_report_fields :: "'e ops \<Rightarrow> ctx \<Rightarrow> ('e world, handler_result) io" where
  "verify_report_fields ops c =
     (let d = ctx_artifact_dir c in
      or_fail_with MeasurementError (read_measurement d) (\<lambda>measurement.
      ibind (read_bytes (path_sub d request_file)) (\<lambda>request.
      let args = verify_attestation_args d measurement request in
      ibind (run_untimed ops args) (\<lambda>result. iret (attestation_result result args)))))"

definition attestation_plan :: "(exc + base_step) list" where
  "attestation_plan =
     [for_callable ''Calculate measurement'' Setup ''calculate_measurement'' default_expected_result 60,
      with_hint
        (for_vm_launch ''Launch SEV-SNP guest'' Setup default_expected_result 300 ''regular-guest-attestation-test-vm'')
        (fst vm_running_hint) (snd vm_running_hint),
      for_guest ''Get attestation report with snpguest'' Required
        ''snpguest report report.bin request.bin --random'' default_expected_result 300,
      for_guest_pull ''Pull report from guest'' Required ''report.bin'' ''report.bin'' default_expected_result 120,
      for_guest_pull ''Pull request file from guest'' Required ''request.bin'' ''request.bin'' default_expected_result 120,
      for_host ''Fetch certificate chain from kds'' Setup
        ''snpguest fetch ca pem \"$SEV_VERIFY_ARTIFACT_DIR\" -r \"$SEV_VERIFY_ARTIFACT_DIR/report.bin\"''
        default_expected_result 60,
      with_hint
        (for_host ''Fetch VCEK from kds'' Setup
          ''snpguest fetch vcek pem \"$SEV_VERIFY_ARTIFACT_DIR\" \"$SEV_VERIFY_ARTIFACT_DIR/report.bin\"''
          default_expected_result 60)
        ''429'' ''Rate limited by KDS, re-run in a minute'',
      for_host ''Verify certificate chain'' Required
        ''snpguest verify certs \"$SEV_VERIFY_ARTIFACT_DIR\"'' default_expected_result 60,
      for_host ''Verify report signature and TCB values'' Required
        ''snpguest verify attestation \"$SEV_VERIFY_ARTIFACT_DIR\" \"$SEV_VERIFY_ARTIFACT_DIR/report.bin\"''
        default_expected_result 60,
      for_callable ''Verify Request data and Measurement'' Required ''verify_report_fields''
        default_expected_result 30,
      for_vm_stop ''Stop VM'' Info default_expected_result 60]"

definition attestation_steps :: "('e world, base_step list) io" where
  "attestation_steps = ilift (rmap (\<lambda>s. s) attestation_plan)"

definition attestation_profile :: vm_profile where
  "attestation_profile = (mk_profile [])\<lparr>vp_memory_mb := 4096\<rparr>"

definition attestation_handlers :: "'e ops \<Rightarrow> (string \<times> 'e attr) list" where
  "attestation_handlers ops =
     [(''calculate_measurement'', as_handler (calculate_measurement ops)),
      (''verify_report_fields'', as_handler (verify_report_fields ops))]"

definition attestation_mod :: "'e ops \<Rightarrow> 'e test_mod" where
  "attestation_mod ops =
     \<lparr>tm_steps = attestation_steps, tm_vm_profile = iret (Some attestation_profile),
      tm_attrs = attestation_handlers ops\<rparr>"

section \<open>Properties\<close>

lemma attestation_plan_accepted:
  "rmap (\<lambda>s. s) attestation_plan = Inr (map projr attestation_plan)"
  by (rule rmap_id_Inr) (simp add: attestation_plan_def plan_simps)

lemma attestation_loads:
  assumes "import_test_module mods test = Inr (attestation_mod ops)"
  shows "load_test_execution_plan mods test w = (Inr (map projr attestation_plan, Some attestation_profile), w)"
  by (simp add: load_test_execution_plan_def assms attestation_mod_def attestation_steps_def attestation_plan_accepted)

text \<open>What the handler verified: the tool accepted the report for the measurement and the request data on file.\<close>

definition binding_verified :: "'e ops \<Rightarrow> path \<Rightarrow> 'e world \<Rightarrow> 'e world \<Rightarrow> bool" where
  "binding_verified ops d w w' \<longleftrightarrow>
     (\<exists>measurement request result. read_measurement d w = (Inr measurement, w) \<and>
        w_files w (path_sub d request_file) = Some request \<and>
        run_untimed ops (verify_attestation_args d measurement request) w = (Inr result, w') \<and>
        cp_returncode result = 0)"

lemma read_measurement_world: "read_measurement d w = (r, w') \<Longrightarrow> w' = w"
proof -
  have "keeps (\<lambda>v. v = u) (read_measurement d)" for u :: "'a world"
    unfolding read_measurement_def by (intro keeps_intro reading_keeps)
  from keeps_run [OF this] show "read_measurement d w = (r, w') \<Longrightarrow> w' = w" by blast
qed

lemma verify_report_fields_run:
  assumes "verify_report_fields ops c w = (Inr hr, w')"
  defines "d \<equiv> ctx_artifact_dir c"
  shows "(\<exists>e. read_measurement d w = (Inl e, w) \<and> hr = handler_returns 1 [] (msg_of e) None) \<or>
    (\<exists>measurement request result. read_measurement d w = (Inr measurement, w) \<and>
       w_files w (path_sub d request_file) = Some request \<and>
       run_untimed ops (verify_attestation_args d measurement request) w = (Inr result, w') \<and>
       hr = attestation_result result (verify_attestation_args d measurement request))"
proof -
  let ?rest = "\<lambda>measurement. ibind (read_bytes (path_sub d request_file)) (\<lambda>request.
      let args = verify_attestation_args d measurement request in
      ibind (run_untimed ops args) (\<lambda>result. iret (attestation_result result args)))"
  have run: "or_fail_with MeasurementError (read_measurement d) ?rest w = (Inr hr, w')"
    using assms by (simp add: verify_report_fields_def Let_def)
  obtain q where q: "read_measurement d w = (q, w)"
    using read_measurement_world by (metis prod.collapse)
  show ?thesis
  proof (cases q)
    case (Inl e)
    then show ?thesis using run q by (auto simp: or_fail_with_def ibind_def itry_def split: if_splits)
  next
    case (Inr m)
    then have r: "?rest m w = (Inr hr, w')" using run q by (simp add: or_fail_with_run(1))
    then obtain request where f: "w_files w (path_sub d request_file) = Some request"
      and k: "ibind (run_untimed ops (verify_attestation_args d m request))
        (\<lambda>result. iret (attestation_result result (verify_attestation_args d m request))) w = (Inr hr, w')"
      by (cases "w_files w (path_sub d request_file)") (auto simp: ibind_def read_bytes_def Let_def split: if_splits)
    from k obtain result where "run_untimed ops (verify_attestation_args d m request) w = (Inr result, w')"
      "hr = attestation_result result (verify_attestation_args d m request)"
      by (auto simp: ibind_eq_Inr)
    then show ?thesis using q Inr f by blast
  qed
qed

lemma attestation_result_code:
  "hr_exit_code (attestation_result result args) = cp_returncode result"
  by (simp add: attestation_result_def tool_failed_def)

lemma verified_iff:
  "verify_report_fields ops c w = (Inr hr, w') \<Longrightarrow>
     hr_exit_code hr = 0 \<longleftrightarrow> binding_verified ops (ctx_artifact_dir c) w w'"
  by (drule verify_report_fields_run) (auto simp: binding_verified_def attestation_result_code)

text \<open>
  What the last check of the test means: the handler returns success exactly when
  \<^verbatim>\<open>guest_measurement.txt\<close> holds a digest, \<^verbatim>\<open>request.bin\<close> is there, and the tool accepted the report
  for \<^verbatim>\<open>0x\<close> and that digest and for \<^verbatim>\<open>0x\<close> and the hexadecimal text of exactly those bytes; a refusal by
  the tool is returned with the tool's own exit code and output.
\<close>

theorem report_fields_verified_iff:
  assumes "verify_report_fields ops c w = (Inr hr, w')"
  shows "(hr_exit_code hr = 0 \<longleftrightarrow> binding_verified ops (ctx_artifact_dir c) w w') \<and>
    (\<forall>measurement request result. read_measurement (ctx_artifact_dir c) w = (Inr measurement, w) \<longrightarrow>
       w_files w (path_sub (ctx_artifact_dir c) request_file) = Some request \<longrightarrow>
       run_untimed ops (verify_attestation_args (ctx_artifact_dir c) measurement request) w = (Inr result, w') \<longrightarrow>
       cp_returncode result \<noteq> 0 \<longrightarrow>
       hr_exit_code hr = cp_returncode result \<and> hr_stdout hr = cp_stdout result \<and> hr_stderr hr = cp_stderr result)"
  using verified_iff [OF assms] verify_report_fields_run [OF assms]
  by (auto simp: attestation_result_code attestation_result_def tool_failed_def)

lemma attestation_step_passed:
  assumes run: "execute_test ops mods cfg v test w = (Inr tr, w')" and pass: "tr_result tr = Pass"
    and m: "import_test_module mods test = Inr (attestation_mod ops)"
    and s: "s \<in> set (map projr attestation_plan)" "step_type s \<in> {Setup, Required}"
  shows "\<exists>r. sr_step r = s \<and> sr_result r = Pass \<and>
    produced ops (attestation_mod ops) (rc_debug cfg) (rc_guest_path cfg)
      (test_artifact_dir (rc_artifacts_root cfg) v test)
      (\<lambda>c. ctx_artifact_dir c = test_artifact_dir (rc_artifacts_root cfg) v test) r"
proof -
  let ?m = "attestation_mod ops" and ?a = "test_artifact_dir (rc_artifacts_root cfg) v test"
  let ?P = "\<lambda>c. ctx_artifact_dir c = ?a"
  have P: "ctx_kept ?P ?m" by (rule ctx_keptI) (auto simp: attestation_mod_def attestation_handlers_def)
  have init: "?P (es_ctx (initial_state cfg test ?a (Some attestation_profile) w))" by (simp add: initial_state_def)
  from passed_run [where P = ?P, OF run pass m attestation_loads [OF m] P init s] show ?thesis by blast
qed

lemma attestation_hosts_passed:
  assumes run: "execute_test ops mods cfg v test w = (Inr tr, w')" and pass: "tr_result tr = Pass"
    and m: "import_test_module mods test = Inr (attestation_mod ops)"
    and s: "s \<in> set (map projr attestation_plan)" "step_kind s = Host"
  shows "host_command_succeeded ops (rc_guest_path cfg) (test_artifact_dir (rc_artifacts_root cfg) v test) s"
proof -
  have "\<forall>s \<in> set (map projr attestation_plan). step_kind s = Host \<longrightarrow>
      step_type s \<in> {Setup, Required} \<and> step_expected_result s = default_expected_result"
    by (simp add: attestation_plan_def plan_simps)
  with s have t: "step_type s \<in> {Setup, Required}" "step_expected_result s = default_expected_result" by blast+
  from attestation_step_passed [OF run pass m s(1) t(1)] obtain r P where "sr_step r = s" "sr_result r = Pass"
    "produced ops (attestation_mod ops) (rc_debug cfg) (rc_guest_path cfg)
       (test_artifact_dir (rc_artifacts_root cfg) v test) P r" by blast
  with produced_host_passed [of ops "attestation_mod ops" "rc_debug cfg" "rc_guest_path cfg" _ P r] s(2) t(2)
  show ?thesis by simp
qed

lemma attestation_binding_verified:
  assumes run: "execute_test ops mods cfg v test w = (Inr tr, w')" and pass: "tr_result tr = Pass"
    and m: "import_test_module mods test = Inr (attestation_mod ops)"
  shows "\<exists>u u'. binding_verified ops (test_artifact_dir (rc_artifacts_root cfg) v test) u u'"
proof -
  let ?m = "attestation_mod ops" and ?a = "test_artifact_dir (rc_artifacts_root cfg) v test"
  have "\<exists>s \<in> set (map projr attestation_plan). step_kind s = Callable \<and> step_type s = Required \<and>
      step_handler s = ''verify_report_fields'' \<and> step_expected_result s = default_expected_result"
    by (simp add: attestation_plan_def plan_simps)
  then obtain s where s: "s \<in> set (map projr attestation_plan)" "step_kind s = Callable" "step_type s = Required"
    "step_handler s = ''verify_report_fields''" "step_expected_result s = default_expected_result" by blast
  then obtain r where r: "sr_step r = s" "sr_result r = Pass"
    "produced ops ?m (rc_debug cfg) (rc_guest_path cfg) ?a (\<lambda>c. ctx_artifact_dir c = ?a) r"
    using attestation_step_passed [OF run pass m, of s] by auto
  have h: "map_of (tm_attrs ?m) (step_handler (sr_step r)) = Some (as_handler (verify_report_fields ops))"
    by (simp add: r(1) s(4) attestation_mod_def attestation_handlers_def)
  obtain c u hr u' where c: "ctx_artifact_dir c = ?a" "verify_report_fields ops c u = (Inr hr, u')" "hr_exit_code hr = 0"
    using callable_passed [OF _ r(2) h _ r(3)] s r(1) by auto
  then show ?thesis using verified_iff by metis
qed


section \<open>Concrete instances\<close>

definition request_world :: "unit world" where
  "request_world = report_world\<lparr>w_files := (w_files report_world)(Path [] [''a'', ''request.bin''] \<mapsto> [1, 2, 3])\<rparr>"

theorem report_fields_verified_iff_witness:
  "\<exists>hr w'. verify_report_fields idle_ops id_ctx request_world = (Inr hr, w') \<and> hr_exit_code hr = 0"
proof -
  have d: "ctx_artifact_dir id_ctx = demo_dir" by (simp add: id_ctx_def)
  have "read_text (path_sub demo_dir measurement_file) request_world = (Inr (''0x'' @ demo_digest @ nl), request_world)"
    using demo_texts(1) by (simp add: read_text_def ibind_def read_bytes_def demo_paths request_world_def
        report_world_def cpuinfo_path_def id_world_def)
  moreover have "check_digest (bare_digest (''0x'' @ demo_digest)) = Inr demo_digest" by code_simp
  ultimately have m: "read_measurement demo_dir request_world = (Inr demo_digest, request_world)"
    using demo_texts(4) by (simp add: read_measurement_def ibind_def itry_def)
  have p: "path_sub demo_dir request_file = Path [] [''a'', ''request.bin'']"
    unfolding demo_dir_def request_file_def by code_simp
  have f: "w_files request_world (Path [] [''a'', ''request.bin'']) = Some [1, 2, 3]" by (simp add: request_world_def)
  have r: "run_untimed idle_ops args request_world = (Inr \<lparr>cp_returncode = 0, cp_stdout = [], cp_stderr = []\<rparr>, request_world)" for args
    by (simp add: run_untimed_def idle_ops_def ext_def)
  obtain hr where v: "verify_report_fields idle_ops id_ctx request_world = (Inr hr, request_world)"
    by (simp add: verify_report_fields_def d or_fail_with_run(1) [where m = "read_measurement demo_dir", OF m]
        ibind_def read_bytes_def p r f Let_def)
  have "binding_verified idle_ops demo_dir request_world request_world"
    unfolding binding_verified_def using m r f by (auto simp: p)
  with report_fields_verified_iff [OF v] v d show ?thesis by auto
qed


end
