(* ===== verification/Id_Block_Test.thy ===== *)
theory Id_Block_Test
  imports Guest_Report
begin

text \<open>
  \<^verbatim>\<open>cert_tests/c3_0/c3_0_0_1/id_block_test.py\<close>: a guest launched with a valid ID block, whose
  report must show the block's fields, and three launches the platform must refuse.
\<close>

section \<open>The fields of the report\<close>

definition triple_text :: "int \<times> int \<times> int \<Rightarrow> string" where
  "triple_text t = (case t of (a, b, c) \<Rightarrow>
     ''('' @ str_int a @ '', '' @ str_int b @ '', '' @ str_int c @ '')'')"

definition field_errors :: "attestation_report \<Rightarrow> id_block_metadata \<Rightarrow> string list" where
  "field_errors r meta =
     (if rep_guest_svn r \<noteq> im_guest_svn meta
      then [''guest_svn: expected '' @ str_int (im_guest_svn meta) @ '', got '' @ str_int (rep_guest_svn r)]
      else [])
   @ (if rep_policy r \<noteq> im_policy meta
      then [''policy: expected '' @ hex_int (im_policy meta) @ '', got '' @ hex_int (rep_policy r)]
      else [])
   @ (if rep_family_id r \<noteq> family_id_bytes meta
      then [''family_id: expected '' @ to_hex (family_id_bytes meta) @ '', got '' @ to_hex (rep_family_id r)]
      else [])
   @ (if rep_image_id r \<noteq> image_id_bytes meta
      then [''image_id: expected '' @ to_hex (image_id_bytes meta) @ '', got '' @ to_hex (rep_image_id r)]
      else [])
   @ (if \<not> id_block_used r
      then [''id_key_digest is all zero '' @ em_dash @ '' the guest launched without an ID block'']
      else [])"

definition fields_match_text :: "attestation_report \<Rightarrow> id_block_metadata \<Rightarrow> string" where
  "fields_match_text r meta =
     ''All ID block fields match: svn='' @ str_int (im_guest_svn meta)
     @ '' policy='' @ hex_int (im_policy meta) @ '' family_id='' @ repr_str (im_family_id meta)
     @ '' image_id='' @ repr_str (im_image_id meta) @ nl
     @ ''  report v'' @ str_int (rep_version r) @ '' vmpl='' @ str_int (rep_vmpl r)
     @ '' cpuid='' @ optional_text triple_text (rep_cpuid r) @ '' gen='' @ rep_generation r
     @ '' tcb=('' @ optional_text tcb_str (rep_reported_tcb r) @ '')'' @ nl
     @ ''  id_key_digest='' @ take 32 (to_hex (rep_id_key_digest r)) @ ''...''"

definition verify_id_block_fields :: "'e id_tools \<Rightarrow> ctx \<Rightarrow> ('e world, handler_result) io" where
  "verify_id_block_fields tools c =
     or_fail_with ReportError (load_report (ctx_artifact_dir c)) (\<lambda>report.
     or_fail_with IdBlockMetadataError (ilift (read_id_block_metadata tools)) (\<lambda>meta.
       let errors = field_errors report meta in
       if errors \<noteq> [] then iret (handler_returns 1 [] (join nl errors) None)
       else iret (handler_returns 0 (fields_match_text report meta) [] None)))"

section \<open>ID blocks that must be refused\<close>

definition neg_id_block_file :: string where "neg_id_block_file = ''neg-id-block.b64''"
definition neg_id_auth_file :: string where "neg_id_auth_file = ''neg-id-auth.b64''"

definition neg_id_block_args :: "path \<Rightarrow> id_block_metadata \<Rightarrow> string \<Rightarrow> int \<Rightarrow> path \<Rightarrow> string list" where
  "neg_id_block_args d meta measurement pol tmp =
     snpguest_id_block tmp meta measurement pol (path_sub d neg_id_block_file) (path_sub d neg_id_auth_file)"

definition regenerate_id_block ::
  "'e id_tools \<Rightarrow> 'e ops \<Rightarrow> string \<Rightarrow> int \<Rightarrow> (ctx \<times> 'e world, handler_result) io" where
  "regenerate_id_block tools ops measurement pol =
     or_fail_with IdBlockMetadataError (ilift (read_id_block_metadata tools)) (\<lambda>meta.
     ibind (iget (\<lambda>s. ctx_artifact_dir (fst s))) (\<lambda>d.
     ibind (on_world (run_with_keys tools ops (neg_id_block_args d meta measurement pol))) (\<lambda>(result, args).
     if cp_returncode result \<noteq> 0 then
       iret (handler_returns 1 [] (''snpguest generate id-block failed:'' @ nl @ cp_stderr result)
               (Some (shlex_join args)))
     else
       ibind (on_world (read_text (path_sub d neg_id_block_file))) (\<lambda>id_block.
       ibind (on_world (read_text (path_sub d neg_id_auth_file))) (\<lambda>id_auth.
       iseq (set_id_block (strip id_block) (strip id_auth) pol)
            (iret (handler_returns 0 [] [] (Some (shlex_join args)))))))))"

text \<open>The result of a failed regeneration is the handler's.\<close>

definition regenerate_or_fail ::
  "'e id_tools \<Rightarrow> 'e ops \<Rightarrow> string \<Rightarrow> int \<Rightarrow> string \<Rightarrow> (ctx \<times> 'e world, handler_result) io" where
  "regenerate_or_fail tools ops measurement pol out =
     ibind (regenerate_id_block tools ops measurement pol) (\<lambda>hr.
       if hr_exit_code hr \<noteq> 0 then iret hr else iret (handler_returns 0 out [] None))"

definition real_measurement :: "(ctx \<times> 'e world, string) io" where
  "real_measurement = ibind (iget (\<lambda>s. ctx_artifact_dir (fst s))) (\<lambda>d. on_world (read_measurement d))"

definition flip_first_byte :: "string \<Rightarrow> string" where
  "flip_first_byte real = (if lower (take 2 real) \<noteq> ''00'' then ''00'' else ''ff'') @ drop 2 real"

definition set_bad_measurement :: "'e id_tools \<Rightarrow> 'e ops \<Rightarrow> (ctx \<times> 'e world, handler_result) io" where
  "set_bad_measurement tools ops =
     or_fail_with MeasurementError real_measurement (\<lambda>real.
     or_fail_with IdBlockMetadataError (ilift (read_id_block_metadata tools)) (\<lambda>meta.
       let flipped = flip_first_byte real in
       regenerate_or_fail tools ops (''0x'' @ flipped) (im_policy meta)
         (''Set bad measurement: '' @ take 16 flipped @ ''... (real: '' @ take 16 real @ ''...)'')))"

section \<open>Simultaneous multithreading\<close>

definition smt_active_path :: string where "smt_active_path = ''/sys/devices/system/cpu/smt/active''"
definition smt_control_path :: string where "smt_control_path = ''/sys/devices/system/cpu/smt/control''"

definition smt_control_reasons :: "(string \<times> string) list" where
  "smt_control_reasons =
     [(''off'', ''SMT is disabled on this host''),
      (''forceoff'', ''SMT is force-disabled and cannot be re-enabled without a reboot''),
      (''notsupported'', ''this processor does not support SMT''),
      (''notimplemented'', ''this architecture does not implement SMT runtime control'')]"

definition read_sysfs :: "string \<Rightarrow> ('e world, string option) io" where
  "read_sysfs p =
     itry OSError (ibind (read_text (path_of p)) (\<lambda>s. iret (Some (strip s)))) (\<lambda>_. iret None)"

definition smt_reading :: "string option \<Rightarrow> string option \<Rightarrow> bool \<times> string" where
  "smt_reading active control =
     (if active = Some ''1'' then (True, ''SMT is active on this host'')
      else case map_of smt_control_reasons (case control of None \<Rightarrow> [] | Some s \<Rightarrow> s) of
        Some reason \<Rightarrow> (False, reason)
      | None \<Rightarrow>
          if active = None then
            (False, smt_active_path @ '' is not present, so SMT state cannot be determined'')
          else (False, ''SMT is not active on this host''))"

definition host_smt :: "('e world, bool \<times> string) io" where
  "host_smt =
     ibind (read_sysfs smt_active_path) (\<lambda>active.
     ibind (read_sysfs smt_control_path) (\<lambda>control. iret (smt_reading active control)))"

definition smt_case_not_applicable :: "ctx \<Rightarrow> ('e world, handler_result) io" where
  "smt_case_not_applicable c =
     ibind host_smt (\<lambda>(_, reason).
       iret (handler_returns 0 (''SMT policy rejection case not run: '' @ reason) [] None))"

section \<open>Policies that must be refused\<close>

definition without_smt :: "int \<Rightarrow> int" where
  "without_smt pol = pol AND NOT (push_bit 16 1)"

definition with_abi_major_255 :: "int \<Rightarrow> int" where
  "with_abi_major_255 pol = (pol AND NOT 0xFF00) OR push_bit 8 0xFF"

definition set_incompatible_policy :: "'e id_tools \<Rightarrow> 'e ops \<Rightarrow> (ctx \<times> 'e world, handler_result) io" where
  "set_incompatible_policy tools ops =
     ibind (on_world host_smt) (\<lambda>(smt_active, reason).
     if \<not> smt_active then
       iret (handler_returns 1 [] (''Cannot test SMT policy incompatibility: '' @ reason) None)
     else
       or_fail_with MeasurementError real_measurement (\<lambda>measurement.
       or_fail_with IdBlockMetadataError (ilift (read_id_block_metadata tools)) (\<lambda>meta.
         let pol = without_smt (im_policy meta) in
         regenerate_or_fail tools ops (''0x'' @ measurement) pol
           (''Set incompatible policy '' @ hex_int pol @ '' (SMT=0, host SMT active)''))))"

definition set_bad_abi_version :: "'e id_tools \<Rightarrow> 'e ops \<Rightarrow> (ctx \<times> 'e world, handler_result) io" where
  "set_bad_abi_version tools ops =
     or_fail_with MeasurementError real_measurement (\<lambda>measurement.
     or_fail_with IdBlockMetadataError (ilift (read_id_block_metadata tools)) (\<lambda>meta.
       let pol = with_abi_major_255 (im_policy meta) in
       regenerate_or_fail tools ops (''0x'' @ measurement) pol
         (''Set policy '' @ hex_int pol @ '' (ABI_MAJOR=255)'')))"

section \<open>The steps\<close>

definition positive_plan :: "(exc + base_step) list" where
  "positive_plan =
     [for_callable ''Calculate measurement'' Setup ''calculate_measurement'' default_expected_result 60,
      for_callable ''Generate ID block'' Setup ''generate_id_block'' default_expected_result 30,
      with_hint
        (for_vm_launch ''Launch with valid ID block'' Setup default_expected_result 300 ''positive-valid-id-block-vm'')
        (fst vm_running_hint) (snd vm_running_hint),
      for_guest ''Get attestation report'' Required ''snpguest report report.bin request.bin --random''
        default_expected_result 60,
      for_guest_pull ''Pull attestation report'' Required ''report.bin'' ''report.bin'' default_expected_result 120,
      for_vm_stop ''Stop VM'' Info default_expected_result 60,
      for_callable ''Verify ID block fields in report'' Required ''verify_id_block_fields''
        default_expected_result 30]"

definition bad_measurement_plan :: "(exc + base_step) list" where
  "bad_measurement_plan =
     [for_callable ''Set bad measurement in ID block'' Required ''set_bad_measurement'' default_expected_result 30,
      for_vm_launch ''Launch with bad measurement (expect rejection)'' Required
        ''stdout_contains:Bad measurement'' 300 ''negative-bad-measurement-vm'',
      for_vm_stop ''Stop VM (after bad measurement)'' Info default_expected_result 60]"

definition smt_plan :: "bool \<Rightarrow> (exc + base_step) list" where
  "smt_plan smt_active =
     (if smt_active then
        [for_callable ''Set incompatible policy (SMT)'' Required ''set_incompatible_policy''
           default_expected_result 30,
         for_vm_launch ''Launch with SMT-incompatible policy (expect rejection)'' Required
           ''stdout_contains:SNP_LAUNCH_START'' 300 ''negative-smt-policy-vm'',
         for_vm_stop ''Stop VM (after SMT policy)'' Info default_expected_result 60]
      else
        [for_callable ''SMT policy case not applicable'' Info ''smt_case_not_applicable''
           default_expected_result 10])"

definition abi_plan :: "(exc + base_step) list" where
  "abi_plan =
     [for_callable ''Set impossible ABI version'' Required ''set_bad_abi_version'' default_expected_result 30,
      for_vm_launch ''Launch with impossible ABI version (expect rejection)'' Required
        ''stdout_contains:Policy is not allowed'' 300 ''negative-abi-version-vm'',
      for_vm_stop ''Stop VM (after ABI version)'' Info default_expected_result 60]"

definition id_block_plan :: "bool \<Rightarrow> (exc + base_step) list" where
  "id_block_plan smt_active = positive_plan @ bad_measurement_plan @ smt_plan smt_active @ abi_plan"

definition id_block_steps :: "('e world, base_step list) io" where
  "id_block_steps =
     ibind host_smt (\<lambda>(smt_active, _). ilift (rmap (\<lambda>s. s) (id_block_plan smt_active)))"

definition id_block_profile :: vm_profile where
  "id_block_profile = (mk_profile [])\<lparr>vp_memory_mb := 2048\<rparr>"

definition id_block_handlers :: "'e id_tools \<Rightarrow> 'e ops \<Rightarrow> (string \<times> 'e attr) list" where
  "id_block_handlers tools ops =
     [(''calculate_measurement'', as_handler (calculate_measurement ops)),
      (''generate_id_block'', stateful_handler (generate_id_block tools ops)),
      (''verify_id_block_fields'', as_handler (verify_id_block_fields tools)),
      (''set_bad_measurement'', stateful_handler (set_bad_measurement tools ops)),
      (''set_incompatible_policy'', stateful_handler (set_incompatible_policy tools ops)),
      (''smt_case_not_applicable'', as_handler smt_case_not_applicable),
      (''set_bad_abi_version'', stateful_handler (set_bad_abi_version tools ops))]"

definition id_block_mod :: "'e id_tools \<Rightarrow> 'e ops \<Rightarrow> 'e test_mod" where
  "id_block_mod tools ops =
     \<lparr>tm_steps = id_block_steps, tm_vm_profile = iret (Some id_block_profile),
      tm_attrs = id_block_handlers tools ops\<rparr>"

section \<open>Properties: the positive case\<close>

lemma field_errors_none:
  "field_errors r meta = [] \<longleftrightarrow> rep_guest_svn r = im_guest_svn meta \<and> rep_policy r = im_policy meta \<and>
     rep_family_id r = family_id_bytes meta \<and> rep_image_id r = image_id_bytes meta \<and> id_block_used r"
  by (auto simp: field_errors_def)

text \<open>The two ways the check ends: something could not be read, or the fields were compared.\<close>

lemma verify_fields_run:
  assumes "verify_id_block_fields tools c w = (Inr hr, w')"
  shows "w' = w \<and> hr_exit_code hr \<in> {0, 1} \<and>
    (hr_exit_code hr = 0 \<longleftrightarrow> (\<exists>r meta. load_report (ctx_artifact_dir c) w = (Inr r, w) \<and>
       read_id_block_metadata tools = Inr meta \<and> field_errors r meta = []))"
proof -
  let ?d = "ctx_artifact_dir c"
  note run = assms [unfolded verify_id_block_fields_def]
  show ?thesis
  proof (cases "fst (load_report ?d w)")
    case (Inl e)
    then have l: "load_report ?d w = (Inl e, w)" using load_report_world [of ?d w] by simp
    then have "is_a e ReportError" using run by (auto simp: or_fail_with_def ibind_def itry_def split: if_splits)
    with l run show ?thesis by (auto simp: or_fail_with_run(2) [where m = "load_report ?d", OF l])
  next
    case (Inr r)
    then have l: "load_report ?d w = (Inr r, w)" using load_report_world [of ?d w] by simp
    note run' = run [unfolded or_fail_with_run(1) [where m = "load_report ?d", OF l]]
    show ?thesis
    proof (cases "read_id_block_metadata tools")
      case (Inl e)
      then show ?thesis using run' by (auto simp: or_fail_with_def ibind_def itry_def split: if_splits)
    next
      case (Inr meta)
      then have "(Inr hr, w') = (if field_errors r meta \<noteq> []
          then iret (handler_returns 1 [] (join nl (field_errors r meta)) None)
          else iret (handler_returns 0 (fields_match_text r meta) [] None)) w"
        using run' by (simp add: or_fail_with_run(1) Let_def)
      then show ?thesis using Inr l by (auto split: if_splits)
    qed
  qed
qed

text \<open>
  C18: what the positive case checks, on the bytes of the report: the handler returns success
  exactly when the report is one of this host and, at the offsets of the firmware's ABI, its guest
  SVN, policy, family and image are those the ID block was generated from and its ID key digest
  is not all zero. Every other outcome it returns is a failure, and it changes nothing.
\<close>

theorem id_fields_verdict:
  assumes "verify_id_block_fields tools c w = (Inr hr, w')"
  shows "w' = w \<and> hr_exit_code hr \<in> {0, 1} \<and>
    (hr_exit_code hr = 0 \<longleftrightarrow>
      (\<exists>data r meta. report_bytes (ctx_artifact_dir c) w data r \<and> read_id_block_metadata tools = Inr meta \<and>
         int (le_nat (subbytes off_guest_svn 4 data)) = im_guest_svn meta \<and>
         int (le_nat (subbytes off_policy 8 data)) = im_policy meta \<and>
         subbytes off_family_id len_id data = family_id_bytes meta \<and>
         subbytes off_image_id len_id data = image_id_bytes meta \<and>
         (\<exists>b \<in> set (subbytes off_id_key_digest len_digest data). b \<noteq> 0)))"
proof -
  let ?d = "ctx_artifact_dir c"
  have "field_errors r meta = [] \<longleftrightarrow>
      int (le_nat (subbytes off_guest_svn 4 data)) = im_guest_svn meta \<and>
      int (le_nat (subbytes off_policy 8 data)) = im_policy meta \<and>
      subbytes off_family_id len_id data = family_id_bytes meta \<and>
      subbytes off_image_id len_id data = image_id_bytes meta \<and>
      (\<exists>b \<in> set (subbytes off_id_key_digest len_digest data). b \<noteq> 0)"
    if d: "report_bytes ?d w data r" for data r meta
  proof -
    from d obtain g where g: "parse_report_bytes data g = Inr r" by (auto simp: report_bytes_def)
    show ?thesis by (simp add: field_errors_none parsed_fields [OF g] id_block_used_def list_ex_iff)
  qed
  then show ?thesis using verify_fields_run [OF assms] unfolding load_report_Inr by blast
qed

section \<open>Properties: the corruptions\<close>

lemma hex_zero: "hex_val c = Some 0 \<longleftrightarrow> c = CHR ''0''"
proof
  show "hex_val c = Some 0" if "c = CHR ''0''" unfolding that by code_simp
  assume "hex_val c = Some 0"
  then have "code_of c = code_of (CHR ''0'')"
    by (auto simp: hex_val_def digit_val_def Let_def code_of_def split: option.splits if_splits)
  then show "c = CHR ''0''" by (rule code_of_inj)
qed

lemma lower_zero: "lower_char c = CHR ''0'' \<longleftrightarrow> c = CHR ''0''"
proof
  show "lower_char c = CHR ''0''" if "c = CHR ''0''" unfolding that by code_simp
  assume "lower_char c = CHR ''0''"
  then have "code_of (lower_char c) = 48" by (simp add: code_of_def)
  then have "code_of c = code_of (CHR ''0'')"
    by (auto simp: lower_char_def Let_def code_of_def split: if_splits)
  then show "c = CHR ''0''" by (rule code_of_inj)
qed

lemma hex_val_not_space: "hex_val c \<noteq> None \<Longrightarrow> \<not> py_space c"
  by (auto simp: hex_val_def digit_val_def py_space_def Let_def split: option.splits if_splits)

lemma from_hex_digits:
  "even (length s) \<Longrightarrow> list_all (\<lambda>c. hex_val c \<noteq> None) s \<Longrightarrow> \<exists>b. from_hex s = Some b"
  by (induction s rule: from_hex.induct) (auto simp: hex_val_not_space)

lemma hex_val_lt: "hex_val c = Some n \<Longrightarrow> n < 16"
  by (auto simp: hex_val_def split: option.splits if_splits)

lemma flipped_digest:
  assumes "check_digest real = Inr real"
  shows "check_digest (flip_first_byte real) = Inr (flip_first_byte real)"
    "\<exists>b b' rest. from_hex real = Some (b # rest) \<and> from_hex (flip_first_byte real) = Some (b' # rest) \<and> b' \<noteq> b"
proof -
  have real: "length real = 96" "list_all (\<lambda>c. hex_val c \<noteq> None) real"
    using assms by (auto simp: check_digest_def measurement_hex_len_def len_chars_hex split: if_splits)
  obtain c1 c2 ds where d: "real = c1 # c2 # ds" using real(1) by (cases real; cases "tl real") auto
  have flip: "flip_first_byte real = (if c1 = CHR ''0'' \<and> c2 = CHR ''0'' then ''ff'' else ''00'') @ ds"
    by (simp add: flip_first_byte_def d lower_def lower_zero)
  have digits: "hex_val (CHR ''f'') = Some 15" "hex_val (CHR ''0'') = Some 0" by code_simp+
  then have "length (flip_first_byte real) = 96" "list_all (\<lambda>c. hex_val c \<noteq> None) (flip_first_byte real)"
    using real unfolding flip by (simp_all add: d)
  then show "check_digest (flip_first_byte real) = Inr (flip_first_byte real)"
    by (simp add: check_digest_def measurement_hex_len_def len_chars_hex)
  obtain h l where hl: "hex_val c1 = Some h" "hex_val c2 = Some l" using real(2) by (auto simp: d)
  obtain rest where rest: "from_hex ds = Some rest"
    using from_hex_digits [of ds] real by (auto simp: d)
  have n: "\<not> py_space c1" "\<not> py_space (CHR ''f'')" "\<not> py_space (CHR ''0'')"
    using hex_val_not_space hl digits by simp_all
  have b: "from_hex real = Some (word_of_nat (16 * h + l) # rest)" using hl rest n by (simp add: d)
  show "\<exists>b b' rest. from_hex real = Some (b # rest) \<and> from_hex (flip_first_byte real) = Some (b' # rest) \<and> b' \<noteq> b"
  proof (cases "c1 = CHR ''0'' \<and> c2 = CHR ''0''")
    case True
    then have "h = 0" "l = 0" using hl digits by simp_all
    moreover have "from_hex (flip_first_byte real) = Some (255 # rest)"
      using True rest n digits by (simp add: flip)
    ultimately show ?thesis using b by simp
  next
    case False
    have "h \<noteq> 0 \<or> l \<noteq> 0" using False hl hex_zero by metis
    moreover have "16 * h + l < 256" using hex_val_lt [OF hl(1)] hex_val_lt [OF hl(2)] by simp
    ultimately have "(word_of_nat (16 * h + l) :: byte) \<noteq> 0"
      by (simp only: word_of_nat_eq_0_iff) (simp add: nat_dvd_not_less)
    moreover have "from_hex (flip_first_byte real) = Some (0 # rest)"
      using False rest n digits by (auto simp: flip)
    ultimately show ?thesis using b by (auto simp del: of_nat_add of_nat_mult)
  qed
qed

lemma policy_bits:
  "bit (without_smt pol) i = (bit pol i \<and> i \<noteq> 16)"
  "bit (with_abi_major_255 pol) i = (bit pol i \<or> (8 \<le> i \<and> i < 16))"
proof -
  have ff: "(0xFF00 :: int) = push_bit 8 (mask 8)" "(0xFF :: int) = mask 8"
    by (simp_all add: mask_eq_exp_minus_1 push_bit_eq_mult)
  show "bit (without_smt pol) i = (bit pol i \<and> i \<noteq> 16)"
    unfolding without_smt_def bit_and_iff bit_not_iff_eq bit_push_bit_iff bit_1_iff by auto
  show "bit (with_abi_major_255 pol) i = (bit pol i \<or> (8 \<le> i \<and> i < 16))"
    unfolding with_abi_major_255_def ff by (auto simp: bit_simps)
qed

text \<open>
  C26: each corruption changes what it is meant to change and nothing else: the corrupted digest is
  again a digest the tool accepts, and as bytes it differs from the real one in the first byte and
  agrees in all others, for every digest; the incompatible policy differs from the policy in bit
  16 alone, which is cleared; the impossible one has 255 in bits 8 to 15 and the policy's other
  bits; and both are still non-negative.
\<close>

theorem corruptions_are_exact:
  "(\<forall>real. check_digest real = Inr real \<longrightarrow>
      check_digest (flip_first_byte real) = Inr (flip_first_byte real) \<and>
      (\<exists>b b' rest. from_hex real = Some (b # rest) \<and> from_hex (flip_first_byte real) = Some (b' # rest) \<and> b' \<noteq> b)) \<and>
    (\<forall>pol i. bit (without_smt pol) i = (bit pol i \<and> i \<noteq> 16)) \<and>
    (\<forall>pol i. bit (with_abi_major_255 pol) i = (bit pol i \<or> (8 \<le> i \<and> i < 16))) \<and>
    (\<forall>pol \<ge> 0. 0 \<le> without_smt pol \<and> 0 \<le> with_abi_major_255 pol)"
proof (intro conjI allI impI)
  fix pol :: int assume p: "0 \<le> pol"
  show "0 \<le> without_smt pol" unfolding without_smt_def and_nonnegative_int_iff using p by blast
  show "0 \<le> with_abi_major_255 pol"
    unfolding with_abi_major_255_def or_nonnegative_int_iff and_nonnegative_int_iff using p by simp
qed (use flipped_digest in \<open>auto simp: policy_bits\<close>)

section \<open>Properties: what the negative cases launch with\<close>

lemma run_with_keys_Inr:
  assumes "run_with_keys tools ops command w = (Inr (result, args), w')"
  shows "\<exists>tmp w1 w2. args = command tmp \<and> run_untimed ops (command tmp) w1 = (Inr result, w2)"
proof -
  let ?Q = "\<lambda>(result, args). \<exists>tmp w1 w2. args = command tmp \<and> run_untimed ops (command tmp) w1 = (Inr result, w2)"
  have "returns ?Q (ibind (run_untimed ops (command tmp)) (\<lambda>result. iret (result, command tmp)))" for tmp
    by (auto simp: returns_def ibind_eq_Inr)
  then have "returns ?Q (run_with_keys tools ops command)"
    unfolding run_with_keys_def in_temp_dir_def Let_def
    by (blast intro: returns_ibind returns_iseq returns_ifinally)
  from returnsD [OF this assms] show ?thesis by simp
qed

lemma read_text_world: "read_text p w = (r, w') \<Longrightarrow> w' = w"
  using keeps_run [OF reading_keeps(1) [of "\<lambda>v. v = w" p]] by blast

lemma on_world_Inr: "on_world m (c, w) = (Inr x, s) \<longleftrightarrow> (\<exists>w'. s = (c, w') \<and> m w = (Inr x, w'))"
  by (auto simp: on_world_def split: prod.splits)

text \<open>What a regenerated ID block leaves in the context.\<close>

definition regenerated ::
  "'e id_tools \<Rightarrow> 'e ops \<Rightarrow> string \<Rightarrow> int \<Rightarrow> ctx \<Rightarrow> ctx \<Rightarrow> 'e world \<Rightarrow> bool" where
  "regenerated tools ops measurement pol c c' w' \<longleftrightarrow>
     (\<exists>meta p id_block id_auth tmp w1 w2 result. read_id_block_metadata tools = Inr meta \<and>
        ctx_profile c = Some p \<and>
        run_untimed ops (neg_id_block_args (ctx_artifact_dir c) meta measurement pol tmp) w1 = (Inr result, w2) \<and>
        cp_returncode result = 0 \<and>
        read_text (path_sub (ctx_artifact_dir c) neg_id_block_file) w' = (Inr id_block, w') \<and>
        read_text (path_sub (ctx_artifact_dir c) neg_id_auth_file) w' = (Inr id_auth, w') \<and>
        c' = c\<lparr>ctx_profile := Some (p\<lparr>vp_id_block := Some (strip id_block), vp_id_auth := Some (strip id_auth),
          vp_policy := Some (PolicyInt pol)\<rparr>)\<rparr>)"

lemma regenerate_or_fail_ok:
  assumes "regenerate_or_fail tools ops m pol out (c, w) = (Inr hr, (c', w'))" and "hr_exit_code hr = 0"
  shows "regenerated tools ops m pol c c' w'"
proof -
  obtain hr1 s1 where r: "regenerate_id_block tools ops m pol (c, w) = (Inr hr1, s1)"
    and rest: "(if hr_exit_code hr1 \<noteq> 0 then iret hr1 else iret (handler_returns 0 out [] None)) s1 = (Inr hr, (c', w'))"
    using assms(1) by (auto simp: regenerate_or_fail_def ibind_eq_Inr)
  then have 1: "hr_exit_code hr1 = 0" "s1 = (c', w')" using assms(2) by (auto split: if_splits)
  let ?d = "ctx_artifact_dir c"
  obtain meta s2 where m: "ilift (read_id_block_metadata tools) (c, w) = (Inr meta, s2)"
    and run: "(ibind (iget (\<lambda>s. ctx_artifact_dir (fst s))) (\<lambda>d.
     ibind (on_world (run_with_keys tools ops (neg_id_block_args d meta m pol))) (\<lambda>(result, args).
     if cp_returncode result \<noteq> 0 then
       iret (handler_returns 1 [] (''snpguest generate id-block failed:'' @ nl @ cp_stderr result)
               (Some (shlex_join args)))
     else
       ibind (on_world (read_text (path_sub d neg_id_block_file))) (\<lambda>id_block.
       ibind (on_world (read_text (path_sub d neg_id_auth_file))) (\<lambda>id_auth.
       iseq (set_id_block (strip id_block) (strip id_auth) pol)
            (iret (handler_returns 0 [] [] (Some (shlex_join args))))))))) s2 = (Inr hr1, s1)"
    using r 1 unfolding regenerate_id_block_def by (elim or_fail_with_ok) (use 1 in auto)
  from m have meta: "read_id_block_metadata tools = Inr meta" and s2: "s2 = (c, w)" by auto
  obtain result args v where k: "run_with_keys tools ops (neg_id_block_args ?d meta m pol) w = (Inr (result, args), v)"
    and ok: "cp_returncode result = 0"
    and run2: "(ibind (on_world (read_text (path_sub ?d neg_id_block_file))) (\<lambda>id_block.
       ibind (on_world (read_text (path_sub ?d neg_id_auth_file))) (\<lambda>id_auth.
       iseq (set_id_block (strip id_block) (strip id_auth) pol)
            (iret (handler_returns 0 [] [] (Some (shlex_join args))))))) (c, v) = (Inr hr1, (c', w'))"
    using run 1 unfolding s2 by (auto simp: ibind_eq_Inr on_world_Inr split: if_splits)
  obtain id_block id_auth where t: "read_text (path_sub ?d neg_id_block_file) v = (Inr id_block, v)"
    "read_text (path_sub ?d neg_id_auth_file) v = (Inr id_auth, v)"
    and last: "iseq (set_id_block (strip id_block) (strip id_auth) pol)
            (iret (handler_returns 0 [] [] (Some (shlex_join args)))) (c, v) = (Inr hr1, (c', w'))"
    using run2 by (auto simp: ibind_eq_Inr on_world_Inr dest: read_text_world)
  then obtain p where "ctx_profile c = Some p" "c' = c\<lparr>ctx_profile := Some (p\<lparr>vp_id_block := Some (strip id_block),
      vp_id_auth := Some (strip id_auth), vp_policy := Some (PolicyInt pol)\<rparr>)\<rparr>" "w' = v"
    by (auto simp: set_id_block_def iseq_def ibind_def split: option.splits)
  with t meta ok run_with_keys_Inr [OF k] show ?thesis unfolding regenerated_def by blast
qed

lemma real_measurement_Inr:
  "real_measurement (c, w) = (Inr real, s) \<Longrightarrow>
     s = (c, w) \<and> read_measurement (ctx_artifact_dir c) w = (Inr real, w)"
proof -
  have "keeps (\<lambda>v. v = u) (read_measurement d)" for d :: path and u :: "'a world"
    unfolding read_measurement_def by (intro keeps_intro reading_keeps)
  note same = keeps_run [OF this]
  show "real_measurement (c, w) = (Inr real, s) \<Longrightarrow>
     s = (c, w) \<and> read_measurement (ctx_artifact_dir c) w = (Inr real, w)"
    by (auto simp: real_measurement_def on_world_Inr dest: same)
qed

lemma host_smt_world: "host_smt w = (r, w') \<Longrightarrow> w' = w"
proof -
  have "keeps (\<lambda>v. v = u) host_smt" for u :: "'a world"
    unfolding host_smt_def read_sysfs_def by (intro keeps_intro reading_keeps)
  from keeps_run [OF this] show "host_smt w = (r, w') \<Longrightarrow> w' = w" by blast
qed

text \<open>
  What the negative cases launch with: when one of the three handlers reports success, the
  tool was given the digest and the policy of that case, it succeeded, and the profile of the next
  launch has the block and the authentication data the tool wrote and exactly that policy; nothing
  else of the context changed. The SMT case is prepared only on a host whose SMT is active.
\<close>

theorem negative_case_prepared:
  assumes "(handler, digest, pol) \<in>
      {(set_bad_measurement tools ops, flip_first_byte, \<lambda>p. p),
       (set_incompatible_policy tools ops, \<lambda>d. d, without_smt),
       (set_bad_abi_version tools ops, \<lambda>d. d, with_abi_major_255)}"
    and "handler (c, w) = (Inr hr, (c', w'))" and "hr_exit_code hr = 0"
  shows "\<exists>real meta. read_measurement (ctx_artifact_dir c) w = (Inr real, w) \<and>
    read_id_block_metadata tools = Inr meta \<and>
    regenerated tools ops (''0x'' @ digest real) (pol (im_policy meta)) c c' w' \<and>
    (pol = without_smt \<longrightarrow> (\<exists>reason. host_smt w = (Inr (True, reason), w)))"
proof -
  have prepared: "\<exists>real meta. read_measurement (ctx_artifact_dir c) w = (Inr real, w) \<and>
      read_id_block_metadata tools = Inr meta \<and>
      regenerated tools ops (''0x'' @ digest real) (pol (im_policy meta)) c c' w'"
    if "or_fail_with MeasurementError real_measurement (\<lambda>real.
      or_fail_with IdBlockMetadataError (ilift (read_id_block_metadata tools)) (\<lambda>meta.
        regenerate_or_fail tools ops (''0x'' @ digest real) (pol (im_policy meta)) (out real meta))) (c, w)
      = (Inr hr, (c', w'))" for out
    using that assms(3)
    by (elim or_fail_with_ok) (auto dest!: real_measurement_Inr regenerate_or_fail_ok)
  consider "handler = set_bad_measurement tools ops" "digest = flip_first_byte" "pol = (\<lambda>p. p)"
    | "handler = set_incompatible_policy tools ops" "digest = (\<lambda>d. d)" "pol = without_smt"
    | "handler = set_bad_abi_version tools ops" "digest = (\<lambda>d. d)" "pol = with_abi_major_255"
    using assms(1) by blast
  then show ?thesis
  proof cases
    case 1
    have "without_smt 65536 \<noteq> 65536" by (simp add: without_smt_def)
    then have "pol \<noteq> without_smt" using 1(3) by metis
    moreover have "\<exists>real meta. read_measurement (ctx_artifact_dir c) w = (Inr real, w) \<and>
      read_id_block_metadata tools = Inr meta \<and>
      regenerated tools ops (''0x'' @ digest real) (pol (im_policy meta)) c c' w'"
      by (rule prepared) (use assms(2) 1 in \<open>simp add: set_bad_measurement_def Let_def\<close>)
    ultimately show ?thesis by blast
  next
    case 2
    obtain smt reason where s: "host_smt w = (Inr (smt, reason), w)"
      using assms(2) unfolding 2(1) set_incompatible_policy_def
      by (auto simp: ibind_eq_Inr on_world_Inr dest: host_smt_world)
    have "smt" using assms(2,3) unfolding 2(1) set_incompatible_policy_def
      by (auto simp: ibind_eq_Inr on_world_Inr s split: if_splits)
    moreover have "\<exists>real meta. read_measurement (ctx_artifact_dir c) w = (Inr real, w) \<and>
      read_id_block_metadata tools = Inr meta \<and>
      regenerated tools ops (''0x'' @ digest real) (pol (im_policy meta)) c c' w'"
      by (rule prepared) (use assms(2) 2 s \<open>smt\<close> in \<open>simp add: set_incompatible_policy_def Let_def ibind_def on_world_def\<close>)
    ultimately show ?thesis using s by (cases smt) auto
  next
    case 3
    have "with_abi_major_255 0 \<noteq> without_smt 0" by (simp add: with_abi_major_255_def without_smt_def)
    then have "pol \<noteq> without_smt" using 3(3) by metis
    moreover have "\<exists>real meta. read_measurement (ctx_artifact_dir c) w = (Inr real, w) \<and>
      read_id_block_metadata tools = Inr meta \<and>
      regenerated tools ops (''0x'' @ digest real) (pol (im_policy meta)) c c' w'"
      by (rule prepared) (use assms(2) 3 in \<open>simp add: set_bad_abi_version_def Let_def\<close>)
    ultimately show ?thesis by blast
  qed
qed

section \<open>Properties: the steps\<close>

lemma rejection_expectations:
  "expectation_of ''stdout_contains:Bad measurement'' = Some (StdoutContains ''Bad measurement'')"
    "expectation_of ''stdout_contains:SNP_LAUNCH_START'' = Some (StdoutContains ''SNP_LAUNCH_START'')"
    "expectation_of ''stdout_contains:Policy is not allowed'' = Some (StdoutContains ''Policy is not allowed'')"
  by (simp_all add: expectation_of_def partition_at_def)

lemmas id_block_plan_simps = id_block_plan_def positive_plan_def bad_measurement_plan_def smt_plan_def
  abi_plan_def plan_simps rejection_expectations

lemma id_block_plan_accepted:
  "rmap (\<lambda>s. s) (id_block_plan smt) = Inr (map projr (id_block_plan smt))"
  by (rule rmap_id_Inr) (simp add: id_block_plan_simps)

text \<open>The reason each refused launch must show, and the guest of that launch.\<close>

definition rejections :: "bool \<Rightarrow> (string \<times> string) list" where
  "rejections smt =
     [(''negative-bad-measurement-vm'', ''Bad measurement'')]
     @ (if smt then [(''negative-smt-policy-vm'', ''SNP_LAUNCH_START'')] else [])
     @ [(''negative-abi-version-vm'', ''Policy is not allowed'')]"

lemma id_block_plan_facts:
  defines "steps smt \<equiv> map projr (id_block_plan smt)"
  shows "list_all wf_step (steps smt)"
    "list_all (\<lambda>s. step_kind s = Callable \<longrightarrow>
       (\<exists>h. map_of (id_block_handlers tools ops) (step_handler s) = Some (Fn h))) (steps smt)"
    "map (\<lambda>s. (step_guest_id s, step_expected_result s)) (filter (\<lambda>s. step_kind s = VmLaunch) (steps smt))
      = (''positive-valid-id-block-vm'', default_expected_result)
        # map (\<lambda>(g, x). (g, ''stdout_contains:'' @ x)) (rejections smt)"
    "map step_kind (filter (\<lambda>s. step_kind s \<in> {VmLaunch, VmStop}) (steps smt))
      = concat (replicate (Suc (length (rejections smt))) [VmLaunch, VmStop])"
  unfolding steps_def
  by (cases smt; simp add: id_block_plan_simps id_block_handlers_def rejections_def as_handler_def
      stateful_handler_def)+

lemma host_smt_Inr:
  assumes "host_smt w = (Inr (smt, reason), w)"
  shows "smt \<longleftrightarrow> (\<exists>t. read_text (path_of smt_active_path) w = (Inr t, w) \<and> strip t = ''1'')"
proof -
  obtain a w1 b w2 where a: "read_sysfs smt_active_path w = (Inr a, w1)"
    and r: "smt_reading a b = (smt, reason)"
    using assms by (auto simp: host_smt_def ibind_eq_Inr)
  have "a = Some s \<longleftrightarrow> (\<exists>t. read_text (path_of smt_active_path) w = (Inr t, w) \<and> s = strip t)" for s
    using a by (cases "read_text (path_of smt_active_path) w"; cases "fst (read_text (path_of smt_active_path) w)")
      (auto simp: read_sysfs_def itry_def ibind_def dest: read_text_world split: if_splits)
  moreover have "smt \<longleftrightarrow> a = Some ''1''"
    using r by (auto simp: smt_reading_def split: if_splits option.splits)
  ultimately show ?thesis by auto
qed

text \<open>
  The steps follow the host: they are made, all valid and with every handler in the module,
  whenever the two files of \<^verbatim>\<open>sysfs\<close> decode; the launches are the positive one and the rejections, the one
  for SMT among them exactly when \<^verbatim>\<open>smt/active\<close> reads 1; and every launch is followed by a stop
  before the next, so no negative case can be mistaken for a guest that is still running.
\<close>

theorem id_block_steps_follow_smt:
  assumes "id_block_steps w = (Inr steps, w')"
  shows "\<exists>smt reason. host_smt w = (Inr (smt, reason), w) \<and>
    (smt \<longleftrightarrow> (\<exists>t. read_text (path_of smt_active_path) w = (Inr t, w) \<and> strip t = ''1'')) \<and>
    list_all wf_step steps \<and>
    (\<forall>s \<in> set steps. step_kind s = Callable \<longrightarrow>
       (\<exists>h. map_of (id_block_handlers tools ops) (step_handler s) = Some (Fn h))) \<and>
    map (\<lambda>s. (step_guest_id s, step_expected_result s)) (filter (\<lambda>s. step_kind s = VmLaunch) steps)
      = (''positive-valid-id-block-vm'', default_expected_result)
        # map (\<lambda>(g, x). (g, ''stdout_contains:'' @ x)) (rejections smt) \<and>
    map step_kind (filter (\<lambda>s. step_kind s \<in> {VmLaunch, VmStop}) steps)
      = concat (replicate (Suc (length (rejections smt))) [VmLaunch, VmStop])"
proof -
  obtain smt reason where h: "host_smt w = (Inr (smt, reason), w)" and s: "steps = map projr (id_block_plan smt)"
    using assms by (auto simp: id_block_steps_def id_block_plan_accepted ibind_eq_Inr dest: host_smt_world)
  show ?thesis
    using h host_smt_Inr [OF h] id_block_plan_facts(1,3,4) [of smt]
      id_block_plan_facts(2) [where smt = smt and tools = tools and ops = ops] unfolding s
    by (intro exI [of _ smt] exI [of _ reason]) (auto simp: list_all_iff)
qed

section \<open>Properties: what a rejection is\<close>

lemma reasons_not_booted:
  "(g, x) \<in> set (rejections smt) \<Longrightarrow> \<not> contains x booted_message"
  unfolding booted_message_def rejections_def by (auto split: if_splits) code_simp+

lemma rejection_step:
  assumes "(g, x) \<in> set (rejections smt)"
  obtains s where "s \<in> set (map projr (id_block_plan smt))" "step_kind s = VmLaunch" "step_guest_id s = g"
    "step_type s = Required" "expectation_of (step_expected_result s) = Some (StdoutContains x)"
proof -
  have "\<forall>(g, x) \<in> set (rejections smt). \<exists>s \<in> set (map projr (id_block_plan smt)).
      step_kind s = VmLaunch \<and> step_guest_id s = g \<and> step_type s = Required \<and>
      expectation_of (step_expected_result s) = Some (StdoutContains x)"
    by (cases smt; simp add: id_block_plan_simps rejections_def)
  with assms that show ?thesis by blast
qed

lemma rejection_launch:
  assumes "(g, x) \<in> set (rejections smt)" "s \<in> set (map projr (id_block_plan smt))" "step_guest_id s = g"
  shows "step_kind s = VmLaunch" "expectation_of (step_expected_result s) = Some (StdoutContains x)"
proof -
  have "\<forall>(g, x) \<in> set (rejections smt). \<forall>s \<in> set (map projr (id_block_plan smt)).
      step_guest_id s = g \<longrightarrow> step_kind s = VmLaunch \<and>
      expectation_of (step_expected_result s) = Some (StdoutContains x)"
    by (cases smt; simp add: id_block_plan_simps rejections_def)
  with assms show "step_kind s = VmLaunch" "expectation_of (step_expected_result s) = Some (StdoutContains x)"
    by blast+
qed

text \<open>
  C17: what counts as a rejection: the launch step of a negative case passes exactly when the guest
  did not come up and the reason given, by the firmware, by KVM or by QEMU, contains the one the
  case asserts; a guest that boots, one that never answers, and one refused for another reason all
  make the step fail.
\<close>

theorem rejection_needs_its_reason:
  assumes "(g, x) \<in> set (rejections smt)"
    and "s \<in> set (map projr (id_block_plan smt))" "step_guest_id s = g"
    and "run_vm_launch_step ops s p w = (Inr (r, launch), w')"
  shows "sr_result r = Pass \<longleftrightarrow>
    (case fst (vm_launch ops p w) of
       Inl e \<Rightarrow> is_a e VMProfileError \<and> contains x (msg_of e)
     | Inr l \<Rightarrow> \<not> lr_ok l \<and> contains x (lr_message l))"
  using launch_step_rejected [OF assms(4) rejection_launch(2) [OF assms(1-3)] reasons_not_booted [OF assms(1)]]
  by (simp split: sum.splits)

section \<open>Properties: a test that passed\<close>

lemma only_profile_handlers:
  "keeps (only_profile c) (generate_id_block tools ops)"
  "keeps (only_profile c) (set_bad_measurement tools ops)"
  "keeps (only_profile c) (set_incompatible_policy tools ops)"
  "keeps (only_profile c) (set_bad_abi_version tools ops)"
  unfolding generate_id_block_def set_bad_measurement_def set_incompatible_policy_def set_bad_abi_version_def
    regenerate_or_fail_def regenerate_id_block_def real_measurement_def Let_def
  by (intro keeps_intro only_profile_keeps)+

lemma id_block_mod_ctx: "list_all (\<lambda>(name, a). profile_attr a) (tm_attrs (id_block_mod tools ops))"
  by (simp add: id_block_mod_def id_block_handlers_def profile_attr_stateful only_profile_handlers)

lemma verify_fields_world: "verify_id_block_fields tools c w = (r, w') \<Longrightarrow> w' = w"
proof -
  have "keeps (\<lambda>v. v = u) (verify_id_block_fields tools c)" for u :: "'a world"
    unfolding verify_id_block_fields_def Let_def by (intro keeps_intro)
  from keeps_run [OF this] show "verify_id_block_fields tools c w = (r, w') \<Longrightarrow> w' = w" by blast
qed

text \<open>A setup or required step of a test that passed ran, in a context with the test's directory, and passed.\<close>

lemma id_block_step_passed:
  assumes run: "execute_test ops mods cfg v test w = (Inr tr, w')" and pass: "tr_result tr = Pass"
    and m: "import_test_module mods test = Inr (id_block_mod tools ops)"
    and smt: "host_smt (loading_world ops test w) = (Inr (smt, reason), w1)"
    and s: "s \<in> set (map projr (id_block_plan smt))" "step_type s \<in> {Setup, Required}"
  shows "\<exists>r. sr_step r = s \<and> sr_result r = Pass \<and>
    produced ops (id_block_mod tools ops) (rc_debug cfg) (rc_guest_path cfg)
      (test_artifact_dir (rc_artifacts_root cfg) v test)
      (\<lambda>c. ctx_artifact_dir c = test_artifact_dir (rc_artifacts_root cfg) v test) r"
proof -
  let ?m = "id_block_mod tools ops" and ?a = "test_artifact_dir (rc_artifacts_root cfg) v test"
  let ?P = "\<lambda>c. ctx_artifact_dir c = ?a" and ?steps = "map projr (id_block_plan smt)"
  have "id_block_steps (loading_world ops test w) = (Inr ?steps, w1)"
    using smt by (simp add: id_block_steps_def id_block_plan_accepted ibind_def)
  then have load: "load_test_execution_plan mods test (loading_world ops test w) = (Inr (?steps, Some id_block_profile), w1)"
    by (simp add: load_test_execution_plan_def m id_block_mod_def ibind_def)
  have P: "ctx_kept ?P ?m" by (rule ctx_keptI [OF _ _ id_block_mod_ctx]) auto
  have init: "?P (es_ctx (initial_state cfg test ?a (Some id_block_profile) w))" by (simp add: initial_state_def)
  from passed_run [where P = ?P, OF run pass m load P init s] show ?thesis by blast
qed

lemma id_block_rejections:
  assumes run: "execute_test ops mods cfg v test w = (Inr tr, w')" and pass: "tr_result tr = Pass"
    and m: "import_test_module mods test = Inr (id_block_mod tools ops)"
    and smt: "host_smt (loading_world ops test w) = (Inr (smt, reason), w1)"
    and g: "(g, x) \<in> set (rejections smt)"
  shows "refused ops x"
proof -
  obtain s where s: "s \<in> set (map projr (id_block_plan smt))" "step_kind s = VmLaunch" "step_type s = Required"
    "expectation_of (step_expected_result s) = Some (StdoutContains x)"
    by (rule rejection_step [OF g])
  then obtain r P where r: "sr_step r = s" "sr_result r = Pass"
    "produced ops (id_block_mod tools ops) (rc_debug cfg) (rc_guest_path cfg)
       (test_artifact_dir (rc_artifacts_root cfg) v test) P r"
    using id_block_step_passed [OF run pass m smt, of s] by auto
  from produced_launch_refused [OF r(3,2) _ _ reasons_not_booted [OF g]] s r(1) show ?thesis by simp
qed

lemma id_block_fields_verified:
  assumes run: "execute_test ops mods cfg v test w = (Inr tr, w')" and pass: "tr_result tr = Pass"
    and m: "import_test_module mods test = Inr (id_block_mod tools ops)"
    and smt: "host_smt (loading_world ops test w) = (Inr (smt, reason), w1)"
  shows "\<exists>c u hr. ctx_artifact_dir c = test_artifact_dir (rc_artifacts_root cfg) v test \<and>
    verify_id_block_fields tools c u = (Inr hr, u) \<and> hr_exit_code hr = 0"
proof -
  let ?m = "id_block_mod tools ops" and ?a = "test_artifact_dir (rc_artifacts_root cfg) v test"
  have "\<exists>s \<in> set (map projr (id_block_plan smt)). step_type s = Required \<and> step_kind s = Callable \<and>
      step_handler s = ''verify_id_block_fields'' \<and> step_expected_result s = default_expected_result"
    by (cases smt; simp add: id_block_plan_simps)
  then obtain s where s: "s \<in> set (map projr (id_block_plan smt))" "step_type s = Required" "step_kind s = Callable"
    "step_handler s = ''verify_id_block_fields''" "step_expected_result s = default_expected_result" by blast
  then obtain r where r: "sr_step r = s" "sr_result r = Pass"
    "produced ops ?m (rc_debug cfg) (rc_guest_path cfg) ?a (\<lambda>c. ctx_artifact_dir c = ?a) r"
    using id_block_step_passed [OF run pass m smt, of s] by auto
  have h: "map_of (tm_attrs ?m) (step_handler (sr_step r)) = Some (as_handler (verify_id_block_fields tools))"
    by (simp add: r(1) s(4) id_block_mod_def id_block_handlers_def)
  obtain c u hr u' where c: "ctx_artifact_dir c = ?a" "verify_id_block_fields tools c u = (Inr hr, u')" "hr_exit_code hr = 0"
    using callable_passed [OF _ r(2) h _ r(3)] s r(1) by auto
  moreover have "u' = u" using verify_fields_world [OF c(2)] .
  ultimately show ?thesis by blast
qed


text \<open>A test that passed was loaded, so the state of SMT was read.\<close>

lemma id_block_smt_read:
  assumes "execute_test ops mods cfg v test w = (Inr tr, w')" and "tr_result tr = Pass"
    and m: "import_test_module mods test = Inr (id_block_mod tools ops)"
  obtains smt reason w1 where "host_smt (loading_world ops test w) = (Inr (smt, reason), w1)"
proof -
  obtain q w1 where q: "host_smt (loading_world ops test w) = (q, w1)" by (cases "host_smt (loading_world ops test w)")
  show thesis
  proof (cases q)
    case (Inl e)
    then have "load_test_execution_plan mods test (loading_world ops test w) = (Inl e, w1)"
      using q by (simp add: load_test_execution_plan_def m id_block_mod_def id_block_steps_def ibind_def)
    from execute_test_unloaded [OF assms(1) this] assms(2) show ?thesis by simp
  qed (use q that in \<open>cases "projr q"; auto\<close>)
qed

section \<open>Concrete instances\<close>

theorem id_fields_verdict_witness:
  "\<exists>hr. verify_id_block_fields demo_tools id_ctx report_world = (Inr hr, report_world) \<and> hr_exit_code hr = 0"
proof -
  have d: "ctx_artifact_dir id_ctx = demo_dir" by (simp add: id_ctx_def)
  obtain r where r: "report_bytes demo_dir report_world demo_report r" using demo_report_read by blast
  then have l: "load_report demo_dir report_world = (Inr r, report_world)" by (auto simp: load_report_Inr)
  obtain hr w' where v: "verify_id_block_fields demo_tools id_ctx report_world = (Inr hr, w')"
    by (cases "field_errors r demo_meta = []")
      (auto simp: verify_id_block_fields_def d or_fail_with_run(1) [where m = "load_report demo_dir", OF l]
        or_fail_with_run(1) demo_meta_read Let_def)
  have "family_id_bytes demo_meta = encode default_family_id" "image_id_bytes demo_meta = encode default_image_id"
    by (simp_all add: family_id_bytes_def image_id_bytes_def id_field_bytes_def demo_meta_def id_field_size_def
        default_family_id_def default_image_id_def)
  then have "int (le_nat (subbytes off_guest_svn 4 demo_report)) = im_guest_svn demo_meta \<and>
      int (le_nat (subbytes off_policy 8 demo_report)) = im_policy demo_meta \<and>
      subbytes off_family_id len_id demo_report = family_id_bytes demo_meta \<and>
      subbytes off_image_id len_id demo_report = image_id_bytes demo_meta \<and>
      (\<exists>b \<in> set (subbytes off_id_key_digest len_digest demo_report). b \<noteq> 0)"
    unfolding demo_report_facts by (simp add: demo_meta_def)
  then have "hr_exit_code hr = 0" using id_fields_verdict [OF v] r demo_meta_read unfolding d by blast
  with v id_fields_verdict [OF v] show ?thesis by blast
qed

theorem corruptions_are_exact_witness:
  "check_digest (flip_first_byte demo_digest) = Inr (flip_first_byte demo_digest) \<and>
   flip_first_byte demo_digest \<noteq> demo_digest \<and> 0 \<le> without_smt 0xb0000"
proof -
  have "check_digest demo_digest = Inr demo_digest" by code_simp
  note flipped = corruptions_are_exact [THEN conjunct1, rule_format, OF this]
  then obtain b b' rest where "from_hex demo_digest = Some (b # rest)"
    "from_hex (flip_first_byte demo_digest) = Some (b' # rest)" "b' \<noteq> b" by blast
  then have "flip_first_byte demo_digest \<noteq> demo_digest" by force
  moreover have "0 \<le> without_smt 0xb0000"
    using corruptions_are_exact [THEN conjunct2, THEN conjunct2, THEN conjunct2] by simp
  ultimately show ?thesis using flipped by blast
qed

text \<open>The tool succeeds and both its files are there.\<close>

definition neg_world :: "unit world" where
  "neg_world = id_world\<lparr>w_files := (w_files id_world)
     (Path [] [''a'', ''neg-id-block.b64''] \<mapsto> encode (''QUJD'' @ nl),
      Path [] [''a'', ''neg-id-auth.b64''] \<mapsto> encode (''REVG'' @ nl))\<rparr>"

theorem negative_case_prepared_witness:
  "\<exists>hr c' w'. set_bad_abi_version demo_tools idle_ops (id_ctx, neg_world) = (Inr hr, (c', w')) \<and>
     vp_policy (the (ctx_profile c')) = Some (PolicyInt (with_abi_major_255 0xb0000))"
proof -
  have d: "ctx_artifact_dir id_ctx = demo_dir" by (simp add: id_ctx_def)
  have paths: "path_sub demo_dir neg_id_block_file = Path [] [''a'', ''neg-id-block.b64'']"
    "path_sub demo_dir neg_id_auth_file = Path [] [''a'', ''neg-id-auth.b64'']"
    unfolding demo_dir_def neg_id_block_file_def neg_id_auth_file_def by code_simp+
  have "read_text (path_sub demo_dir measurement_file) neg_world = (Inr (''0x'' @ demo_digest @ nl), neg_world)"
    using demo_texts(1) by (simp add: read_text_def ibind_def read_bytes_def demo_paths neg_world_def id_world_def)
  moreover have "check_digest (bare_digest (''0x'' @ demo_digest)) = Inr demo_digest" by code_simp
  ultimately have real: "real_measurement (id_ctx, neg_world) = (Inr demo_digest, (id_ctx, neg_world))"
    using demo_texts(4) by (simp add: real_measurement_def on_world_def read_measurement_def ibind_def itry_def d)
  have prof: "ctx_profile id_ctx = Some (mk_profile ''g.efi'')" and pol: "im_policy demo_meta = 720896"
    by (simp_all add: id_ctx_def demo_meta_def)
  let ?args = "\<lambda>tmp. neg_id_block_args demo_dir demo_meta (''0x'' @ demo_digest) (with_abi_major_255 720896) tmp"
  obtain args w1 where made: "run_with_keys demo_tools idle_ops ?args neg_world
      = (Inr (\<lparr>cp_returncode = 0, cp_stdout = [], cp_stderr = []\<rparr>, args), w1)"
    and files: "w_files w1 (Path [] [''a'', ''neg-id-block.b64'']) = Some (encode (''QUJD'' @ nl))"
      "w_files w1 (Path [] [''a'', ''neg-id-auth.b64'']) = Some (encode (''REVG'' @ nl))"
    by (simp add: run_with_keys_def in_temp_dir_def demo_tools_def idle_ops_def run_untimed_def ext_def
        ibind_def iseq_def ifinally_def remove_tree_def write_bytes_def open_error_def demo_paths
        path_parent_def below_dir_def neg_world_def id_world_def empty_world_def Let_def)
  have texts: "read_text (path_sub demo_dir neg_id_block_file) w1 = (Inr (''QUJD'' @ nl), w1)"
    "read_text (path_sub demo_dir neg_id_auth_file) w1 = (Inr (''REVG'' @ nl), w1)"
    using demo_texts(2,3) files by (simp_all add: read_text_def ibind_def read_bytes_def paths)
  have "\<exists>hr c' w'. set_bad_abi_version demo_tools idle_ops (id_ctx, neg_world) = (Inr hr, (c', w')) \<and> hr_exit_code hr = 0"
    by (simp add: set_bad_abi_version_def or_fail_with_run(1) [where m = real_measurement, OF real]
        or_fail_with_run(1) demo_meta_read regenerate_or_fail_def regenerate_id_block_def ibind_def on_world_def
        d made [folded pol, unfolded append.simps] texts iseq_def set_id_block_def prof Let_def)
  then obtain hr c' w' where h: "set_bad_abi_version demo_tools idle_ops (id_ctx, neg_world) = (Inr hr, (c', w'))"
    "hr_exit_code hr = 0" by blast
  from negative_case_prepared [where handler = "set_bad_abi_version demo_tools idle_ops" and digest = "\<lambda>d. d"
      and pol = with_abi_major_255 and tools = demo_tools and ops = idle_ops, OF _ h]
  have "vp_policy (the (ctx_profile c')) = Some (PolicyInt (with_abi_major_255 720896))"
    by (auto simp: demo_meta_read demo_meta_def regenerated_def)
  with h show ?thesis by auto
qed

theorem id_block_steps_follow_smt_witness:
  "\<exists>steps. id_block_steps (empty_world ()) = (Inr steps, empty_world ()) \<and> list_all wf_step steps"
proof -
  have "read_sysfs p (empty_world ()) = (Inr None, empty_world ())" for p
    by (simp add: read_sysfs_def read_text_def read_bytes_def itry_def ibind_def empty_world_def is_a_def)
  then have "\<exists>steps. id_block_steps (empty_world ()) = (Inr steps, empty_world ())"
    by (simp add: id_block_steps_def host_smt_def ibind_def smt_reading_def smt_control_reasons_def
        id_block_plan_accepted)
  then obtain steps where s: "id_block_steps (empty_world ()) = (Inr steps, empty_world ())" by blast
  from id_block_steps_follow_smt [OF s, of demo_tools idle_ops] s show ?thesis by blast
qed

theorem rejection_needs_its_reason_witness:
  "\<exists>s r. s \<in> set (map projr (id_block_plan False)) \<and>
     run_vm_launch_step idle_ops s (mk_profile ''Bad measurement'') (empty_world ()) = (Inr (r, None), empty_world ()) \<and>
     sr_result r = Pass"
proof -
  let ?x = "''Bad measurement''" and ?m = "''Guest image not found: Bad measurement''"
  have g: "(''negative-bad-measurement-vm'', ?x) \<in> set (rejections False)" by (simp add: rejections_def)
  obtain s where s: "s \<in> set (map projr (id_block_plan False))" "step_guest_id s = ''negative-bad-measurement-vm''"
    "wf_step s"
  proof -
    have "\<exists>s \<in> set (map projr (id_block_plan False)). step_guest_id s = ''negative-bad-measurement-vm'' \<and> wf_step s"
      by (simp add: id_block_plan_simps)
    then show thesis using that by blast
  qed
  have v: "vp_validate (mk_profile ?x) (empty_world ()) = Inl (Exc VMProfileError ?m)"
    by (simp add: vp_validate_def mk_profile_def empty_world_def is_file_def guard_not_def)
  have l: "vm_launch idle_ops (mk_profile ?x) (empty_world ()) = (Inl (Exc VMProfileError ?m), empty_world ())"
    by (rule vm_launch_invalid [OF v])
  obtain b where "check_expected_values s 1 ?m = Inr b" using check_expected_wf [OF s(3)] by blast
  then obtain r where r: "run_vm_launch_step idle_ops s (mk_profile ?x) (empty_world ()) = (Inr (r, None), empty_world ())"
    using l by (auto simp: run_vm_launch_step_def now_def elapsed_ms_def Let_def ibind_def itry_def)
  have "contains ?x ?m" by code_simp
  then have "sr_result r = Pass"
    using rejection_needs_its_reason [OF g s(1,2) r] l by simp
  with s(1) r show ?thesis by blast
qed


end
