(* ===== verification/Key_Derivation.thy ===== *)
theory Key_Derivation
  imports Guest_Report
begin

text \<open>
  \<^verbatim>\<open>cert_tests/c3_0/c3_0_0_1/key_derivation_test.py\<close>: keys are derived on the guest by
  \<^verbatim>\<open>snpguest key\<close> over the command channel, under the bounds the attestation report carries.
\<close>

section \<open>Loops\<close>

text \<open>\<^verbatim>\<open>[f(x) for x in xs]\<close> with effects\<close>

fun imap :: "('a \<Rightarrow> ('s, 'b) io) \<Rightarrow> 'a list \<Rightarrow> ('s, 'b list) io" where
  "imap f [] = iret []"
| "imap f (x # xs) = ibind (f x) (\<lambda>y. ibind (imap f xs) (\<lambda>ys. iret (y # ys)))"

section \<open>Keys\<close>

definition vmpl_file :: string where "vmpl_file = ''vmpl''"

definition current_vmpl :: "ctx \<Rightarrow> ('e world, int) io" where
  "current_vmpl c =
     ibind (read_text (path_sub (ctx_artifact_dir c) vmpl_file)) (\<lambda>s. ilift (int_or_raise s))"

record key_request =
  kq_root :: string
  kq_vmpl :: "int option"
  kq_svn :: int
  kq_tcb :: int
  kq_gfs :: int

text \<open>The defaults of \<^verbatim>\<open>_derive_key\<close>\<close>

definition key_defaults :: key_request where
  "key_defaults = \<lparr>kq_root = ''vcek'', kq_vmpl = None, kq_svn = 0, kq_tcb = 0, kq_gfs = 1\<rparr>"

definition key_command :: "string \<Rightarrow> key_request \<Rightarrow> int \<Rightarrow> string" where
  "key_command filename q vmpl =
     ''snpguest key '' @ filename @ '' '' @ kq_root q @ '' --vmpl '' @ str_int vmpl
     @ '' --guest_svn '' @ str_int (kq_svn q) @ '' --tcb_version '' @ str_int (kq_tcb q)
     @ '' --guest_field_select '' @ str_int (kq_gfs q)"

definition with_profile :: "ctx \<Rightarrow> (vm_profile \<Rightarrow> ('e world, 'a) io) \<Rightarrow> ('e world, 'a) io" where
  "with_profile c f =
     (case ctx_profile c of
        None \<Rightarrow> ithrow (Exc AttributeError (repr_str ''NoneType'' @ '' object has no attribute ''
                  @ repr_str ''vsock_cid''))
      | Some p \<Rightarrow> f p)"

definition rejection_message :: "guest_result \<Rightarrow> string" where
  "rejection_message r =
     (if strip (gcr_stderr r) \<noteq> [] then strip (gcr_stderr r) else strip (gcr_stdout r))"

text \<open>\<open>None\<close> is the success, \<^verbatim>\<open>(True, "")\<close>; \<open>Some message\<close> is \<^verbatim>\<open>(False, message)\<close>.\<close>

definition derive_key :: "'e ops \<Rightarrow> ctx \<Rightarrow> string \<Rightarrow> key_request \<Rightarrow> ('e world, string option) io" where
  "derive_key ops c filename q =
     ibind (case kq_vmpl q of None \<Rightarrow> current_vmpl c | Some v \<Rightarrow> iret v) (\<lambda>vmpl.
     with_profile c (\<lambda>p.
     ibind (run_guest_command ops p (key_command filename q vmpl) (Some 30) False) (\<lambda>r.
       if gcr_exit_code r \<noteq> 0 then iret (Some (rejection_message r))
       else
         ibind (fetch_guest_file_bytes ops p filename (Some 30)) (\<lambda>data.
         iseq (write_bytes (path_sub (ctx_artifact_dir c) filename) data) (iret None)))))"

definition reason :: "string \<Rightarrow> string" where
  "reason err = (if err \<noteq> [] then hd (splitlines err) else ''no message'')"

definition sweep_values :: "int \<Rightarrow> int list" where
  "sweep_values max_val =
     (if max_val < 16 then [0..max_val]
      else let mid = max_val div 2 in
        sort (remdups [0, 1, 2, mid - 1, mid, mid + 1, max_val - 2, max_val - 1, max_val]))"

definition read_key :: "ctx \<Rightarrow> string \<Rightarrow> ('e world, bytes) io" where
  "read_key c filename = read_bytes (path_sub (ctx_artifact_dir c) filename)"

section \<open>The report and the privilege level\<close>

definition parse_report_handler :: "ctx \<Rightarrow> ('e world, handler_result) io" where
  "parse_report_handler c =
     or_fail_with ReportError (load_report (ctx_artifact_dir c)) (\<lambda>r.
       iret (handler_returns 0
         (''Report version: '' @ str_int (rep_version r) @ '', Guest SVN: '' @ str_int (rep_guest_svn r) @ nl
          @ ''Generation: '' @ rep_generation r @ nl
          @ ''Launch TCB: '' @ optional_text tcb_str (rep_launch_tcb r) @ nl
          @ ''Reported TCB: '' @ optional_text tcb_str (rep_reported_tcb r)) [] None))"

definition vmpl_probe_file :: "int \<Rightarrow> string" where
  "vmpl_probe_file v = ''vmpl_probe_'' @ str_int v @ ''.bin''"

text \<open>The loop of \<^verbatim>\<open>detect_vmpl\<close> over the levels that are left, with the errors so far.\<close>

fun detect_from :: "'e ops \<Rightarrow> ctx \<Rightarrow> string list \<Rightarrow> int list \<Rightarrow> ('e world, handler_result) io" where
  "detect_from ops c errors [] =
     iret (handler_returns 1 []
       (''No VMPL 0-3 accepted for key derivation:'' @ nl @ join nl errors) None)"
| "detect_from ops c errors (v # vs) =
     ibind (derive_key ops c (vmpl_probe_file v) (key_defaults\<lparr>kq_vmpl := Some v\<rparr>)) (\<lambda>refusal.
       case refusal of
         None \<Rightarrow> iseq (write_bytes (path_sub (ctx_artifact_dir c) vmpl_file) (encode (str_int v)))
                      (iret (handler_returns 0 (''Running VMPL: '' @ str_int v) [] None))
       | Some err \<Rightarrow> detect_from ops c (errors @ [''VMPL'' @ str_int v @ '': '' @ err]) vs)"

definition detect_vmpl :: "'e ops \<Rightarrow> ctx \<Rightarrow> ('e world, handler_result) io" where
  "detect_vmpl ops c = detect_from ops c [] [0, 1, 2, 3]"

section \<open>Comparisons of two keys\<close>

text \<open>\<^verbatim>\<open>err1 or err2\<close> of two outcomes\<close>

definition first_refusal :: "string option \<Rightarrow> string option \<Rightarrow> string" where
  "first_refusal a b =
     (let text = (\<lambda>x. case x of None \<Rightarrow> [] | Some e \<Rightarrow> e) in if text a \<noteq> [] then text a else text b)"

text \<open>
  Two keys are derived, both must be accepted, and their bytes are compared. \<open>same\<close> tells which
  outcome of the comparison is the success.
\<close>

definition compare_keys ::
  "'e ops \<Rightarrow> ctx \<Rightarrow> string \<Rightarrow> key_request \<Rightarrow> string \<Rightarrow> key_request \<Rightarrow> bool \<Rightarrow> string \<Rightarrow> string
     \<Rightarrow> ('e world, handler_result) io" where
  "compare_keys ops c f1 q1 f2 q2 same good bad =
     ibind (derive_key ops c f1 q1) (\<lambda>r1.
     ibind (derive_key ops c f2 q2) (\<lambda>r2.
     if r1 \<noteq> None \<or> r2 \<noteq> None then iret (handler_returns 1 [] (first_refusal r1 r2) None)
     else
       ibind (read_key c f1) (\<lambda>k1.
       ibind (read_key c f2) (\<lambda>k2.
         if (k1 = k2) = same then iret (handler_returns 0 good [] None)
         else iret (handler_returns 1 [] bad None)))))"

definition test_determinism :: "'e ops \<Rightarrow> ctx \<Rightarrow> ('e world, handler_result) io" where
  "test_determinism ops c =
     compare_keys ops c ''det_key1.bin'' key_defaults ''det_key2.bin'' key_defaults True
       ''Keys match (deterministic)''
       (''Keys differ '' @ em_dash @ '' derivation is not deterministic'')"

definition test_root_key_difference :: "'e ops \<Rightarrow> ctx \<Rightarrow> ('e world, handler_result) io" where
  "test_root_key_difference ops c =
     compare_keys ops c ''vcek_key.bin'' (key_defaults\<lparr>kq_root := ''vcek''\<rparr>)
       ''vmrk_key.bin'' (key_defaults\<lparr>kq_root := ''vmrk''\<rparr>) False
       ''VCEK and VMRK keys differ'' ''VCEK and VMRK keys are identical''"

definition test_gfs :: "'e ops \<Rightarrow> ctx \<Rightarrow> ('e world, handler_result) io" where
  "test_gfs ops c =
     compare_keys ops c ''gfs1_key.bin'' (key_defaults\<lparr>kq_gfs := 1\<rparr>)
       ''gfs2_key.bin'' (key_defaults\<lparr>kq_gfs := 2\<rparr>) False
       ''GFS=0x01 and GFS=0x02 keys differ'' ''GFS=0x01 and GFS=0x02 keys are identical''"

definition vmpl_key_file :: "int \<Rightarrow> string" where
  "vmpl_key_file v = ''vmpl'' @ str_int v @ ''_key.bin''"

definition test_vmpl_isolation :: "'e ops \<Rightarrow> ctx \<Rightarrow> ('e world, handler_result) io" where
  "test_vmpl_isolation ops c =
     ibind (current_vmpl c) (\<lambda>cur. let hi = cur + 1; level = (\<lambda>v. ''VMPL'' @ str_int v) in
     ibind (derive_key ops c (vmpl_key_file cur) (key_defaults\<lparr>kq_vmpl := Some cur\<rparr>)) (\<lambda>r_cur.
     case r_cur of
       Some err \<Rightarrow> iret (handler_returns 1 [] (level cur @ '' derivation failed: '' @ err) None)
     | None \<Rightarrow>
     if hi > 3 then
       iret (handler_returns 0 (''Running at VMPL3 '' @ em_dash @ '' no higher VMPL to compare against (N/A)'') [] None)
     else
     ibind (derive_key ops c (vmpl_key_file hi) (key_defaults\<lparr>kq_vmpl := Some hi\<rparr>)) (\<lambda>r_hi.
     case r_hi of
       Some err \<Rightarrow> iret (handler_returns 1 []
         (level hi @ '' derivation failed after '' @ level cur @ '' succeeded: '' @ err) None)
     | None \<Rightarrow>
     ibind (read_key c (vmpl_key_file cur)) (\<lambda>k_cur.
     ibind (read_key c (vmpl_key_file hi)) (\<lambda>k_hi.
       if k_cur \<noteq> k_hi then
         iret (handler_returns 0 (level cur @ '' and '' @ level hi @ '' keys differ (proper isolation)'') [] None)
       else iret (handler_returns 1 [] (level cur @ '' and '' @ level hi @ '' keys are identical'') None))))))"

section \<open>The bound of the SVN\<close>

text \<open>The verdict of a sensitivity sweep: the keys by value, and the lines so far.\<close>

definition sensitivity_result :: "string \<Rightarrow> string list \<Rightarrow> (int \<times> bytes) list \<Rightarrow> string \<Rightarrow> handler_result" where
  "sensitivity_result what lines keys distinct_text =
     (if length keys < 2 then
        handler_returns 1 [] (join nl lines @ nl @ ''Fewer than 2 successful '' @ what @ '' derivations'') None
      else if length (remdups (map snd keys)) = length keys then
        handler_returns 0 (join nl (lines @ [''All '' @ nat_str 10 (length keys) @ '' '' @ distinct_text])) [] None
      else handler_returns 1 [] (join nl lines @ nl @ ''Some '' @ what @ '' values produce identical keys'') None)"

definition svn_request :: "int \<Rightarrow> key_request" where
  "svn_request svn = key_defaults\<lparr>kq_svn := svn, kq_gfs := push_bit 4 1\<rparr>"

definition svn_above_line :: "int \<Rightarrow> int \<times> string option \<Rightarrow> string" where
  "svn_above_line max_svn probe =
     (case probe of
        (svn, None) \<Rightarrow> ''FAIL: SVN='' @ str_int svn @ '' succeeded '' @ em_dash @ '' bound (''
          @ str_int max_svn @ '') not enforced''
      | (svn, Some err) \<Rightarrow> ''Bound enforced: SVN='' @ str_int svn @ '' rejected ('' @ reason err @ '')'')"

definition svn_key_file :: "int \<Rightarrow> string" where
  "svn_key_file svn = ''svn_'' @ str_int svn @ ''_key.bin''"

text \<open>One value of the sweep: the key, or the refusal.\<close>

definition sweep_svn :: "'e ops \<Rightarrow> ctx \<Rightarrow> int \<Rightarrow> ('e world, string + bytes) io" where
  "sweep_svn ops c svn =
     ibind (derive_key ops c (svn_key_file svn) (svn_request svn)) (\<lambda>r.
       case r of Some err \<Rightarrow> iret (Inl err) | None \<Rightarrow> ibind (read_key c (svn_key_file svn)) (\<lambda>k. iret (Inr k)))"

definition swept_keys :: "(int \<times> (string + bytes)) list \<Rightarrow> (int \<times> bytes) list" where
  "swept_keys rs = concat (map (\<lambda>(v, r). case r of Inr k \<Rightarrow> if k \<noteq> [] then [(v, k)] else [] | Inl _ \<Rightarrow> []) rs)"

definition svn_unexpected :: "(int \<times> (string + bytes)) list \<Rightarrow> string list" where
  "svn_unexpected rs = concat (map (\<lambda>(v, r). case r of
     Inl err \<Rightarrow> [''SVN='' @ str_int v @ '' rejected (unexpected): '' @ err] | Inr _ \<Rightarrow> []) rs)"

definition svn_sensitivity :: "'e ops \<Rightarrow> ctx \<Rightarrow> int \<Rightarrow> string list \<Rightarrow> ('e world, handler_result) io" where
  "svn_sensitivity ops c max_svn lines =
     (if max_svn = 0 then
        iret (handler_returns 0
          (join nl (lines @ [''Only one valid SVN value (0) '' @ em_dash
            @ '' sensitivity N/A (ID_BLOCK_GUEST_SVN is 0)''])) [] None)
      else
        ibind (imap (sweep_svn ops c) (sweep_values max_svn)) (\<lambda>swept.
        let rs = zip (sweep_values max_svn) swept in
        iret (sensitivity_result ''SVN'' (lines @ svn_unexpected rs) (swept_keys rs)
          ''SVN values produce distinct keys'')))"

definition svn_above_file :: "int \<Rightarrow> string" where
  "svn_above_file svn = ''svn_above_'' @ str_int svn @ ''.bin''"

definition svn_above_bound :: "'e ops \<Rightarrow> ctx \<Rightarrow> int \<Rightarrow> ('e world, handler_result) io" where
  "svn_above_bound ops c max_svn =
     (let above = [max_svn + 1..max_svn + 3] in
      ibind (imap (\<lambda>svn. derive_key ops c (svn_above_file svn) (svn_request svn)) above) (\<lambda>outcomes.
      let lines = (''Guest SVN upper bound (launch value, from the ID block): '' @ str_int max_svn)
            # map (svn_above_line max_svn) (zip above outcomes) in
      if list_ex (\<lambda>r. r = None) outcomes then iret (handler_returns 1 [] (join nl lines) None)
      else svn_sensitivity ops c max_svn lines))"

definition test_svn :: "'e ops \<Rightarrow> ctx \<Rightarrow> ('e world, handler_result) io" where
  "test_svn ops c =
     or_fail_with ReportError (load_report (ctx_artifact_dir c)) (\<lambda>report.
     let max_svn = rep_guest_svn report in
     ibind (derive_key ops c ''svn_at_bound.bin'' (svn_request max_svn)) (\<lambda>at_bound.
     case at_bound of
       Some err \<Rightarrow> iret (handler_returns 1 []
         (''SVN='' @ str_int max_svn @ '' (the bound) was rejected, so rejections above it ''
          @ ''cannot be attributed to the bound: '' @ reason err) None)
     | None \<Rightarrow> svn_above_bound ops c max_svn))"

section \<open>The bound of the TCB\<close>

datatype tcb_component = Bootloader | Tee | Snp | Microcode | Fmc

fun component_name :: "tcb_component \<Rightarrow> string" where
  "component_name Bootloader = ''bootloader''"
| "component_name Tee = ''tee''"
| "component_name Snp = ''snp''"
| "component_name Microcode = ''microcode''"
| "component_name Fmc = ''fmc''"

fun component_label :: "tcb_component \<Rightarrow> string" where
  "component_label Bootloader = ''Boot Loader''"
| "component_label Tee = ''TEE''"
| "component_label Snp = ''SNP''"
| "component_label Microcode = ''Microcode''"
| "component_label Fmc = ''FMC''"

fun set_component :: "tcb_component \<times> int \<Rightarrow> tcb_version \<Rightarrow> tcb_version" where
  "set_component (Bootloader, v) t = t\<lparr>tcb_bootloader := v\<rparr>"
| "set_component (Tee, v) t = t\<lparr>tcb_tee := v\<rparr>"
| "set_component (Snp, v) t = t\<lparr>tcb_snp := v\<rparr>"
| "set_component (Microcode, v) t = t\<lparr>tcb_microcode := v\<rparr>"
| "set_component (Fmc, v) t = t\<lparr>tcb_fmc := Some v\<rparr>"

definition make_tcb :: "tcb_layout \<Rightarrow> (tcb_component \<times> int) list \<Rightarrow> tcb_version" where
  "make_tcb layout overrides =
     fold set_component overrides
       \<lparr>tcb_bootloader = 0, tcb_tee = 0, tcb_snp = 0, tcb_microcode = 0,
        tcb_fmc = (if layout = Turin then Some 0 else None)\<rparr>"

definition components_of :: "tcb_version \<Rightarrow> (tcb_component \<times> int) list" where
  "components_of t =
     [(Bootloader, tcb_bootloader t), (Tee, tcb_tee t), (Snp, tcb_snp t), (Microcode, tcb_microcode t)]
     @ (case tcb_fmc t of None \<Rightarrow> [] | Some f \<Rightarrow> [(Fmc, f)])"

definition tcb_above_bound_steps :: int where "tcb_above_bound_steps = 3"

definition above_values :: "int \<Rightarrow> int list" where
  "above_values max_val = filter (\<lambda>v. v \<le> 0xFF) [max_val + 1..max_val + tcb_above_bound_steps]"

definition tcb_request :: "int \<Rightarrow> key_request" where
  "tcb_request u = key_defaults\<lparr>kq_tcb := u, kq_gfs := push_bit 5 1\<rparr>"

definition probe_tcb :: "'e ops \<Rightarrow> ctx \<Rightarrow> tcb_layout \<Rightarrow> tcb_component \<Rightarrow> int \<Rightarrow> ('e world, string option) io" where
  "probe_tcb ops c layout cpt v =
     ibind (ilift (tcb_to_u64 (make_tcb layout [(cpt, v)]) layout)) (\<lambda>u.
       derive_key ops c (''tcb_above_'' @ component_name cpt @ ''_'' @ str_int v @ ''.bin'') (tcb_request u))"

definition tcb_above_line :: "tcb_component \<Rightarrow> int \<Rightarrow> int \<times> string option \<Rightarrow> string" where
  "tcb_above_line cpt max_val probe =
     (case probe of
        (v, None) \<Rightarrow> ''FAIL: '' @ component_label cpt @ ''='' @ str_int v @ '' succeeded '' @ em_dash
          @ '' bound ('' @ str_int max_val @ '') not enforced''
      | (v, Some err) \<Rightarrow> ''Bound enforced: '' @ component_label cpt @ ''='' @ str_int v
          @ '' rejected ('' @ reason err @ '')'')"

text \<open>The lines of one component, and whether every value above its bound was rejected.\<close>

definition probe_component ::
  "'e ops \<Rightarrow> ctx \<Rightarrow> tcb_layout \<Rightarrow> tcb_component \<times> int \<Rightarrow> ('e world, string list \<times> bool) io" where
  "probe_component ops c layout cm =
     (case cm of (cpt, max_val) \<Rightarrow>
        if above_values max_val = [] then
          iret ([component_label cpt @ '': launch='' @ str_int max_val @ '' is max (0xFF) '' @ em_dash
            @ '' no above-bound values to test''], True)
        else
          ibind (imap (probe_tcb ops c layout cpt) (above_values max_val)) (\<lambda>outcomes.
            iret (map (tcb_above_line cpt max_val) (zip (above_values max_val) outcomes),
                  \<not> list_ex (\<lambda>r. r = None) outcomes)))"

text \<open>The sweep: a TCB value that was already tried is left out.\<close>

fun sweep_tcb ::
  "'e ops \<Rightarrow> ctx \<Rightarrow> tcb_layout \<Rightarrow> int list \<Rightarrow> (tcb_component \<times> int) list
     \<Rightarrow> ('e world, ((tcb_component \<times> int \<times> int) \<times> (string + bytes)) list) io" where
  "sweep_tcb ops c layout attempted [] = iret []"
| "sweep_tcb ops c layout attempted ((cpt, v) # rest) =
     ibind (ilift (tcb_to_u64 (make_tcb layout [(cpt, v)]) layout)) (\<lambda>u.
     if List.member attempted u then sweep_tcb ops c layout attempted rest
     else
       let f = ''tcb_'' @ component_name cpt @ ''_'' @ str_int v @ ''.bin'' in
       ibind (derive_key ops c f (tcb_request u)) (\<lambda>r.
       ibind (case r of Some err \<Rightarrow> iret (Inl err) | None \<Rightarrow> ibind (read_key c f) (\<lambda>k. iret (Inr k))) (\<lambda>out.
       ibind (sweep_tcb ops c layout (u # attempted) rest) (\<lambda>outs.
         iret (((cpt, v, u), out) # outs)))))"

definition sweep_plan :: "(tcb_component \<times> int) list \<Rightarrow> (tcb_component \<times> int) list" where
  "sweep_plan components = concat (map (\<lambda>(cpt, max_val). map (Pair cpt) (sweep_values max_val)) components)"

definition tcb_unexpected :: "((tcb_component \<times> int \<times> int) \<times> (string + bytes)) list \<Rightarrow> string list" where
  "tcb_unexpected rs = concat (map (\<lambda>((cpt, v, u), r). case r of
     Inl err \<Rightarrow> [''TCB '' @ component_name cpt @ ''='' @ str_int v @ '' (u64=0x'' @ hex_pad16 (nat u)
       @ '') rejected (unexpected): '' @ err] | Inr _ \<Rightarrow> []) rs)"

definition tcb_sweep_result ::
  "string list \<Rightarrow> ((tcb_component \<times> int \<times> int) \<times> (string + bytes)) list \<Rightarrow> handler_result" where
  "tcb_sweep_result lines rs =
     (let all_lines = lines @ tcb_unexpected rs in
      if length rs < 2 then
        handler_returns 0 (join nl (all_lines @ [''TCB sensitivity N/A '' @ em_dash
          @ '' all launch TCB components are zero''])) [] None
      else sensitivity_result ''TCB'' all_lines (swept_keys (map (\<lambda>((_, _, u), r). (u, r)) rs))
        ''distinct TCB values produce distinct keys'')"

definition tcb_above_bound ::
  "'e ops \<Rightarrow> ctx \<Rightarrow> tcb_layout \<Rightarrow> tcb_version \<Rightarrow> ('e world, handler_result) io" where
  "tcb_above_bound ops c layout t =
     ibind (imap (probe_component ops c layout) (components_of t)) (\<lambda>probes.
     let lines = (''Launch TCB: '' @ tcb_str t) # concat (map fst probes) in
     if \<not> list_all snd probes then iret (handler_returns 1 [] (join nl lines) None)
     else
       ibind (sweep_tcb ops c layout [] (sweep_plan (components_of t))) (\<lambda>rs.
         iret (tcb_sweep_result lines rs)))"

definition tcb_bound_test ::
  "'e ops \<Rightarrow> ctx \<Rightarrow> tcb_layout \<Rightarrow> tcb_version \<Rightarrow> ('e world, handler_result) io" where
  "tcb_bound_test ops c layout t =
     ibind (ilift (tcb_to_u64 (make_tcb layout (components_of t)) layout)) (\<lambda>launch.
     ibind (derive_key ops c ''tcb_at_bound.bin'' (tcb_request launch)) (\<lambda>at_bound.
     case at_bound of
       Some err \<Rightarrow> iret (handler_returns 1 []
         (''Launch TCB (u64=0x'' @ hex_pad16 (nat launch) @ '') was rejected, so ''
          @ ''rejections above it cannot be attributed to the bound: '' @ reason err) None)
     | None \<Rightarrow> tcb_above_bound ops c layout t))"

definition test_tcb :: "'e ops \<Rightarrow> ctx \<Rightarrow> ('e world, handler_result) io" where
  "test_tcb ops c =
     or_fail_with ReportError (load_report (ctx_artifact_dir c)) (\<lambda>report.
     case rep_launch_tcb report of
       None \<Rightarrow> iret (handler_returns 1 []
         (''LAUNCH_TCB could not be decoded (report version '' @ str_int (rep_version report)
          @ '', generation '' @ rep_generation report @ ''): it needs a version 3 or later ''
          @ ''report from a recognised processor generation (see attestation_report.py)'') None)
     | Some t \<Rightarrow>
         ibind this_host_generation (\<lambda>(_, layout). tcb_bound_test ops c layout t))"

section \<open>Mixing of guest fields\<close>

definition gfs_bits :: "(nat \<times> string) list" where
  "gfs_bits = [(0, ''Guest Policy''), (1, ''Image ID''), (2, ''Family ID''), (3, ''Measurement''),
     (4, ''Guest SVN''), (5, ''TCB Version'')]"

text \<open>One bit: \<open>Inl\<close> the line of a failure, \<open>Inr\<close> that of a success.\<close>

definition mix_bit :: "'e ops \<Rightarrow> ctx \<Rightarrow> bytes \<Rightarrow> nat \<times> string \<Rightarrow> ('e world, string + string) io" where
  "mix_bit ops c baseline b =
     (case b of (n, label) \<Rightarrow>
        let f = ''gfs_bit'' @ nat_str 10 n @ ''.bin'';
            name = ''GFS bit '' @ nat_str 10 n @ '' ('' @ label @ ''): '' in
        ibind (derive_key ops c f (key_defaults\<lparr>kq_gfs := push_bit n 1\<rparr>)) (\<lambda>r.
          case r of
            Some err \<Rightarrow> iret (Inl (name @ ''derivation failed: '' @ err))
          | None \<Rightarrow> ibind (read_key c f) (\<lambda>k.
              iret (if k \<noteq> baseline then Inr (name @ ''differs from baseline'')
                    else Inl (name @ ''same as baseline'')))))"

definition lefts :: "('a + 'b) list \<Rightarrow> 'a list" where
  "lefts xs = concat (map (\<lambda>x. case x of Inl a \<Rightarrow> [a] | Inr _ \<Rightarrow> []) xs)"

definition rights :: "('a + 'b) list \<Rightarrow> 'b list" where
  "rights xs = concat (map (\<lambda>x. case x of Inl _ \<Rightarrow> [] | Inr b \<Rightarrow> [b]) xs)"

definition test_gfs_field_mixing :: "'e ops \<Rightarrow> ctx \<Rightarrow> ('e world, handler_result) io" where
  "test_gfs_field_mixing ops c =
     ibind (derive_key ops c ''gfs_baseline.bin'' (key_defaults\<lparr>kq_gfs := 0\<rparr>)) (\<lambda>r.
     case r of
       Some err \<Rightarrow> iret (handler_returns 1 [] (''Baseline derivation failed: '' @ err) None)
     | None \<Rightarrow>
     ibind (read_key c ''gfs_baseline.bin'') (\<lambda>baseline.
     ibind (imap (mix_bit ops c baseline) gfs_bits) (\<lambda>outs.
       if lefts outs \<noteq> [] then iret (handler_returns 1 [] (join nl (lefts outs)) None)
       else iret (handler_returns 0 (join nl (rights outs)) [] None))))"

section \<open>Two guests\<close>

definition cross_key_file :: string where "cross_key_file = ''cross_cvm_key.bin''"
definition cross_key_1_file :: string where "cross_key_1_file = ''cross_cvm_key_1.bin''"

definition save_cross_cvm_key :: "'e ops \<Rightarrow> ctx \<Rightarrow> ('e world, handler_result) io" where
  "save_cross_cvm_key ops c =
     ibind (derive_key ops c cross_key_file key_defaults) (\<lambda>r.
     case r of
       Some err \<Rightarrow> iret (handler_returns 1 [] (''Key derivation failed: '' @ err) None)
     | None \<Rightarrow>
     ibind (read_key c cross_key_file) (\<lambda>k.
     iseq (write_bytes (path_sub (ctx_artifact_dir c) cross_key_1_file) k)
          (iret (handler_returns 0 ''Reference key saved from CVM 1'' [] None))))"

definition verify_cross_cvm_key :: "'e ops \<Rightarrow> ctx \<Rightarrow> ('e world, handler_result) io" where
  "verify_cross_cvm_key ops c =
     (let ref = path_sub (ctx_artifact_dir c) cross_key_1_file in
     ibind (derive_key ops c cross_key_file key_defaults) (\<lambda>r.
     case r of
       Some err \<Rightarrow> iret (handler_returns 1 [] (''Key derivation failed in CVM 2: '' @ err) None)
     | None \<Rightarrow>
     ibind (iget (path_exists ref)) (\<lambda>there.
     if \<not> there then iret (handler_returns 1 [] ''CVM 1 reference key not found'' None)
     else
       ibind (read_key c cross_key_file) (\<lambda>k2.
       ibind (read_bytes ref) (\<lambda>k1.
         if k1 = k2 then iret (handler_returns 0
           (''Keys match across two independent CVMs '' @ em_dash @ '' platform-bound derivation confirmed'') [] None)
         else iret (handler_returns 1 []
           (''Keys differ across CVMs '' @ em_dash @ '' derived key is not stable across CVM lifetimes'') None))))))"

section \<open>The steps\<close>

definition key_derivation_plan :: "(exc + base_step) list" where
  "key_derivation_plan =
     [for_callable ''Calculate measurement'' Setup ''calculate_measurement'' default_expected_result 60,
      for_callable ''Generate ID block'' Setup ''generate_id_block'' default_expected_result 30,
      with_hint (for_vm_launch ''Launch SEV-SNP guest'' Setup default_expected_result 300 [])
        (fst vm_running_hint) (snd vm_running_hint),
      for_guest ''Get attestation report'' Setup ''snpguest report report.bin request.bin --random''
        default_expected_result 60,
      for_guest_pull ''Pull attestation report'' Setup ''report.bin'' ''report.bin'' default_expected_result 30,
      for_callable ''Parse attestation report'' Required ''parse_report'' default_expected_result 30,
      for_callable ''Detect running VMPL'' Setup ''detect_vmpl'' default_expected_result 60,
      for_callable ''Test determinism'' Required ''test_determinism'' default_expected_result 60,
      for_callable ''Test VMPL isolation'' Required ''test_vmpl_isolation'' default_expected_result 60,
      for_callable ''Test root key difference'' Required ''test_root_key_difference'' default_expected_result 60,
      for_callable ''Test SVN bound enforcement and sensitivity'' Required ''test_svn'' default_expected_result 120,
      for_callable ''Test TCB bound enforcement and sensitivity'' Required ''test_tcb'' default_expected_result 120,
      for_callable ''Test GFS sensitivity'' Required ''test_gfs'' default_expected_result 60,
      for_callable ''Test GFS field mixing'' Required ''test_gfs_field_mixing'' default_expected_result 60,
      for_callable ''Save reference key from CVM 1'' Required ''save_cross_cvm_key'' default_expected_result 30,
      for_vm_stop ''Stop CVM 1'' Info default_expected_result 60,
      with_hint (for_vm_launch ''Launch CVM 2'' Setup default_expected_result 300 [])
        (fst vm_running_hint) (snd vm_running_hint),
      for_callable ''Verify key matches across CVMs'' Required ''verify_cross_cvm_key'' default_expected_result 30,
      for_vm_stop ''Stop CVM 2'' Info default_expected_result 60]"

definition key_derivation_steps :: "('e world, base_step list) io" where
  "key_derivation_steps = ilift (rmap (\<lambda>s. s) key_derivation_plan)"

definition key_derivation_profile :: vm_profile where
  "key_derivation_profile = (mk_profile [])\<lparr>vp_memory_mb := 2048\<rparr>"

definition key_derivation_handlers :: "'e id_tools \<Rightarrow> 'e ops \<Rightarrow> (string \<times> 'e attr) list" where
  "key_derivation_handlers tools ops =
     [(''calculate_measurement'', as_handler (calculate_measurement ops)),
      (''generate_id_block'', stateful_handler (generate_id_block tools ops)),
      (''parse_report'', as_handler parse_report_handler),
      (''detect_vmpl'', as_handler (detect_vmpl ops)),
      (''test_determinism'', as_handler (test_determinism ops)),
      (''test_vmpl_isolation'', as_handler (test_vmpl_isolation ops)),
      (''test_root_key_difference'', as_handler (test_root_key_difference ops)),
      (''test_svn'', as_handler (test_svn ops)),
      (''test_tcb'', as_handler (test_tcb ops)),
      (''test_gfs'', as_handler (test_gfs ops)),
      (''test_gfs_field_mixing'', as_handler (test_gfs_field_mixing ops)),
      (''save_cross_cvm_key'', as_handler (save_cross_cvm_key ops)),
      (''verify_cross_cvm_key'', as_handler (verify_cross_cvm_key ops))]"

definition key_derivation_mod :: "'e id_tools \<Rightarrow> 'e ops \<Rightarrow> 'e test_mod" where
  "key_derivation_mod tools ops =
     \<lparr>tm_steps = key_derivation_steps, tm_vm_profile = iret (Some key_derivation_profile),
      tm_attrs = key_derivation_handlers tools ops\<rparr>"

end
