(* ===== verification/Scripted_Guest.thy ===== *)
theory Scripted_Guest
  imports Key_Derivation Json_Text
begin

text \<open>
  A guest that plays a script, for the concrete instances of the key derivation checks. A step of a
  handler is described by a total-correctness triple: from every state that satisfies the first
  condition it returns, in a state that satisfies the second.
\<close>

section \<open>Triples\<close>

definition reaches :: "('s \<Rightarrow> bool) \<Rightarrow> ('s, 'a) io \<Rightarrow> ('a \<Rightarrow> 's \<Rightarrow> bool) \<Rightarrow> bool" where
  "reaches P m Q \<longleftrightarrow> (\<forall>s. P s \<longrightarrow> (\<exists>x s'. m s = (Inr x, s') \<and> Q x s'))"

lemma reachesE:
  assumes "reaches P m Q" and "P s"
  obtains x s' where "m s = (Inr x, s')" "Q x s'"
  using assms unfolding reaches_def by blast

lemma reaches_ibind:
  "reaches P m Q \<Longrightarrow> (\<And>x. reaches (Q x) (f x) R) \<Longrightarrow> reaches P (ibind m f) R"
  unfolding reaches_def by (metis ibind_simps(1))

lemma reaches_step:
  "reaches P m (\<lambda>x s. x = v \<and> Q s) \<Longrightarrow> reaches Q (f v) R \<Longrightarrow> reaches P (ibind m f) R"
  unfolding reaches_def by (metis ibind_simps(1))

lemma reaches_imap:
  "reaches P (imap f []) (\<lambda>ys s. ys = [] \<and> P s)"
  "reaches P (f x) (\<lambda>y s. y = v \<and> Q s) \<Longrightarrow> reaches Q (imap f xs) (\<lambda>ys s. ys = vs \<and> R s) \<Longrightarrow>
     reaches P (imap f (x # xs)) (\<lambda>ys s. ys = v # vs \<and> R s)"
proof -
  assume "reaches P (f x) (\<lambda>y s. y = v \<and> Q s)" "reaches Q (imap f xs) (\<lambda>ys s. ys = vs \<and> R s)"
  then show "reaches P (imap f (x # xs)) (\<lambda>ys s. ys = v # vs \<and> R s)"
    unfolding imap.simps by (elim reaches_step) (auto simp: reaches_def)
qed (simp add: reaches_def)

lemma reaches_iseq: "reaches P m (\<lambda>_. Q) \<Longrightarrow> reaches Q n R \<Longrightarrow> reaches P (iseq m n) R"
  unfolding iseq_def by (rule reaches_ibind)

lemma reaches_iret: "(\<And>s. P s \<Longrightarrow> Q x s) \<Longrightarrow> reaches P (iret x) Q"
  by (simp add: reaches_def)

lemma reaches_weaken: "reaches P m Q \<Longrightarrow> (\<And>s. P' s \<Longrightarrow> P s) \<Longrightarrow> (\<And>x s. Q x s \<Longrightarrow> Q' x s) \<Longrightarrow> reaches P' m Q'"
  unfolding reaches_def by blast

section \<open>The script\<close>

text \<open>A response, in one chunk, and the end of the stream.\<close>

definition answer :: "json \<Rightarrow> bytes list" where "answer j = [encode (dumps j), []]"

definition refusal_response :: json where
  "refusal_response = JObj [(''exit_code'', JInt 1), (''stderr'', JStr ''denied'')]"

definition output_response :: "string \<Rightarrow> json" where
  "output_response out = JObj [(''exit_code'', JInt 0), (''stdout'', JStr out)]"

text \<open>A refused request is one response; a granted one is followed by that of the transfer.\<close>

definition refuses :: "bytes list" where "refuses = answer refusal_response"

definition grants :: "bytes \<Rightarrow> bytes list" where
  "grants k = answer (output_response []) @ answer (output_response (b64encode k))"

text \<open>The rest of the script, and what the files of the artifact directory hold.\<close>

definition simple_name :: "string \<Rightarrow> bool" where
  "simple_name f \<longleftrightarrow> path_of f = Path [] [f]"

definition guest_state :: "bytes list \<Rightarrow> (string \<times> bytes) list \<Rightarrow> bytes list world \<Rightarrow> bool" where
  "guest_state rest files w \<longleftrightarrow>
     w_ext w = rest \<and> w_dirs w = (\<lambda>q. q = demo_dir) \<and>
     (\<forall>(f, k) \<in> set files. w_files w (path_sub demo_dir f) = Some k)"

text \<open>A file that can be written without touching these.\<close>

definition fresh :: "string \<Rightarrow> (string \<times> bytes) list \<Rightarrow> bool" where
  "fresh f files \<longleftrightarrow> simple_name f \<and> list_all (\<lambda>(g, _). simple_name g \<and> g \<noteq> f) files"

lemma sub_simple: "simple_name f \<Longrightarrow> path_sub demo_dir f = Path [] [''a'', f]"
  by (simp add: simple_name_def path_sub_def path_join_def is_absolute_def demo_dir_def)

lemma read_simple:
  "(f, k) \<in> set files \<Longrightarrow> reaches (guest_state rest files) (read_bytes (path_sub demo_dir f))
     (\<lambda>b s. b = k \<and> guest_state rest files s)"
  unfolding reaches_def
proof (intro allI impI)
  fix w assume m: "(f, k) \<in> set files" and w: "guest_state rest files w"
  then have "w_files w (path_sub demo_dir f) = Some k" by (auto simp: guest_state_def)
  with w show "\<exists>x s'. read_bytes (path_sub demo_dir f) w = (Inr x, s') \<and> x = k \<and> guest_state rest files s'"
    by (simp add: read_bytes_def)
qed

lemma write_simple:
  assumes "fresh f files"
  shows "reaches (guest_state rest files) (write_bytes (path_sub demo_dir f) b)
    (\<lambda>_. guest_state rest ((f, b) # files))"
proof -
  have "path_parent (path_sub demo_dir f) = demo_dir" "path_sub demo_dir f \<noteq> demo_dir"
    using assms by (simp_all add: fresh_def sub_simple path_parent_def) (simp_all add: demo_dir_def)
  moreover have "path_sub demo_dir g \<noteq> path_sub demo_dir f" if "(g, k) \<in> set files" for g k
  proof -
    have "simple_name g" "g \<noteq> f" using assms that by (auto simp: fresh_def list_all_iff)
    then show ?thesis using assms by (simp add: sub_simple fresh_def)
  qed
  ultimately show ?thesis
    unfolding reaches_def guest_state_def
    by (auto simp: write_bytes_def open_error_def)
qed

lemma ext_still: "m w = (r, w) \<Longrightarrow> ext m w = (r, w)"
  by (simp add: ext_def)

lemma script_recv:
  "w_ext w = c # cs \<Longrightarrow> ext (op_recv script_ops sock) w = (Inr c, w\<lparr>w_ext := cs\<rparr>)"
  by (simp add: script_ops_def ext_def)

lemma script_still:
  "ext (op_connect script_ops a b t) w = (Inr 0, w)"
  "ext (op_sendall script_ops n d) w = (Inr (), w)"
  "ext (op_close script_ops n) w = (Inr (), w)"
  by (simp_all add: script_ops_def idle_ops_def ext_def)

definition fits :: "vm_profile \<Rightarrow> json \<Rightarrow> bool" where
  "fits p j \<longleftrightarrow> json_ok j \<and> dumps j \<noteq> [] \<and> int (length (dumps j)) \<le> vp_vsock_max_response_bytes p"

lemma request_scripted:
  assumes "fits p j" and "w_ext w = answer j @ rest"
  shows "vsock_request script_ops p payload t w = (Inr j, w\<lparr>w_ext := rest\<rparr>)"
proof -
  let ?c = "encode (dumps j)"
  have "delivers script_ops 0 [?c] w (w\<lparr>w_ext := rest\<rparr>)"
    using assms by (simp add: fits_def answer_def encode_def script_ops_def ext_def)
  from recv_loop_delivers [OF this, of 0 "vp_vsock_max_response_bytes p" "[]"]
  have "recv_loop script_ops 0 (vp_vsock_max_response_bytes p) [] 0 w = (Inr [?c], w\<lparr>w_ext := rest\<rparr>)"
    using assms(1) by (simp add: fits_def encode_def)
  then have "read_response script_ops 0 (vp_vsock_max_response_bytes p) w = (Inr j, w\<lparr>w_ext := rest\<rparr>)"
    using assms(1) by (simp add: read_response_def ibind_def fits_def decode_dumps loads_dumps catch_def)
  then show ?thesis
    by (simp add: vsock_request_def vsock_connect_def send_request_def itry_def ibind_def iseq_def ifinally_def
        script_still)
qed

lemma run_scripted:
  assumes "fits p (JObj ms)" and "map_of ms ''exit_code'' = Some (JInt n)"
  shows "reaches (guest_state (answer (JObj ms) @ rest) files) (run_guest_command script_ops p cmd (Some t) False)
    (\<lambda>r s. gcr_exit_code r = n \<and> gcr_stdout r = text_or_empty (op_float_str script_ops) (map_of ms ''stdout'') \<and>
       gcr_stderr r = text_or_empty (op_float_str script_ops) (map_of ms ''stderr'') \<and> guest_state rest files s)"
  unfolding reaches_def
proof (intro allI impI)
  fix w assume w: "guest_state (answer (JObj ms) @ rest) files w"
  then have "w_ext w = answer (JObj ms) @ rest" by (simp add: guest_state_def)
  note req = request_scripted [OF assms(1) this]
  have "guest_state rest files (w\<lparr>w_ext := rest\<rparr>)" using w by (simp add: guest_state_def)
  then show "\<exists>x s'. run_guest_command script_ops p cmd (Some t) False w = (Inr x, s') \<and>
      gcr_exit_code x = n \<and> gcr_stdout x = text_or_empty (op_float_str script_ops) (map_of ms ''stdout'') \<and>
      gcr_stderr x = text_or_empty (op_float_str script_ops) (map_of ms ''stderr'') \<and> guest_state rest files s'"
    using assms(2) by (simp add: run_guest_command_def iwhen_def iseq_def now_def elapsed_ms_def
        ibind_simps(1) [where m = "vsock_request script_ops p (JObj [(''cmd'', JStr cmd)]) t", OF req])
qed

section \<open>Requests for keys\<close>

text \<open>The guest answers on the channel of \<open>id_ctx\<close>, and the level on file is 0.\<close>

definition demo_profile :: vm_profile where "demo_profile = mk_profile ''g.efi''"

lemma id_ctx_simps: "ctx_profile id_ctx = Some demo_profile" "ctx_artifact_dir id_ctx = demo_dir"
  by (simp_all add: id_ctx_def demo_profile_def)

lemma refusal_fits: "fits demo_profile refusal_response"
  unfolding fits_def demo_profile_def refusal_response_def by code_simp

lemma key_codes: "b64encode [0] = ''AA==''" "b64encode [1] = ''AQ==''" "b64encode [2] = ''Ag==''"
  by (simp_all add: b64_char_def) code_simp+

lemma output_fits:
  "fits demo_profile (output_response [])"
  "k \<in> {[0], [1], [2]} \<Longrightarrow> fits demo_profile (output_response (b64encode k))"
proof -
  have "fits demo_profile (output_response ''AA=='')" "fits demo_profile (output_response ''AQ=='')"
    "fits demo_profile (output_response ''Ag=='')" "fits demo_profile (output_response [])"
    unfolding fits_def demo_profile_def output_response_def by code_simp+
  then show "fits demo_profile (output_response [])"
    "k \<in> {[0], [1], [2]} \<Longrightarrow> fits demo_profile (output_response (b64encode k))"
    by (auto simp: key_codes simp del: b64encode.simps)
qed

definition level_file :: "string \<times> bytes" where "level_file = (vmpl_file, encode ''0'')"

text \<open>The level of a request is known: it names one, or the file holds 0.\<close>

definition level_known :: "key_request \<Rightarrow> (string \<times> bytes) list \<Rightarrow> bool" where
  "level_known q files \<longleftrightarrow> kq_vmpl q \<noteq> None \<or> level_file \<in> set files"

lemma level_reached:
  assumes "level_known q files"
  shows "reaches (guest_state rest files) (case kq_vmpl q of None \<Rightarrow> current_vmpl id_ctx | Some v \<Rightarrow> iret v)
    (\<lambda>_. guest_state rest files)"
proof (cases "kq_vmpl q")
  case None
  then have f: "level_file \<in> set files" using assms by (simp add: level_known_def)
  have t: "rbind (decode_strict (encode ''0'')) (\<lambda>s. Inr (universal_newlines s)) = Inr ''0''" "py_int ''0'' = Some 0"
    by code_simp+
  have "current_vmpl id_ctx w = (Inr 0, w)" if "guest_state rest files w" for w
  proof -
    have "w_files w (path_sub demo_dir vmpl_file) = Some (encode ''0'')"
      using that f by (auto simp: guest_state_def level_file_def)
    then show ?thesis
      using t by (simp add: current_vmpl_def id_ctx_simps read_text_def ibind_def read_bytes_def int_or_raise_def)
  qed
  then show ?thesis using None by (simp add: reaches_def)
qed (auto intro: reaches_iret)

lemma derive_refused:
  assumes "level_known q files"
  shows "reaches (guest_state (refuses @ rest) files) (derive_key script_ops id_ctx f q)
    (\<lambda>r s. r = Some ''denied'' \<and> guest_state rest files s)"
proof -
  obtain ms where ms: "refusal_response = JObj ms" "map_of ms ''exit_code'' = Some (JInt 1)"
    "map_of ms ''stderr'' = Some (JStr ''denied'')"
    by (simp add: refusal_response_def)
  note run = run_scripted [OF refusal_fits [unfolded ms(1)] ms(2), folded ms(1)]
  have message: "rejection_message r = ''denied''" if "gcr_stderr r = ''denied''" for r
  proof -
    have "strip ''denied'' = ''denied''" by code_simp
    with that show ?thesis by (simp add: rejection_message_def)
  qed
  show ?thesis
    unfolding derive_key_def with_profile_def id_ctx_simps option.case refuses_def
    by (rule reaches_ibind [OF level_reached [OF assms]], rule reaches_ibind [OF run])
      (auto simp: reaches_def message ms(3) text_or_empty_def)
qed

lemma fetch_scripted:
  assumes "k \<in> {[0], [1], [2]}"
  shows "reaches (guest_state (answer (output_response (b64encode k)) @ rest) files)
    (fetch_guest_file_bytes script_ops demo_profile f (Some t)) (\<lambda>b s. b = k \<and> guest_state rest files s)"
proof -
  obtain ms where ms: "output_response (b64encode k) = JObj ms" "map_of ms ''exit_code'' = Some (JInt 0)"
    "map_of ms ''stdout'' = Some (JStr (b64encode k))"
    by (simp add: output_response_def)
  note run = run_scripted [OF output_fits(2) [OF assms, unfolded ms(1)] ms(2), folded ms(1)]
  have plain: "drop_spaces (b64encode k) = b64encode k" "list_all is_ascii (b64encode k)"
    using plain_b64encode [of k] by (simp_all add: drop_spaces_plain list_all_iff is_ascii_def plain_char_def)
  have "k \<noteq> []" using assms by auto
  then have full: "b64encode k \<noteq> []" using length_b64encode [of k] by (cases k) auto
  have "decode_pulled f r = Inr k" if "gcr_exit_code r = 0" "gcr_stdout r = b64encode k" for r
    using that full plain by (simp add: decode_pulled_def Let_def b64decode_encode)
  then show ?thesis
    unfolding fetch_guest_file_bytes_def
    by (intro reaches_ibind [OF run]) (use full ms(3) in \<open>auto simp: reaches_def text_or_empty_def\<close>)
qed

lemma derive_granted:
  assumes "level_known q files" and "k \<in> {[0], [1], [2]}"
    and "fresh f files"
  shows "reaches (guest_state (grants k @ rest) files) (derive_key script_ops id_ctx f q)
    (\<lambda>r s. r = None \<and> guest_state rest ((f, k) # files) s)"
proof -
  obtain ms where ms: "output_response [] = JObj ms" "map_of ms ''exit_code'' = Some (JInt 0)"
    by (simp add: output_response_def)
  note run = run_scripted [OF output_fits(1) [unfolded ms(1)] ms(2), folded ms(1)]
  have rest: "reaches (\<lambda>s. gcr_exit_code r = 0 \<and> guest_state (answer (output_response (b64encode k)) @ rest) files s)
      (if gcr_exit_code r \<noteq> 0 then iret (Some (rejection_message r))
       else ibind (fetch_guest_file_bytes script_ops demo_profile f (Some 30)) (\<lambda>data.
         iseq (write_bytes (path_sub demo_dir f) data) (iret None)))
      (\<lambda>r s. r = None \<and> guest_state rest ((f, k) # files) s)" for r
  proof (cases "gcr_exit_code r = 0")
    case True
    have "reaches (guest_state (answer (output_response (b64encode k)) @ rest) files)
       (ibind (fetch_guest_file_bytes script_ops demo_profile f (Some 30)) (\<lambda>data.
         iseq (write_bytes (path_sub demo_dir f) data) (iret None)))
       (\<lambda>r s. r = None \<and> guest_state rest ((f, k) # files) s)"
    proof (rule reaches_ibind [OF fetch_scripted [OF assms(2)]])
      fix data
      have "reaches (guest_state rest files) (iseq (write_bytes (path_sub demo_dir f) k) (iret None))
         (\<lambda>r s. r = None \<and> guest_state rest ((f, k) # files) s)"
        by (rule reaches_iseq [OF write_simple [OF assms(3)]]) (rule reaches_iret, simp)
      then show "reaches (\<lambda>s. data = k \<and> guest_state rest files s)
         (iseq (write_bytes (path_sub demo_dir f) data) (iret None))
         (\<lambda>r s. r = None \<and> guest_state rest ((f, k) # files) s)"
        by (auto simp: reaches_def)
    qed
    with True show ?thesis by simp
  qed (simp add: reaches_def)
  show ?thesis
    unfolding derive_key_def with_profile_def id_ctx_simps option.case grants_def append_assoc
    by (rule reaches_ibind [OF level_reached [OF assms(1)]], rule reaches_ibind [OF run], rule reaches_weaken [OF rest])
      auto
qed

text \<open>Keys that are all granted, or all refused, one after the other.\<close>

lemma all_refused:
  "(\<And>v. level_known (q v) files) \<Longrightarrow>
     reaches (guest_state (concat (map (\<lambda>_. refuses) vs) @ rest) files)
       (imap (\<lambda>v. derive_key script_ops id_ctx (f v) (q v)) vs)
       (\<lambda>rs s. rs = map (\<lambda>_. Some ''denied'') vs \<and> guest_state rest files s)"
proof (induction vs)
  case Nil
  show ?case by (simp add: reaches_def)
next
  case (Cons v vs)
  have "reaches (guest_state (refuses @ concat (map (\<lambda>_. refuses) vs) @ rest) files)
      (imap (\<lambda>v. derive_key script_ops id_ctx (f v) (q v)) (v # vs))
      (\<lambda>rs s. rs = Some ''denied'' # map (\<lambda>_. Some ''denied'') vs \<and> guest_state rest files s)"
    by (rule reaches_imap(2)) (rule derive_refused Cons)+
  then show ?case by simp
qed

lemma read_granted:
  "(f, k) \<in> set files \<Longrightarrow> reaches (guest_state rest files) (read_key id_ctx f)
     (\<lambda>b s. b = k \<and> guest_state rest files s)"
  unfolding read_key_def id_ctx_simps by (rule read_simple)

end
