(* ===== verification/Key_Guarantees.thy ===== *)
theory Key_Guarantees
  imports Scripted_Guest
begin

text \<open>
  What the checks of \<^verbatim>\<open>key_derivation_test.py\<close> guarantee: each success is traced to the requests the
  guest granted and refused over the channel (\<open>answered\<close>, \<open>asked\<close>) and to the bytes it delivered
  (\<open>fetched\<close>). The concrete instances talk to the scripted guest.
\<close>

section \<open>What the guest answered\<close>

text \<open>The guest ran the command, and exited with 0 or not.\<close>

definition answered :: "'e ops \<Rightarrow> vm_profile \<Rightarrow> string \<Rightarrow> bool \<Rightarrow> bool" where
  "answered ops p cmd ok \<longleftrightarrow>
     (\<exists>w r w'. run_guest_command ops p cmd (Some 30) False w = (Inr r, w') \<and> (gcr_exit_code r = 0) = ok)"

text \<open>The guest was asked for a key, at its own level where the request names none.\<close>

definition asked :: "'e ops \<Rightarrow> vm_profile \<Rightarrow> string \<Rightarrow> key_request \<Rightarrow> bool \<Rightarrow> bool" where
  "asked ops p f q ok \<longleftrightarrow>
     (\<exists>v. (\<forall>x. kq_vmpl q = Some x \<longrightarrow> v = x) \<and> answered ops p (key_command f q v) ok)"

definition fetched :: "'e ops \<Rightarrow> vm_profile \<Rightarrow> string \<Rightarrow> bytes \<Rightarrow> bool" where
  "fetched ops p f k \<longleftrightarrow> (\<exists>w w'. fetch_guest_file_bytes ops p f (Some 30) w = (Inr k, w'))"

lemma derive_key_Inr:
  assumes "derive_key ops c f q w = (Inr r, w')"
  shows "\<exists>p. ctx_profile c = Some p \<and> asked ops p f q (r = None) \<and>
    (r = None \<longrightarrow> (\<exists>k. fetched ops p f k \<and> w_files w' (path_sub (ctx_artifact_dir c) f) = Some k))"
proof -
  obtain v w1 where lv: "(case kq_vmpl q of None \<Rightarrow> current_vmpl c | Some v \<Rightarrow> iret v) w = (Inr v, w1)"
    and wp: "with_profile c (\<lambda>p.
     ibind (run_guest_command ops p (key_command f q v) (Some 30) False) (\<lambda>r.
       if gcr_exit_code r \<noteq> 0 then iret (Some (rejection_message r))
       else
         ibind (fetch_guest_file_bytes ops p f (Some 30)) (\<lambda>data.
         iseq (write_bytes (path_sub (ctx_artifact_dir c) f) data) (iret None)))) w1 = (Inr r, w')"
    using assms unfolding derive_key_def by (rule ibind_InrE)
  have v: "\<forall>x. kq_vmpl q = Some x \<longrightarrow> v = x" using lv by auto
  obtain p where p: "ctx_profile c = Some p" using wp by (cases "ctx_profile c") (auto simp: with_profile_def)
  have run: "(ibind (run_guest_command ops p (key_command f q v) (Some 30) False) (\<lambda>r.
       if gcr_exit_code r \<noteq> 0 then iret (Some (rejection_message r))
       else
         ibind (fetch_guest_file_bytes ops p f (Some 30)) (\<lambda>data.
         iseq (write_bytes (path_sub (ctx_artifact_dir c) f) data) (iret None)))) w1 = (Inr r, w')"
    using wp by (simp add: with_profile_def p)
  from run obtain g w2 where g: "run_guest_command ops p (key_command f q v) (Some 30) False w1 = (Inr g, w2)"
    and rest: "(if gcr_exit_code g \<noteq> 0 then iret (Some (rejection_message g))
       else
         ibind (fetch_guest_file_bytes ops p f (Some 30)) (\<lambda>data.
         iseq (write_bytes (path_sub (ctx_artifact_dir c) f) data) (iret None))) w2 = (Inr r, w')"
    by (rule ibind_InrE)
  have ok: "(gcr_exit_code g = 0) = (r = None)"
    using rest by (auto simp: iseq_def ibind_eq_Inr split: if_splits)
  have "\<exists>k. fetched ops p f k \<and> w_files w' (path_sub (ctx_artifact_dir c) f) = Some k" if "r = None"
  proof -
    from rest ok that obtain k w3 u where k: "fetch_guest_file_bytes ops p f (Some 30) w2 = (Inr k, w3)"
      "write_bytes (path_sub (ctx_artifact_dir c) f) k w3 = (Inr u, w')"
      by (auto simp: iseq_def ibind_eq_Inr)
    have "w_files w' (path_sub (ctx_artifact_dir c) f) = Some k"
      using write_read [OF k(2)] by (simp add: read_bytes_def split: option.splits if_splits)
    with k show ?thesis by (auto simp: fetched_def)
  qed
  with v p g ok show ?thesis unfolding asked_def answered_def by blast
qed

lemma imap_Inr:
  "imap f xs s = (Inr ys, s') \<Longrightarrow> list_all2 (\<lambda>x y. \<exists>s s'. f x s = (Inr y, s')) xs ys"
  by (induction xs arbitrary: s ys) (auto simp: ibind_eq_Inr)

lemma read_bytes_Inr: "read_bytes p w = (Inr b, w') \<longleftrightarrow> w' = w \<and> w_files w p = Some b"
  by (auto simp: read_bytes_def split: option.splits if_splits)

section \<open>Properties: the values of a sweep\<close>

text \<open>
  C27: the values of a sensitivity sweep: for every bound that is not negative they are in strictly
  ascending order, none is below 0 or above the bound, both ends are among them, there are never
  more than sixteen, and up to a bound of 15 they are all the values there are.
\<close>

theorem sweep_values_bounds:
  assumes "0 \<le> m"
  shows "sorted_wrt (<) (sweep_values m) \<and> set (sweep_values m) \<subseteq> {0..m} \<and>
    {0, m} \<subseteq> set (sweep_values m) \<and> length (sweep_values m) \<le> 16 \<and>
    (m < 16 \<longrightarrow> set (sweep_values m) = {0..m})"
proof (cases "m < 16")
  case True
  then show ?thesis using assms by (auto simp: sweep_values_def strict_sorted_iff)
next
  case False
  let ?l = "[0, 1, 2, m div 2 - 1, m div 2, m div 2 + 1, m - 2, m - 1, m]"
  have "length (remdups ?l) \<le> length ?l" by (rule length_remdups_leq)
  then have "length (sweep_values m) \<le> 9" using False by (simp add: sweep_values_def Let_def)
  moreover have "8 \<le> m div 2" "m div 2 + 1 \<le> m" using False by auto
  ultimately show ?thesis using False
    by (auto simp: sweep_values_def Let_def strict_sorted_iff simp del: remdups.simps)
qed

lemma distinct_sweep_values: "distinct (sweep_values m)"
  by (simp add: sweep_values_def Let_def del: remdups.simps)

section \<open>Properties: the bound of the SVN\<close>

lemma sensitivity_code:
  "hr_exit_code (sensitivity_result what lines keys t) = 0 \<longleftrightarrow> 2 \<le> length keys \<and> distinct (map snd keys)"
proof -
  have "length (remdups (map snd keys)) = length keys \<longleftrightarrow> distinct (map snd keys)"
    using length_remdups_eq [of "map snd keys"] remdups_id_iff_distinct [of "map snd keys"] by simp
  then show ?thesis by (auto simp: sensitivity_result_def)
qed

lemma swept_keys_in:
  "(v, k) \<in> set (swept_keys rs) \<Longrightarrow> (v, Inr k) \<in> set rs \<and> k \<noteq> []"
  by (auto simp: swept_keys_def split: sum.splits if_splits)

lemma swept_keys_distinct:
  "distinct (map fst rs) \<Longrightarrow> distinct (map fst (swept_keys rs)) \<and> fst ` set (swept_keys rs) \<subseteq> fst ` set rs"
proof (induction rs)
  case (Cons x rs)
  obtain v r where x: "x = (v, r)" by (cases x)
  have "swept_keys (x # rs) = (case r of Inr k \<Rightarrow> if k \<noteq> [] then [(v, k)] else [] | Inl _ \<Rightarrow> []) @ swept_keys rs"
    by (simp add: swept_keys_def x)
  then have "swept_keys (x # rs) = swept_keys rs \<or> (\<exists>k. swept_keys (x # rs) = (v, k) # swept_keys rs)"
    by (auto split: sum.splits)
  moreover have "v \<notin> fst ` set (swept_keys rs)" "fst ` set (swept_keys rs) \<subseteq> insert v (fst ` set rs)"
    "distinct (map fst (swept_keys rs))"
    using Cons by (auto simp: x)
  ultimately show ?case by (elim disjE exE) (simp_all add: x)
qed (simp add: swept_keys_def)

text \<open>At least two keys, each granted for a value of its own, no two of them equal.\<close>

definition distinct_keys :: "('v \<Rightarrow> bool) \<Rightarrow> 'v set \<Rightarrow> bool" where
  "distinct_keys granted values \<longleftrightarrow>
     (\<exists>keys :: ('v \<times> bytes) list. 2 \<le> length keys \<and> distinct (map fst keys) \<and> distinct (map snd keys) \<and>
        fst ` set keys \<subseteq> values \<and> (\<forall>(v, k) \<in> set keys. granted v))"

lemma sweep_svn_Inr:
  "sweep_svn ops c svn w = (Inr (Inr k), w') \<Longrightarrow>
     \<exists>p. ctx_profile c = Some p \<and> asked ops p (svn_key_file svn) (svn_request svn) True"
  by (auto simp: sweep_svn_def ibind_eq_Inr split: option.splits dest!: derive_key_Inr)

lemma svn_sensitivity_ok:
  assumes "svn_sensitivity ops c m lines w = (Inr hr, w')" "hr_exit_code hr = 0" "ctx_profile c = Some p" "m \<noteq> 0"
  shows "distinct_keys (\<lambda>s. asked ops p (svn_key_file s) (svn_request s) True) (set (sweep_values m))"
proof -
  obtain swept where s: "imap (sweep_svn ops c) (sweep_values m) w = (Inr swept, w')"
    and hr: "hr_exit_code hr = 0" "hr = sensitivity_result ''SVN'' (lines @ svn_unexpected (zip (sweep_values m) swept))
      (swept_keys (zip (sweep_values m) swept)) ''SVN values produce distinct keys''"
    using assms by (auto simp: svn_sensitivity_def ibind_eq_Inr Let_def)
  let ?rs = "zip (sweep_values m) swept"
  note all = imap_Inr [OF s]
  have len: "length swept = length (sweep_values m)" using list_all2_lengthD [OF all] by simp
  have fst: "map fst ?rs = sweep_values m" using len by simp
  have keys: "2 \<le> length (swept_keys ?rs)" "distinct (map snd (swept_keys ?rs))"
    using hr by (auto simp: sensitivity_code)
  have "distinct (map fst (swept_keys ?rs))" "fst ` set (swept_keys ?rs) \<subseteq> set (sweep_values m)"
    using swept_keys_distinct [of ?rs] distinct_sweep_values [of m] fst by (metis list.set_map)+
  moreover have "asked ops p (svn_key_file v) (svn_request v) True" if "(v, k) \<in> set (swept_keys ?rs)" for v k
  proof -
    from swept_keys_in [OF that] have in_rs: "(v, Inr k) \<in> set ?rs" and k: "k \<noteq> []" by blast+
    from in_rs all obtain u u' where "sweep_svn ops c v u = (Inr (Inr k), u')"
      by (auto simp: list_all2_iff)
    from sweep_svn_Inr [OF this] assms(3) k show ?thesis by auto
  qed
  ultimately show ?thesis using keys unfolding distinct_keys_def by blast
qed

lemma none_refused: "\<not> list_ex (\<lambda>r. r = None) rs \<Longrightarrow> r \<in> set rs \<Longrightarrow> r \<noteq> None"
  by (metis (mono_tags) list_ex_iff)

lemma svn_above_ok:
  assumes "svn_above_bound ops c m w = (Inr hr, w')" "hr_exit_code hr = 0" "ctx_profile c = Some p"
  shows "\<forall>s \<in> {m + 1..m + 3}. asked ops p (svn_above_file s) (svn_request s) False"
    "m \<noteq> 0 \<Longrightarrow> distinct_keys (\<lambda>s. asked ops p (svn_key_file s) (svn_request s) True) (set (sweep_values m))"
proof -
  let ?above = "[m + 1..m + 3]"
  obtain outcomes w1 where o: "imap (\<lambda>svn. derive_key ops c (svn_above_file svn) (svn_request svn)) ?above w = (Inr outcomes, w1)"
    and none: "\<not> list_ex (\<lambda>r. r = None) outcomes"
    and rest: "\<exists>lines. svn_sensitivity ops c m lines w1 = (Inr hr, w')"
    using assms(1,2) by (auto simp: svn_above_bound_def Let_def ibind_eq_Inr split: if_splits)
  show "m \<noteq> 0 \<Longrightarrow> distinct_keys (\<lambda>s. asked ops p (svn_key_file s) (svn_request s) True) (set (sweep_values m))"
    using rest svn_sensitivity_ok [OF _ assms(2,3)] by blast
  show "\<forall>s \<in> {m + 1..m + 3}. asked ops p (svn_above_file s) (svn_request s) False"
  proof
    fix s assume "s \<in> {m + 1..m + 3}"
    then have "s \<in> set ?above" by simp
    then obtain r u u' where r: "r \<in> set outcomes" and
      d: "derive_key ops c (svn_above_file s) (svn_request s) u = (Inr r, u')"
      using list_all2_mem [OF imap_Inr [OF o], of s] by blast
    have "r \<noteq> None" using none_refused [OF none r] .
    with derive_key_Inr [OF d] assms(3) show "asked ops p (svn_above_file s) (svn_request s) False" by auto
  qed
qed

text \<open>What the guest has shown of the bound of its SVN.\<close>

definition svn_bound_shown :: "'e ops \<Rightarrow> vm_profile \<Rightarrow> int \<Rightarrow> bool" where
  "svn_bound_shown ops p m \<longleftrightarrow>
     asked ops p ''svn_at_bound.bin'' (svn_request m) True \<and>
     (\<forall>s \<in> {m + 1..m + 3}. asked ops p (svn_above_file s) (svn_request s) False) \<and>
     (m = 0 \<or> distinct_keys (\<lambda>s. asked ops p (svn_key_file s) (svn_request s) True) (set (sweep_values m)))"

lemma test_svn_ok:
  assumes "test_svn ops c w = (Inr hr, w')" and "hr_exit_code hr = 0"
  shows "\<exists>report p. load_report (ctx_artifact_dir c) w = (Inr report, w) \<and> ctx_profile c = Some p \<and>
    svn_bound_shown ops p (rep_guest_svn report)"
proof -
  let ?d = "ctx_artifact_dir c"
  obtain report where report: "load_report ?d w = (Inr report, w)"
    and run: "(let max_svn = rep_guest_svn report in
     ibind (derive_key ops c ''svn_at_bound.bin'' (svn_request max_svn)) (\<lambda>at_bound.
     case at_bound of
       Some err \<Rightarrow> iret (handler_returns 1 []
         (''SVN='' @ str_int max_svn @ '' (the bound) was rejected, so rejections above it ''
          @ ''cannot be attributed to the bound: '' @ reason err) None)
     | None \<Rightarrow> svn_above_bound ops c max_svn)) w = (Inr hr, w')"
    using assms unfolding test_svn_def by (elim or_fail_with_ok) (auto simp: load_report_Inr)
  let ?m = "rep_guest_svn report"
  obtain at_bound w1 where b: "derive_key ops c ''svn_at_bound.bin'' (svn_request ?m) w = (Inr at_bound, w1)"
    using run by (auto simp: Let_def ibind_eq_Inr)
  have none: "at_bound = None" using run b assms(2) by (cases at_bound) (auto simp: Let_def ibind_def)
  obtain p where p: "ctx_profile c = Some p" "asked ops p ''svn_at_bound.bin'' (svn_request ?m) True"
    using derive_key_Inr [OF b] none by auto
  have "svn_above_bound ops c ?m w1 = (Inr hr, w')" using run b none by (simp add: Let_def ibind_def)
  from svn_above_ok [OF this assms(2) p(1)] report p show ?thesis unfolding svn_bound_shown_def by blast
qed


section \<open>Properties: the bound of the TCB\<close>

definition tcb_above_file :: "tcb_component \<Rightarrow> int \<Rightarrow> string" where
  "tcb_above_file cpt v = ''tcb_above_'' @ component_name cpt @ ''_'' @ str_int v @ ''.bin''"

text \<open>The components of a TCB version of a layout give it back.\<close>

lemma make_tcb_components:
  "(tcb_fmc t \<noteq> None) = (layout = Turin) \<Longrightarrow> make_tcb layout (components_of t) = t"
  by (cases t) (auto simp: make_tcb_def components_of_def split: option.splits)

lemma above_values_iff: "v \<in> set (above_values m) \<longleftrightarrow> m < v \<and> v \<le> m + 3 \<and> v \<le> 255"
  by (auto simp: above_values_def tcb_above_bound_steps_def)

lemma probe_component_ok:
  assumes "probe_component ops c layout (cpt, m) w = (Inr (lines, True), w')"
    and "v \<in> set (above_values m)" and "ctx_profile c = Some p"
  shows "\<exists>u. tcb_to_u64 (make_tcb layout [(cpt, v)]) layout = Inr u \<and>
    asked ops p (tcb_above_file cpt v) (tcb_request u) False"
proof -
  obtain outcomes where o: "imap (probe_tcb ops c layout cpt) (above_values m) w = (Inr outcomes, w')"
    and none: "\<not> list_ex (\<lambda>r. r = None) outcomes"
    using assms(1,2) by (auto simp: probe_component_def ibind_eq_Inr split: if_splits)
  obtain r s s' where r: "r \<in> set outcomes" "probe_tcb ops c layout cpt v s = (Inr r, s')"
    using list_all2_mem [OF imap_Inr [OF o] assms(2)] by blast
  then obtain u s1 where u: "tcb_to_u64 (make_tcb layout [(cpt, v)]) layout = Inr u"
    and d: "derive_key ops c (tcb_above_file cpt v) (tcb_request u) s1 = (Inr r, s')"
    by (auto simp: probe_tcb_def ibind_eq_Inr tcb_above_file_def)
  have "r \<noteq> None" using none_refused [OF none r(1)] .
  with derive_key_Inr [OF d] assms(3) u show ?thesis by auto
qed

lemma sweep_tcb_Inr:
  assumes "sweep_tcb ops c layout attempted plan w = (Inr rs, w')" and "ctx_profile c = Some p"
  defines "us \<equiv> map (\<lambda>((_, _, u), _). u) rs"
  shows "distinct us \<and> set us \<inter> set attempted = {} \<and>
    (\<forall>((cpt, v, u), r) \<in> set rs. (cpt, v) \<in> set plan \<and>
       tcb_to_u64 (make_tcb layout [(cpt, v)]) layout = Inr u \<and>
       (\<forall>k. r = Inr k \<longrightarrow> (\<exists>f. asked ops p f (tcb_request u) True))) \<and>
    (\<forall>(cpt, v) \<in> set plan. \<exists>u. tcb_to_u64 (make_tcb layout [(cpt, v)]) layout = Inr u \<and>
       u \<in> set us \<union> set attempted)"
  using assms(1) unfolding us_def
proof (induction plan arbitrary: attempted w rs w')
  case Nil
  then show ?case by simp
next
  case (Cons x plan)
  obtain cpt v where x: "x = (cpt, v)" by (cases x)
  let ?us = "map (\<lambda>((_, _, u), _). u)"
  from Cons.prems obtain u where u: "tcb_to_u64 (make_tcb layout [(cpt, v)]) layout = Inr u"
    and run: "(if List.member attempted u then sweep_tcb ops c layout attempted plan
     else
       let f = ''tcb_'' @ component_name cpt @ ''_'' @ str_int v @ ''.bin'' in
       ibind (derive_key ops c f (tcb_request u)) (\<lambda>r.
       ibind (case r of Some err \<Rightarrow> iret (Inl err) | None \<Rightarrow> ibind (read_key c f) (\<lambda>k. iret (Inr k))) (\<lambda>out.
       ibind (sweep_tcb ops c layout (u # attempted) plan) (\<lambda>outs.
         iret (((cpt, v, u), out) # outs))))) w = (Inr rs, w')"
    unfolding x sweep_tcb.simps by (elim ibind_InrE) (simp only: run_simps prod.inject)
  show ?case
  proof (cases "u \<in> set attempted")
    case True
    with run have "sweep_tcb ops c layout attempted plan w = (Inr rs, w')" by simp
    from Cons.IH [OF this] True u show ?thesis by (auto simp: x)
  next
    case False
    obtain f r w1 w2 w3 out outs where
      r: "derive_key ops c f (tcb_request u) w = (Inr r, w1)"
      and out: "(case r of Some err \<Rightarrow> iret (Inl err) | None \<Rightarrow> ibind (read_key c f) (\<lambda>k. iret (Inr k))) w1 = (Inr out, w2)"
      and outs: "sweep_tcb ops c layout (u # attempted) plan w2 = (Inr outs, w3)"
      and rs: "rs = ((cpt, v, u), out) # outs" "w3 = w'"
    proof -
      from run False have "(let f = ''tcb_'' @ component_name cpt @ ''_'' @ str_int v @ ''.bin'' in
       ibind (derive_key ops c f (tcb_request u)) (\<lambda>r.
       ibind (case r of Some err \<Rightarrow> iret (Inl err) | None \<Rightarrow> ibind (read_key c f) (\<lambda>k. iret (Inr k))) (\<lambda>out.
       ibind (sweep_tcb ops c layout (u # attempted) plan) (\<lambda>outs.
         iret (((cpt, v, u), out) # outs))))) w = (Inr rs, w')" by simp
      then show thesis unfolding Let_def by (elim ibind_InrE) (rule that, auto)
    qed
    have granted: "\<exists>f. asked ops p f (tcb_request u) True" if "out = Inr k" for k
      using derive_key_Inr [OF r] out that assms(2) by (cases r) auto
    show ?thesis using Cons.IH [OF outs] False granted u unfolding rs x by auto
  qed
qed

lemma launch_tcb_layout:
  assumes "parse_report_bytes data (Some (name, layout)) = Inr r" and "rep_launch_tcb r = Some t"
  shows "(tcb_fmc t \<noteq> None) = (layout = Turin)"
proof -
  obtain gen cnote where g: "choose_generation (Some (name, layout)) (report_cpuid data (report_version data)) = Inr (gen, cnote)"
    and d: "decode_tcbs data (report_version data) gen = Inr (rep_generation r, rep_reported_tcb r, rep_launch_tcb r)"
    using assms(1) by (rule parse_report_Inr)
  have "gen = Some (name, layout)" using choose_generation_host [OF g] .
  then have "tcb_from_bytes (subbytes off_launch_tcb 8 data) layout = Inr t"
    using d assms(2) by (auto simp: decode_tcbs_def rbind_eq_Inr split: if_splits)
  then show ?thesis by (cases layout) (auto simp: rbind_eq_Inr)
qed

text \<open>The TCB values the sensitivity sweep tries.\<close>

definition tcb_values_below :: "tcb_layout \<Rightarrow> tcb_version \<Rightarrow> int set" where
  "tcb_values_below layout t =
     {u. \<exists>(cpt, m) \<in> set (components_of t). \<exists>v \<in> set (sweep_values m).
        tcb_to_u64 (make_tcb layout [(cpt, v)]) layout = Inr u}"

lemma tcb_sweep_ok:
  assumes "sweep_tcb ops c layout [] (sweep_plan (components_of t)) w = (Inr rs, w')"
    and "hr_exit_code (tcb_sweep_result lines rs) = 0" and "ctx_profile c = Some p"
  shows "card (tcb_values_below layout t) \<le> 1 \<or>
    distinct_keys (\<lambda>u. \<exists>f. asked ops p f (tcb_request u) True) (tcb_values_below layout t)"
proof -
  let ?us = "map (\<lambda>((_, _, u), _). u) rs" and ?rs = "map (\<lambda>((_, _, u), r). (u, r)) rs"
  note s = sweep_tcb_Inr [OF assms(1,3)]
  have fst: "map fst ?rs = ?us" by (auto simp: case_prod_beta)
  have plan: "set (sweep_plan cs) = {(cpt, v). \<exists>m. (cpt, m) \<in> set cs \<and> v \<in> set (sweep_values m)}" for cs
    by (auto simp: sweep_plan_def)
  have us: "set ?us = tcb_values_below layout t"
  proof
    show "set ?us \<subseteq> tcb_values_below layout t"
      using s unfolding plan tcb_values_below_def by fastforce
    show "tcb_values_below layout t \<subseteq> set ?us"
    proof
      fix u assume "u \<in> tcb_values_below layout t"
      then obtain cpt m v where "(cpt, v) \<in> set (sweep_plan (components_of t))"
        and u: "tcb_to_u64 (make_tcb layout [(cpt, v)]) layout = Inr u"
        unfolding plan tcb_values_below_def by blast
      with s show "u \<in> set ?us" by fastforce
    qed
  qed
  show ?thesis
  proof (cases "length rs < 2")
    case True
    have "card (set ?us) \<le> length ?us" by (rule card_length)
    then show ?thesis using True us by simp
  next
    case False
    let ?keys = "swept_keys ?rs"
    have "2 \<le> length ?keys" "distinct (map snd ?keys)"
      using assms(2) False by (simp_all add: tcb_sweep_result_def Let_def sensitivity_code)
    moreover have "distinct (map fst ?keys)" "fst ` set ?keys \<subseteq> tcb_values_below layout t"
      using swept_keys_distinct [of ?rs] s fst us by (metis list.set_map)+
    moreover have "\<exists>f. asked ops p f (tcb_request u) True" if "(u, k) \<in> set ?keys" for u k
    proof -
      from swept_keys_in [OF that] have "(u, Inr k) \<in> set ?rs" by blast
      then show ?thesis using s by fastforce
    qed
    ultimately show ?thesis unfolding distinct_keys_def by blast
  qed
qed

lemma tcb_above_ok:
  assumes "tcb_above_bound ops c layout t w = (Inr hr, w')" "hr_exit_code hr = 0" "ctx_profile c = Some p"
  shows "\<forall>(cpt, m) \<in> set (components_of t). \<forall>v \<in> {m + 1..m + 3}. v \<le> 255 \<longrightarrow>
       (\<exists>u. tcb_to_u64 (make_tcb layout [(cpt, v)]) layout = Inr u \<and>
          asked ops p (tcb_above_file cpt v) (tcb_request u) False)"
    "card (tcb_values_below layout t) \<le> 1 \<or>
       distinct_keys (\<lambda>u. \<exists>f. asked ops p f (tcb_request u) True) (tcb_values_below layout t)"
proof -
  obtain probes w1 where pr: "imap (probe_component ops c layout) (components_of t) w = (Inr probes, w1)"
    and all: "list_all snd probes"
    and rest: "\<exists>lines. ibind (sweep_tcb ops c layout [] (sweep_plan (components_of t)))
      (\<lambda>rs. iret (tcb_sweep_result lines rs)) w1 = (Inr hr, w')"
    using assms(1,2) unfolding tcb_above_bound_def
    by (elim ibind_InrE) (auto simp: Let_def split: if_splits)
  from rest obtain lines rs w2 where sw: "sweep_tcb ops c layout [] (sweep_plan (components_of t)) w1 = (Inr rs, w2)"
    and hr: "hr = tcb_sweep_result lines rs"
    by (elim exE ibind_InrE) auto
  show "card (tcb_values_below layout t) \<le> 1 \<or>
       distinct_keys (\<lambda>u. \<exists>f. asked ops p f (tcb_request u) True) (tcb_values_below layout t)"
    by (rule tcb_sweep_ok [OF sw _ assms(3)]) (use hr assms(2) in simp)
  have "\<exists>u. tcb_to_u64 (make_tcb layout [(cpt, v)]) layout = Inr u \<and>
        asked ops p (tcb_above_file cpt v) (tcb_request u) False"
    if m: "(cpt, m) \<in> set (components_of t)" and v: "v \<in> {m + 1..m + 3}" "v \<le> 255" for cpt m v
  proof -
    obtain x u u' where x: "x \<in> set probes" "probe_component ops c layout (cpt, m) u = (Inr x, u')"
      using list_all2_mem [OF imap_Inr [OF pr] m] by blast
    have "snd x" using all x(1) by (metis list_all_iff)
    then obtain ls where "x = (ls, True)" by (cases x) simp
    with x have "probe_component ops c layout (cpt, m) u = (Inr (ls, True), u')" by simp
    from probe_component_ok [OF this _ assms(3)] v show ?thesis by (simp add: above_values_iff)
  qed
  then show "\<forall>(cpt, m) \<in> set (components_of t). \<forall>v \<in> {m + 1..m + 3}. v \<le> 255 \<longrightarrow>
       (\<exists>u. tcb_to_u64 (make_tcb layout [(cpt, v)]) layout = Inr u \<and>
          asked ops p (tcb_above_file cpt v) (tcb_request u) False)" by blast
qed

text \<open>What the guest has shown of the bound of its TCB.\<close>

definition tcb_bound_shown :: "'e ops \<Rightarrow> vm_profile \<Rightarrow> tcb_layout \<Rightarrow> tcb_version \<Rightarrow> bool" where
  "tcb_bound_shown ops p layout t \<longleftrightarrow>
     (\<exists>u. tcb_to_u64 t layout = Inr u \<and> asked ops p ''tcb_at_bound.bin'' (tcb_request u) True) \<and>
     (\<forall>(cpt, m) \<in> set (components_of t). \<forall>v \<in> {m + 1..m + 3}. v \<le> 255 \<longrightarrow>
        (\<exists>u. tcb_to_u64 (make_tcb layout [(cpt, v)]) layout = Inr u \<and>
           asked ops p (tcb_above_file cpt v) (tcb_request u) False)) \<and>
     (card (tcb_values_below layout t) \<le> 1 \<or>
        distinct_keys (\<lambda>u. \<exists>f. asked ops p f (tcb_request u) True) (tcb_values_below layout t))"

lemma test_tcb_ok:
  assumes "test_tcb ops c w = (Inr hr, w')" and "hr_exit_code hr = 0"
  shows "\<exists>report t name layout p. load_report (ctx_artifact_dir c) w = (Inr report, w) \<and>
    rep_launch_tcb report = Some t \<and> this_host_generation w = (Inr (name, layout), w) \<and> ctx_profile c = Some p \<and>
    tcb_bound_shown ops p layout t"
proof -
  let ?d = "ctx_artifact_dir c"
  obtain report where report: "load_report ?d w = (Inr report, w)"
    and run: "(case rep_launch_tcb report of
       None \<Rightarrow> iret (handler_returns 1 []
         (''LAUNCH_TCB could not be decoded (report version '' @ str_int (rep_version report)
          @ '', generation '' @ rep_generation report @ ''): it needs a version 3 or later ''
          @ ''report from a recognised processor generation (see attestation_report.py)'') None)
     | Some t \<Rightarrow>
         ibind this_host_generation (\<lambda>(_, layout). tcb_bound_test ops c layout t)) w = (Inr hr, w')"
    using assms unfolding test_tcb_def by (elim or_fail_with_ok) (auto simp: load_report_Inr)
  obtain t where t: "rep_launch_tcb report = Some t"
    using run assms(2) by (cases "rep_launch_tcb report") auto
  obtain name layout where g: "this_host_generation w = (Inr (name, layout), w)"
    and run2: "tcb_bound_test ops c layout t w = (Inr hr, w')"
    using run t by (auto simp: this_host_generation_def ibind_eq_Inr)
  have "(tcb_fmc t \<noteq> None) = (layout = Turin)"
    using report g launch_tcb_layout [OF _ t] by (auto simp: load_report_Inr report_bytes_def this_host_generation_def)
  note same = make_tcb_components [OF this]
  obtain u w1 at_bound where u: "tcb_to_u64 t layout = Inr u"
    and d: "derive_key ops c ''tcb_at_bound.bin'' (tcb_request u) w = (Inr at_bound, w1)"
    and rest: "(case at_bound of
       Some err \<Rightarrow> iret (handler_returns 1 []
         (''Launch TCB (u64=0x'' @ hex_pad16 (nat u) @ '') was rejected, so ''
          @ ''rejections above it cannot be attributed to the bound: '' @ reason err) None)
     | None \<Rightarrow> tcb_above_bound ops c layout t) w1 = (Inr hr, w')"
    using run2 unfolding tcb_bound_test_def same by (elim ibind_InrE) auto
  then have none: "at_bound = None" using assms(2) by (cases at_bound) auto
  obtain p where p: "ctx_profile c = Some p" "asked ops p ''tcb_at_bound.bin'' (tcb_request u) True"
    using derive_key_Inr [OF d] none by auto
  have "tcb_above_bound ops c layout t w1 = (Inr hr, w')" using rest none by simp
  note above = tcb_above_ok [OF this assms(2) p(1)]
  have "tcb_bound_shown ops p layout t"
    unfolding tcb_bound_shown_def by (intro conjI exI) (rule u p(2) above)+
  with report t g p(1) show ?thesis by blast
qed

text \<open>
  C9: what a passed TCB test has shown: the report's launch TCB was decoded with the layout of this
  host, the guest granted a key at exactly that TCB, and for every component of the layout it
  refused a key at each of the next three values, those that fit a byte, with the other components
  at zero; and either there was at most one TCB value to try below the bound, or keys were granted
  for at least two of them and no two keys were equal.
\<close>

theorem tcb_bound_enforced:
  assumes "test_tcb ops c w = (Inr hr, w')" and "hr_exit_code hr = 0"
  shows "\<exists>report t name layout p. load_report (ctx_artifact_dir c) w = (Inr report, w) \<and>
    rep_launch_tcb report = Some t \<and> this_host_generation w = (Inr (name, layout), w) \<and> ctx_profile c = Some p \<and>
    (\<exists>u. tcb_to_u64 t layout = Inr u \<and> asked ops p ''tcb_at_bound.bin'' (tcb_request u) True) \<and>
    (\<forall>(cpt, m) \<in> set (components_of t). \<forall>v \<in> {m + 1..m + 3}. v \<le> 255 \<longrightarrow>
       (\<exists>u. tcb_to_u64 (make_tcb layout [(cpt, v)]) layout = Inr u \<and>
          asked ops p (tcb_above_file cpt v) (tcb_request u) False)) \<and>
    (card (tcb_values_below layout t) \<le> 1 \<or>
       distinct_keys (\<lambda>u. \<exists>f. asked ops p f (tcb_request u) True) (tcb_values_below layout t))"
  using test_tcb_ok [OF assms] unfolding tcb_bound_shown_def .

text \<open>
  A refusal inside the sweep is not held against the guest: whatever is refused at or below the
  bound, the verdict of a sweep is that of the granted keys alone, so it is the same with and
  without the refused value.
\<close>

theorem refused_below_bound_not_counted:
  "(hr_exit_code (sensitivity_result what lines (swept_keys (before @ (v, Inl err) # later)) suffix_text) = 0) =
   (hr_exit_code (sensitivity_result what lines' (swept_keys (before @ later)) suffix_text') = 0)"
  by (simp add: sensitivity_code swept_keys_def)

section \<open>Properties: the privilege level\<close>

lemma detect_from_ok:
  assumes "detect_from ops c errors vs w = (Inr hr, w')" and "hr_exit_code hr = 0"
  shows "\<exists>below v above p. vs = below @ v # above \<and> ctx_profile c = Some p \<and>
    (\<forall>u \<in> set below. asked ops p (vmpl_probe_file u) (key_defaults\<lparr>kq_vmpl := Some u\<rparr>) False) \<and>
    asked ops p (vmpl_probe_file v) (key_defaults\<lparr>kq_vmpl := Some v\<rparr>) True \<and>
    w_files w' (path_sub (ctx_artifact_dir c) vmpl_file) = Some (encode (str_int v))"
  using assms
proof (induction vs arbitrary: errors w)
  case (Cons v vs)
  obtain r w1 where d: "derive_key ops c (vmpl_probe_file v) (key_defaults\<lparr>kq_vmpl := Some v\<rparr>) w = (Inr r, w1)"
    and rest: "(case r of
         None \<Rightarrow> iseq (write_bytes (path_sub (ctx_artifact_dir c) vmpl_file) (encode (str_int v)))
                      (iret (handler_returns 0 (''Running VMPL: '' @ str_int v) [] None))
       | Some err \<Rightarrow> detect_from ops c (errors @ [''VMPL'' @ str_int v @ '': '' @ err]) vs) w1 = (Inr hr, w')"
    using Cons.prems(1) unfolding detect_from.simps by (rule ibind_InrE)
  obtain p where p: "ctx_profile c = Some p"
    "asked ops p (vmpl_probe_file v) (key_defaults\<lparr>kq_vmpl := Some v\<rparr>) (r = None)"
    using derive_key_Inr [OF d] by blast
  show ?case
  proof (cases r)
    case None
    then obtain u where "write_bytes (path_sub (ctx_artifact_dir c) vmpl_file) (encode (str_int v)) w1 = (Inr u, w')"
      using rest by (auto simp: iseq_def ibind_eq_Inr)
    from write_read [OF this] have "w_files w' (path_sub (ctx_artifact_dir c) vmpl_file) = Some (encode (str_int v))"
      by (simp add: read_bytes_Inr)
    with None p show ?thesis by (intro exI [of _ "[]"]) auto
  next
    case (Some err)
    with rest have "detect_from ops c (errors @ [''VMPL'' @ str_int v @ '': '' @ err]) vs w1 = (Inr hr, w')" by simp
    from Cons.IH [OF this Cons.prems(2)] obtain below u above where
      "vs = below @ u # above"
      "\<forall>u \<in> set below. asked ops p (vmpl_probe_file u) (key_defaults\<lparr>kq_vmpl := Some u\<rparr>) False"
      "asked ops p (vmpl_probe_file u) (key_defaults\<lparr>kq_vmpl := Some u\<rparr>) True"
      "w_files w' (path_sub (ctx_artifact_dir c) vmpl_file) = Some (encode (str_int u))"
      using p(1) by auto
    with Some p show ?thesis by (intro exI [of _ "v # below"]) auto
  qed
qed auto

text \<open>
  C20: the level that is recorded is the lowest one granted: when the detection succeeds, the
  recorded level lies between 0 and 3, the guest granted a key at it and refused one at every
  lower level, and the later steps read exactly this level back from the file.
\<close>

theorem detected_vmpl_is_least:
  assumes "detect_vmpl ops c w = (Inr hr, w')" and "hr_exit_code hr = 0"
  shows "\<exists>v p. 0 \<le> v \<and> v \<le> 3 \<and> ctx_profile c = Some p \<and>
    asked ops p (vmpl_probe_file v) (key_defaults\<lparr>kq_vmpl := Some v\<rparr>) True \<and>
    (\<forall>u \<in> {0..<v}. asked ops p (vmpl_probe_file u) (key_defaults\<lparr>kq_vmpl := Some u\<rparr>) False) \<and>
    current_vmpl c w' = (Inr v, w')"
proof -
  obtain below v above p where vs: "[0, 1, 2, 3] = below @ v # above" and p: "ctx_profile c = Some p"
    "\<forall>u \<in> set below. asked ops p (vmpl_probe_file u) (key_defaults\<lparr>kq_vmpl := Some u\<rparr>) False"
    "asked ops p (vmpl_probe_file v) (key_defaults\<lparr>kq_vmpl := Some v\<rparr>) True"
    and f: "w_files w' (path_sub (ctx_artifact_dir c) vmpl_file) = Some (encode (str_int v))"
    using detect_from_ok [of ops c "[]" "[0, 1, 2, 3]" w hr w'] assms unfolding detect_vmpl_def by blast
  have v: "v \<in> {0, 1, 2, 3}" "{0..<v} \<subseteq> set below"
    using vs by (auto simp: Cons_eq_append_conv)
  have "list_all is_ascii (str_int v) \<and> list_all (\<lambda>c. c \<noteq> CHR 0x0D) (str_int v) \<and> py_int (str_int v) = Some v"
    using v(1) by (elim insertE emptyE; simp; code_simp)
  then have "current_vmpl c w' = (Inr v, w')"
    using ascii_text [of "str_int v"] f
    by (simp add: current_vmpl_def read_text_def ibind_def read_bytes_def int_or_raise_def)
  with v p show ?thesis by (intro exI [of _ v] exI [of _ p]) auto
qed

section \<open>Properties: comparisons of keys\<close>

text \<open>The command channel does not touch the files of the host.\<close>

definition channel_leaves_files :: "'e ops \<Rightarrow> bool" where
  "channel_leaves_files ops \<longleftrightarrow>
     (\<forall>F. (\<forall>a b t. keeps (has_files F) (ext (op_connect ops a b t))) \<and>
       (\<forall>s b. keeps (has_files F) (ext (op_sendall ops s b))) \<and>
       (\<forall>s. keeps (has_files F) (ext (op_recv ops s))) \<and>
       (\<forall>s. keeps (has_files F) (ext (op_close ops s))))"

lemma channel_keeps:
  assumes "channel_leaves_files ops"
  shows "keeps (has_files F) (run_guest_command ops p cmd t False)"
    "keeps (has_files F) (fetch_guest_file_bytes ops p f t)"
proof -
  have quiet: "keeps (has_files F) (ext (op_connect ops a b t))" "keeps (has_files F) (ext (op_sendall ops s d))"
    "keeps (has_files F) (ext (op_recv ops s))" "keeps (has_files F) (ext (op_close ops s))" for a b t s d
    using assms unfolding channel_leaves_files_def by blast+
  have recv: "keeps (has_files F) (recv_part ops n)" for n
    unfolding recv_part_def by (intro keeps_intro quiet)
  have parts: "keeps (has_files F) (vsock_connect ops p t)" "keeps (has_files F) (send_request ops n j)"
    "keeps (has_files F) (read_response ops n m)" for t n j m
    unfolding vsock_connect_def send_request_def read_response_def
    by (intro keeps_intro recv_loop_keeps recv quiet)+
  show run: "keeps (has_files F) (run_guest_command ops p cmd t False)" for cmd t
    unfolding run_guest_command_def vsock_request_def iwhen_def Let_def now_def elapsed_ms_def
    by (simp, intro keeps_intro parts quiet)
  show "keeps (has_files F) (fetch_guest_file_bytes ops p f t)"
    unfolding fetch_guest_file_bytes_def by (intro keeps_intro run)
qed

lemma read_text_keeps_files: "current_vmpl c w = (r, w') \<Longrightarrow> w_files w' = w_files w"
proof -
  have "keeps (\<lambda>v. w_files v = F) (current_vmpl c :: ('a world, int) io)" for F
    unfolding current_vmpl_def by (intro keeps_intro reading_keeps)
  from keeps_run [OF this] show "current_vmpl c w = (r, w') \<Longrightarrow> w_files w' = w_files w" by blast
qed

text \<open>What a request leaves on the host: the key that was fetched, in its file, and nothing else.\<close>

lemma derive_key_files:
  assumes "derive_key ops c f q w = (Inr r, w')" and "channel_leaves_files ops"
  shows "\<exists>p. ctx_profile c = Some p \<and> asked ops p f q (r = None) \<and>
    (if r = None
     then \<exists>k. fetched ops p f k \<and> w_files w' = (w_files w)(path_sub (ctx_artifact_dir c) f \<mapsto> k)
     else w_files w' = w_files w)"
proof -
  obtain v w1 where lv: "(case kq_vmpl q of None \<Rightarrow> current_vmpl c | Some v \<Rightarrow> iret v) w = (Inr v, w1)"
    and wp: "with_profile c (\<lambda>p.
     ibind (run_guest_command ops p (key_command f q v) (Some 30) False) (\<lambda>r.
       if gcr_exit_code r \<noteq> 0 then iret (Some (rejection_message r))
       else
         ibind (fetch_guest_file_bytes ops p f (Some 30)) (\<lambda>data.
         iseq (write_bytes (path_sub (ctx_artifact_dir c) f) data) (iret None)))) w1 = (Inr r, w')"
    using assms(1) unfolding derive_key_def by (rule ibind_InrE)
  have v: "\<forall>x. kq_vmpl q = Some x \<longrightarrow> v = x" and w1: "w_files w1 = w_files w"
    using lv read_text_keeps_files by (auto split: option.splits)
  obtain p where p: "ctx_profile c = Some p" using wp by (cases "ctx_profile c") (auto simp: with_profile_def)
  obtain g w2 where g: "run_guest_command ops p (key_command f q v) (Some 30) False w1 = (Inr g, w2)"
    and rest: "(if gcr_exit_code g \<noteq> 0 then iret (Some (rejection_message g))
       else
         ibind (fetch_guest_file_bytes ops p f (Some 30)) (\<lambda>data.
         iseq (write_bytes (path_sub (ctx_artifact_dir c) f) data) (iret None))) w2 = (Inr r, w')"
    using wp unfolding with_profile_def p option.case by (rule ibind_InrE)
  have w2: "w_files w2 = w_files w"
    using keeps_run [OF channel_keeps(1) [OF assms(2)] g, of "w_files w1"] w1 by (simp add: has_files_def)
  have ok: "(gcr_exit_code g = 0) = (r = None)"
    using rest by (auto simp: iseq_def ibind_eq_Inr split: if_splits)
  have asked: "asked ops p f q (r = None)" using v g ok unfolding asked_def answered_def by blast
  show ?thesis
  proof (cases "r = None")
    case True
    with rest ok obtain k w3 u where k: "fetch_guest_file_bytes ops p f (Some 30) w2 = (Inr k, w3)"
      "write_bytes (path_sub (ctx_artifact_dir c) f) k w3 = (Inr u, w')"
      by (auto simp: iseq_def ibind_eq_Inr)
    have "w_files w3 = w_files w"
      using keeps_run [OF channel_keeps(2) [OF assms(2)] k(1), of "w_files w2"] w2 by (simp add: has_files_def)
    then have "w_files w' = (w_files w)(path_sub (ctx_artifact_dir c) f \<mapsto> k)"
      using k(2) by (auto simp: write_bytes_def split: option.splits)
    then show ?thesis using True k p asked unfolding fetched_def by auto
  next
    case False
    with rest ok w2 show ?thesis using p asked by auto
  qed
qed

lemma compare_keys_ok:
  assumes "compare_keys ops c f1 q1 f2 q2 same good bad w = (Inr hr, w')" and "hr_exit_code hr = 0"
    and "channel_leaves_files ops"
    and "path_sub (ctx_artifact_dir c) f1 \<noteq> path_sub (ctx_artifact_dir c) f2"
  shows "\<exists>p k1 k2. ctx_profile c = Some p \<and> asked ops p f1 q1 True \<and> asked ops p f2 q2 True \<and>
    fetched ops p f1 k1 \<and> fetched ops p f2 k2 \<and> (k1 = k2) = same"
proof -
  let ?p1 = "path_sub (ctx_artifact_dir c) f1" and ?p2 = "path_sub (ctx_artifact_dir c) f2"
  obtain r1 w1 where r1: "derive_key ops c f1 q1 w = (Inr r1, w1)"
    and s1: "ibind (derive_key ops c f2 q2) (\<lambda>r2.
     if r1 \<noteq> None \<or> r2 \<noteq> None then iret (handler_returns 1 [] (first_refusal r1 r2) None)
     else
       ibind (read_key c f1) (\<lambda>k1.
       ibind (read_key c f2) (\<lambda>k2.
         if (k1 = k2) = same then iret (handler_returns 0 good [] None)
         else iret (handler_returns 1 [] bad None)))) w1 = (Inr hr, w')"
    using assms(1) unfolding compare_keys_def by (rule ibind_InrE)
  obtain r2 w2 where r2: "derive_key ops c f2 q2 w1 = (Inr r2, w2)"
    and s2: "(if r1 \<noteq> None \<or> r2 \<noteq> None then iret (handler_returns 1 [] (first_refusal r1 r2) None)
     else
       ibind (read_key c f1) (\<lambda>k1.
       ibind (read_key c f2) (\<lambda>k2.
         if (k1 = k2) = same then iret (handler_returns 0 good [] None)
         else iret (handler_returns 1 [] bad None)))) w2 = (Inr hr, w')"
    using s1 by (rule ibind_InrE)
  have none: "r1 = None" "r2 = None" using s2 assms(2) by (auto split: if_splits)
  obtain p k1 where k1: "ctx_profile c = Some p" "asked ops p f1 q1 True" "fetched ops p f1 k1"
    "w_files w1 = (w_files w)(?p1 \<mapsto> k1)"
    using derive_key_files [OF r1 assms(3)] none by auto
  obtain k2 where k2: "asked ops p f2 q2 True" "fetched ops p f2 k2" "w_files w2 = (w_files w1)(?p2 \<mapsto> k2)"
    using derive_key_files [OF r2 assms(3)] none k1(1) by auto
  have files: "w_files w2 ?p1 = Some k1" "w_files w2 ?p2 = Some k2" using k1 k2 assms(4) by simp_all
  have "hr = (if (k1 = k2) = same then handler_returns 0 good [] None else handler_returns 1 [] bad None)"
    using s2 none files by (auto simp: read_key_def ibind_def read_bytes_def split: if_splits)
  then have "(k1 = k2) = same" using assms(2) by (auto split: if_splits)
  with k1 k2 show ?thesis by blast
qed

lemma path_sub_distinct:
  "\<not> startswith f ''/'' \<Longrightarrow> \<not> startswith g ''/'' \<Longrightarrow> path_parts (path_of f) \<noteq> path_parts (path_of g) \<Longrightarrow>
     path_sub d f \<noteq> path_sub d g"
  by (simp add: path_sub_relative)

text \<open>
  C19: the comparisons compare what the guest derived: when one of the three tests of two keys
  succeeds, the guest granted both requests, and the bytes it then delivered for them are equal
  for the test of determinism and different for the root keys and for the field selections; no
  key left over from an earlier request is compared. The channel is assumed to leave the host's
  files alone.
\<close>

theorem key_comparisons_sound:
  assumes "(handler, f1, q1, f2, q2, same) \<in>
      {(test_determinism ops, ''det_key1.bin'', key_defaults, ''det_key2.bin'', key_defaults, True),
       (test_root_key_difference ops, ''vcek_key.bin'', key_defaults\<lparr>kq_root := ''vcek''\<rparr>,
          ''vmrk_key.bin'', key_defaults\<lparr>kq_root := ''vmrk''\<rparr>, False),
       (test_gfs ops, ''gfs1_key.bin'', key_defaults\<lparr>kq_gfs := 1\<rparr>,
          ''gfs2_key.bin'', key_defaults\<lparr>kq_gfs := 2\<rparr>, False)}"
    and "handler c w = (Inr hr, w')" and "hr_exit_code hr = 0" and "channel_leaves_files ops"
  shows "\<exists>p k1 k2. ctx_profile c = Some p \<and> asked ops p f1 q1 True \<and> asked ops p f2 q2 True \<and>
    fetched ops p f1 k1 \<and> fetched ops p f2 k2 \<and> (k1 = k2) = same"
proof -
  obtain good bad where run: "compare_keys ops c f1 q1 f2 q2 same good bad w = (Inr hr, w')"
    using assms(1,2) by (auto simp: test_determinism_def test_root_key_difference_def test_gfs_def)
  have "(f1, f2) \<in> {(''det_key1.bin'', ''det_key2.bin''), (''vcek_key.bin'', ''vmrk_key.bin''),
      (''gfs1_key.bin'', ''gfs2_key.bin'')}"
    using assms(1) by blast
  then have "\<not> startswith f1 ''/'' \<and> \<not> startswith f2 ''/'' \<and> path_parts (path_of f1) \<noteq> path_parts (path_of f2)"
    by (elim insertE emptyE; simp only: prod.inject; elim conjE; hypsubst; code_simp)
  then have "path_sub (ctx_artifact_dir c) f1 \<noteq> path_sub (ctx_artifact_dir c) f2" using path_sub_distinct by blast
  from compare_keys_ok [OF run assms(3,4) this] show ?thesis .
qed

section \<open>Properties: mixing of guest fields\<close>

definition gfs_bit_file :: "nat \<Rightarrow> string" where
  "gfs_bit_file n = ''gfs_bit'' @ nat_str 10 n @ ''.bin''"

lemma mix_bit_ok:
  assumes "mix_bit ops c baseline (n, label) w = (Inr (Inr line), w')" and "channel_leaves_files ops"
    and "ctx_profile c = Some p"
  shows "asked ops p (gfs_bit_file n) (key_defaults\<lparr>kq_gfs := push_bit n 1\<rparr>) True \<and>
    (\<exists>k. fetched ops p (gfs_bit_file n) k \<and> k \<noteq> baseline)"
proof -
  obtain r w1 where d: "derive_key ops c (gfs_bit_file n) (key_defaults\<lparr>kq_gfs := push_bit n 1\<rparr>) w = (Inr r, w1)"
    and rest: "(case r of
            Some err \<Rightarrow> iret (Inl (''GFS bit '' @ nat_str 10 n @ '' ('' @ label @ ''): '' @ ''derivation failed: '' @ err))
          | None \<Rightarrow> ibind (read_key c (gfs_bit_file n)) (\<lambda>k.
              iret (if k \<noteq> baseline then Inr (''GFS bit '' @ nat_str 10 n @ '' ('' @ label @ ''): '' @ ''differs from baseline'')
                    else Inl (''GFS bit '' @ nat_str 10 n @ '' ('' @ label @ ''): '' @ ''same as baseline'')))) w1
        = (Inr (Inr line), w')"
    using assms(1) unfolding mix_bit_def prod.case Let_def gfs_bit_file_def append_assoc by (rule ibind_InrE)
  have none: "r = None" using rest by (cases r) auto
  obtain k where k: "asked ops p (gfs_bit_file n) (key_defaults\<lparr>kq_gfs := push_bit n 1\<rparr>) True"
    "fetched ops p (gfs_bit_file n) k" "w_files w1 = (w_files w)(path_sub (ctx_artifact_dir c) (gfs_bit_file n) \<mapsto> k)"
    using derive_key_files [OF d assms(2)] none assms(3) by auto
  have "k \<noteq> baseline" using rest none k(3)
    by (auto simp: ibind_def read_key_def read_bytes_def split: if_splits)
  with k show ?thesis by blast
qed

lemma lefts_none: "lefts xs = [] \<Longrightarrow> x \<in> set xs \<Longrightarrow> \<exists>b. x = Inr b"
  by (induction xs) (auto simp: lefts_def split: sum.splits)

text \<open>
  A passed mixing test has compared each of the six fields: the guest granted the key that mixes
  no field, and for each bit from 0 to 5 a key that mixes that field alone, and the bytes it
  delivered for the bit differ from those it delivered for none.
\<close>

theorem every_field_mixes:
  assumes "test_gfs_field_mixing ops c w = (Inr hr, w')" and "hr_exit_code hr = 0"
    and "channel_leaves_files ops"
  shows "\<exists>p baseline. ctx_profile c = Some p \<and> fetched ops p ''gfs_baseline.bin'' baseline \<and>
    asked ops p ''gfs_baseline.bin'' (key_defaults\<lparr>kq_gfs := 0\<rparr>) True \<and>
    (\<forall>n < 6. asked ops p (gfs_bit_file n) (key_defaults\<lparr>kq_gfs := push_bit n 1\<rparr>) True \<and>
       (\<exists>k. fetched ops p (gfs_bit_file n) k \<and> k \<noteq> baseline))"
proof -
  obtain r w1 where d: "derive_key ops c ''gfs_baseline.bin'' (key_defaults\<lparr>kq_gfs := 0\<rparr>) w = (Inr r, w1)"
    and rest: "(case r of
       Some err \<Rightarrow> iret (handler_returns 1 [] (''Baseline derivation failed: '' @ err) None)
     | None \<Rightarrow>
     ibind (read_key c ''gfs_baseline.bin'') (\<lambda>baseline.
     ibind (imap (mix_bit ops c baseline) gfs_bits) (\<lambda>outs.
       if lefts outs \<noteq> [] then iret (handler_returns 1 [] (join nl (lefts outs)) None)
       else iret (handler_returns 0 (join nl (rights outs)) [] None)))) w1 = (Inr hr, w')"
    using assms(1) unfolding test_gfs_field_mixing_def by (rule ibind_InrE)
  have none: "r = None" using rest assms(2) by (cases r) auto
  obtain p baseline where b: "ctx_profile c = Some p" "fetched ops p ''gfs_baseline.bin'' baseline"
    "asked ops p ''gfs_baseline.bin'' (key_defaults\<lparr>kq_gfs := 0\<rparr>) True"
    "w_files w1 = (w_files w)(path_sub (ctx_artifact_dir c) ''gfs_baseline.bin'' \<mapsto> baseline)"
    using derive_key_files [OF d assms(3)] none by auto
  have read: "read_key c ''gfs_baseline.bin'' w1 = (Inr baseline, w1)"
    using b(4) by (simp add: read_key_def read_bytes_def)
  have "ibind (imap (mix_bit ops c baseline) gfs_bits) (\<lambda>outs.
       if lefts outs \<noteq> [] then iret (handler_returns 1 [] (join nl (lefts outs)) None)
       else iret (handler_returns 0 (join nl (rights outs)) [] None)) w1 = (Inr hr, w')"
    using rest none by (simp only: option.case ibind_simps(1) [where m = "read_key c ''gfs_baseline.bin''", OF read])
  then obtain outs w2 where o: "imap (mix_bit ops c baseline) gfs_bits w1 = (Inr outs, w2)"
    and last: "(if lefts outs \<noteq> [] then iret (handler_returns 1 [] (join nl (lefts outs)) None)
       else iret (handler_returns 0 (join nl (rights outs)) [] None)) w2 = (Inr hr, w')"
    by (rule ibind_InrE)
  have empty: "lefts outs = []" using last assms(2) by (auto split: if_splits)
  have "asked ops p (gfs_bit_file n) (key_defaults\<lparr>kq_gfs := push_bit n 1\<rparr>) True \<and>
       (\<exists>k. fetched ops p (gfs_bit_file n) k \<and> k \<noteq> baseline)" if n: "n < 6" for n
  proof -
    have "n \<in> {0, 1, 2, 3, 4, 5}" using n by auto
    then have "\<exists>label. (n, label) \<in> set gfs_bits"
      by (elim insertE emptyE; simp add: gfs_bits_def)
    then obtain label where "(n, label) \<in> set gfs_bits" by blast
    from list_all2_mem [OF imap_Inr [OF o] this] obtain x u u' where "x \<in> set outs"
      "mix_bit ops c baseline (n, label) u = (Inr x, u')" by blast
    with lefts_none [OF empty] obtain line where "mix_bit ops c baseline (n, label) u = (Inr (Inr line), u')" by blast
    from mix_bit_ok [OF this assms(3) b(1)] show ?thesis .
  qed
  with b show ?thesis by blast
qed

section \<open>Properties: two guests\<close>

text \<open>
  The comparison across two guests: when the first guest's step and, with the saved file
  untouched in between, the second guest's step both succeed, each guest granted the default
  request, and the bytes the two delivered are the same; the second guest's key, stored under the
  first key's name, does not hide a difference.
\<close>

theorem cross_guest_keys_equal:
  assumes "channel_leaves_files ops"
    and "save_cross_cvm_key ops c w = (Inr hr, w1)" "hr_exit_code hr = 0"
    and "verify_cross_cvm_key ops c' w2 = (Inr hr', w3)" "hr_exit_code hr' = 0"
    and "ctx_artifact_dir c' = ctx_artifact_dir c"
    and "w_files w2 (path_sub (ctx_artifact_dir c) cross_key_1_file) = w_files w1 (path_sub (ctx_artifact_dir c) cross_key_1_file)"
  shows "\<exists>p p' k. ctx_profile c = Some p \<and> ctx_profile c' = Some p' \<and>
    asked ops p cross_key_file key_defaults True \<and> asked ops p' cross_key_file key_defaults True \<and>
    fetched ops p cross_key_file k \<and> fetched ops p' cross_key_file k"
proof -
  let ?d = "ctx_artifact_dir c"
  let ?f = "path_sub ?d cross_key_file" and ?g = "path_sub ?d cross_key_1_file"
  have "\<not> startswith cross_key_file ''/'' \<and> \<not> startswith cross_key_1_file ''/'' \<and>
      path_parts (path_of cross_key_file) \<noteq> path_parts (path_of cross_key_1_file)"
    unfolding cross_key_file_def cross_key_1_file_def by code_simp
  then have fg: "?f \<noteq> ?g" using path_sub_distinct by blast
  obtain r v1 where r: "derive_key ops c cross_key_file key_defaults w = (Inr r, v1)"
    and s: "(case r of
       Some err \<Rightarrow> iret (handler_returns 1 [] (''Key derivation failed: '' @ err) None)
     | None \<Rightarrow>
     ibind (read_key c cross_key_file) (\<lambda>k.
     iseq (write_bytes ?g k) (iret (handler_returns 0 ''Reference key saved from CVM 1'' [] None)))) v1 = (Inr hr, w1)"
    using assms(2) unfolding save_cross_cvm_key_def by (rule ibind_InrE)
  have none: "r = None" using s assms(3) by (cases r) auto
  obtain p k where k: "ctx_profile c = Some p" "asked ops p cross_key_file key_defaults True"
    "fetched ops p cross_key_file k" "w_files v1 = (w_files w)(?f \<mapsto> k)"
    using derive_key_files [OF r assms(1)] none by auto
  have saved: "w_files w1 ?g = Some k"
  proof -
    have "iseq (write_bytes ?g k) (iret (handler_returns 0 ''Reference key saved from CVM 1'' [] None)) v1 = (Inr hr, w1)"
      using s none k(4) by (simp add: ibind_def read_key_def read_bytes_def)
    then obtain u where "write_bytes ?g k v1 = (Inr u, w1)" by (auto simp: iseq_def ibind_eq_Inr)
    from write_read [OF this] show ?thesis by (simp add: read_bytes_Inr)
  qed
  obtain r' v2 where r': "derive_key ops c' cross_key_file key_defaults w2 = (Inr r', v2)"
    and s': "(case r' of
       Some err \<Rightarrow> iret (handler_returns 1 [] (''Key derivation failed in CVM 2: '' @ err) None)
     | None \<Rightarrow>
     ibind (iget (path_exists ?g)) (\<lambda>there.
     if \<not> there then iret (handler_returns 1 [] ''CVM 1 reference key not found'' None)
     else
       ibind (read_key c' cross_key_file) (\<lambda>k2.
       ibind (read_bytes ?g) (\<lambda>k1.
         if k1 = k2 then iret (handler_returns 0
           (''Keys match across two independent CVMs '' @ em_dash @ '' platform-bound derivation confirmed'') [] None)
         else iret (handler_returns 1 []
           (''Keys differ across CVMs '' @ em_dash @ '' derived key is not stable across CVM lifetimes'') None))))) v2
      = (Inr hr', w3)"
    using assms(4) unfolding verify_cross_cvm_key_def Let_def assms(6) by (rule ibind_InrE)
  have none': "r' = None" using s' assms(5) by (cases r') auto
  obtain p' k' where k': "ctx_profile c' = Some p'" "asked ops p' cross_key_file key_defaults True"
    "fetched ops p' cross_key_file k'" "w_files v2 = (w_files w2)(?f \<mapsto> k')"
    using derive_key_files [OF r' assms(1)] none' assms(6) by auto
  have "w_files v2 ?g = Some k" "w_files v2 ?f = Some k'" using k'(4) fg saved assms(7) by auto
  then have "k = k'"
    using s' none' assms(5,6) by (auto simp: ibind_def read_key_def read_bytes_def split: if_splits)
  with k k' show ?thesis by blast
qed

section \<open>Properties: a test that passed\<close>

lemmas key_derivation_plan_simps = key_derivation_plan_def plan_simps

lemma key_derivation_plan_accepted:
  "rmap (\<lambda>s. s) key_derivation_plan = Inr (map projr key_derivation_plan)"
  by (rule rmap_id_Inr) (simp add: key_derivation_plan_simps)

lemma key_derivation_loads:
  assumes "import_test_module mods test = Inr (key_derivation_mod tools ops)"
  shows "load_test_execution_plan mods test w = (Inr (map projr key_derivation_plan, Some key_derivation_profile), w)"
  by (simp add: load_test_execution_plan_def assms key_derivation_mod_def key_derivation_steps_def
      key_derivation_plan_accepted)

text \<open>The checks of the test, each a required step.\<close>

definition key_checks :: "'e ops \<Rightarrow> (string \<times> (ctx \<Rightarrow> ('e world, handler_result) io)) list" where
  "key_checks ops =
     [(''parse_report'', parse_report_handler), (''detect_vmpl'', detect_vmpl ops),
      (''test_determinism'', test_determinism ops), (''test_vmpl_isolation'', test_vmpl_isolation ops),
      (''test_root_key_difference'', test_root_key_difference ops), (''test_svn'', test_svn ops),
      (''test_tcb'', test_tcb ops), (''test_gfs'', test_gfs ops),
      (''test_gfs_field_mixing'', test_gfs_field_mixing ops),
      (''save_cross_cvm_key'', save_cross_cvm_key ops), (''verify_cross_cvm_key'', verify_cross_cvm_key ops)]"

lemma key_check_steps:
  "(name, h) \<in> set (key_checks ops) \<Longrightarrow>
     map_of (tm_attrs (key_derivation_mod tools ops)) name = Some (as_handler h) \<and>
     (\<exists>s \<in> set (map projr key_derivation_plan). step_kind s = Callable \<and> step_type s \<in> {Setup, Required} \<and>
        step_handler s = name \<and> step_expected_result s = default_expected_result)"
proof -
  assume "(name, h) \<in> set (key_checks ops)"
  moreover have "\<forall>(name, h) \<in> set (key_checks ops).
      map_of (tm_attrs (key_derivation_mod tools ops)) name = Some (as_handler h)"
    by (simp add: key_checks_def key_derivation_mod_def key_derivation_handlers_def)
  moreover have "\<forall>name \<in> set (map fst (key_checks ops)). \<exists>s \<in> set (map projr key_derivation_plan).
      step_kind s = Callable \<and> step_type s \<in> {Setup, Required} \<and>
      step_handler s = name \<and> step_expected_result s = default_expected_result"
    by (simp add: key_checks_def key_derivation_plan_simps)
  ultimately show ?thesis by force
qed

lemma key_check_passed:
  assumes run: "execute_test ops mods cfg v test w = (Inr tr, w')" and pass: "tr_result tr = Pass"
    and m: "import_test_module mods test = Inr (key_derivation_mod tools ops)"
    and check: "(name, check) \<in> set (key_checks ops)"
  shows "\<exists>c u hr u'. ctx_artifact_dir c = test_artifact_dir (rc_artifacts_root cfg) v test \<and>
    check c u = (Inr hr, u') \<and> hr_exit_code hr = 0"
proof -
  let ?m = "key_derivation_mod tools ops" and ?a = "test_artifact_dir (rc_artifacts_root cfg) v test"
  let ?P = "\<lambda>c. ctx_artifact_dir c = ?a" and ?steps = "map projr key_derivation_plan"
  have gen: "keeps (only_profile c) (generate_id_block tools ops)" for c
    unfolding generate_id_block_def Let_def by (intro keeps_intro only_profile_keeps)
  have P: "ctx_kept ?P ?m"
    by (rule ctx_keptI) (auto simp: key_derivation_mod_def key_derivation_handlers_def profile_attr_stateful gen)
  have init: "?P (es_ctx (initial_state cfg test ?a (Some key_derivation_profile) w))" by (simp add: initial_state_def)
  note h = key_check_steps [OF check, of tools]
  then obtain s where s: "s \<in> set ?steps" "step_kind s = Callable" "step_type s \<in> {Setup, Required}"
    "step_handler s = name" "step_expected_result s = default_expected_result"
    by blast
  obtain r where r: "sr_step r = s" "sr_result r = Pass"
    "produced ops ?m (rc_debug cfg) (rc_guest_path cfg) ?a ?P r"
    using passed_run [where P = ?P, OF run pass m key_derivation_loads [OF m] P init s(1,3)] by blast
  have "map_of (tm_attrs ?m) (step_handler (sr_step r)) = Some (as_handler check)"
    using h s(4) r(1) by simp
  from callable_passed [OF _ r(2) this _ r(3)] s r(1) show ?thesis by simp
qed


section \<open>Concrete instances\<close>

text \<open>A report with the guest SVN 1 and a launch TCB whose boot loader has version 1, and the files around it.\<close>

definition key_raw :: raw_report where
  "key_raw = demo_raw\<lparr>rr_guest_svn := [1, 0, 0, 0], rr_launch_tcb := [1, 0, 0, 0, 0, 0, 0, 0]\<rparr>"

definition key_world :: "bytes list \<Rightarrow> bytes list world" where
  "key_world script = (empty_world script)\<lparr>w_dirs := (\<lambda>q. q = demo_dir),
     w_files := [cpuinfo_path \<mapsto> encode demo_cpuinfo, Path [] [''a'', report_file] \<mapsto> render_report key_raw,
       Path [] [''a'', vmpl_file] \<mapsto> encode ''0'']\<rparr>"

lemma simple_names: "simple_name report_file" "simple_name vmpl_file"
  unfolding simple_name_def report_file_def vmpl_file_def by code_simp+

lemma key_world_state: "guest_state script [level_file] (key_world script)"
  by (simp add: guest_state_def level_file_def key_world_def sub_simple simple_names)
    (simp add: empty_world_def)

lemma key_raw_genoa: "genoa_raw key_raw"
  using demo_raw_genoa
  by (simp add: genoa_raw_def key_raw_def wf_raw_def raw_fields_def raw_widths_def demo_raw_def sample_raw_def)

lemma key_files:
  "w_files (key_world script) cpuinfo_path = Some (encode demo_cpuinfo)"
  "w_files (key_world script) (path_sub demo_dir report_file) = Some (render_report key_raw)"
  by (simp_all add: key_world_def sub_simple simple_names) (simp_all add: cpuinfo_path_def report_file_def vmpl_file_def)

lemma key_host: "this_host_generation (key_world script) = (Inr (''Genoa'', Legacy), key_world script)"
  by (simp add: this_host_generation_def genoa_host [OF key_files(1)])

definition key_tcb :: tcb_version where
  "key_tcb = \<lparr>tcb_bootloader = 1, tcb_tee = 0, tcb_snp = 0, tcb_microcode = 0, tcb_fmc = None\<rparr>"

lemma key_report:
  obtains rep where "load_report demo_dir (key_world script) = (Inr rep, key_world script)"
    "rep_guest_svn rep = 1" "rep_launch_tcb rep = Some key_tcb"
proof -
  obtain rep where rep: "report_bytes demo_dir (key_world script) (render_report key_raw) rep"
    using genoa_report_read [OF key_raw_genoa key_files] by blast
  then have load: "load_report demo_dir (key_world script) = (Inr rep, key_world script)"
    by (auto simp: load_report_Inr)
  have wf: "wf_raw key_raw" using key_raw_genoa by (simp add: genoa_raw_def)
  have parsed: "parse_report_bytes (render_report key_raw) (Some (''Genoa'', Legacy)) = Inr rep"
    using rep genoa_host [OF key_files(1)] by (auto simp: report_bytes_def key_files)
  have svn: "rep_guest_svn rep = 1"
    by (simp add: parsed_fields(2) [OF parsed] raw_offsets [OF wf]) (simp add: key_raw_def)
  obtain gen cnote where g: "choose_generation (Some (''Genoa'', Legacy))
      (report_cpuid (render_report key_raw) (report_version (render_report key_raw))) = Inr (gen, cnote)"
    and d: "decode_tcbs (render_report key_raw) (report_version (render_report key_raw)) gen
      = Inr (rep_generation rep, rep_reported_tcb rep, rep_launch_tcb rep)"
    using parsed by (rule parse_report_Inr)
  have "gen = Some (''Genoa'', Legacy)" using choose_generation_host [OF g] .
  then have "\<exists>t. rep_launch_tcb rep = Some t \<and> tcb_from_bytes (subbytes off_launch_tcb 8 (render_report key_raw)) Legacy = Inr t"
    using d genoa_facts [OF key_raw_genoa] by (auto simp: decode_tcbs_def rbind_eq_Inr simp del: tcb_from_bytes.simps)
  then have "rep_launch_tcb rep = Some key_tcb"
    by (auto simp: raw_offsets [OF wf]) (auto simp: key_raw_def key_tcb_def byte_at_def)
  with load svn that show thesis by blast
qed

lemma channel_of_script: "channel_leaves_files script_ops"
  unfolding channel_leaves_files_def script_ops_def idle_ops_def keeps_def ext_def has_files_def
  by (auto simp: iret_def split: list.splits)

theorem sweep_values_bounds_witness: "{0, 255} \<subseteq> set (sweep_values 255) \<and> length (sweep_values 255) \<le> 16"
  using sweep_values_bounds [of 255] by simp


text \<open>The level 0 is refused and the level 1 granted.\<close>

lemma key_run:
  assumes "reaches (guest_state script files) m (\<lambda>hr s. hr_exit_code hr = 0)" and "files \<in> {[], [level_file]}"
  obtains hr w' where "m (key_world script) = (Inr hr, w')" "hr_exit_code hr = 0"
proof -
  have "guest_state script files (key_world script)"
  proof (cases "files = []")
    case True
    then show ?thesis using key_world_state [of script] by (simp add: guest_state_def)
  next
    case False
    then show ?thesis using key_world_state assms(2) by simp
  qed
  from reachesE [OF assms(1) this] that show thesis by blast
qed

theorem detected_vmpl_is_least_witness:
  "\<exists>hr w' v. detect_vmpl script_ops id_ctx (key_world (refuses @ grants [1])) = (Inr hr, w') \<and>
     hr_exit_code hr = 0 \<and> current_vmpl id_ctx w' = (Inr v, w')"
proof -
  have level: "level_known (key_defaults\<lparr>kq_vmpl := Some v\<rparr>) []" for v by (simp add: level_known_def)
  have fresh: "fresh (vmpl_probe_file 1) []" "fresh vmpl_file [(vmpl_probe_file 1, [1])]"
    unfolding fresh_def simple_name_def vmpl_probe_file_def vmpl_file_def by code_simp+
  have store: "reaches (guest_state [] [(vmpl_probe_file 1, [1])])
      (iseq (write_bytes (path_sub demo_dir vmpl_file) (encode (str_int 1)))
        (iret (handler_returns 0 (''Running VMPL: '' @ str_int 1) [] None))) (\<lambda>hr s. hr_exit_code hr = 0)"
    by (rule reaches_iseq [OF write_simple [OF fresh(2)]]) (rule reaches_iret, simp)
  have one: "reaches (guest_state (grants [1] @ []) []) (detect_from script_ops id_ctx es [1, 2, 3])
      (\<lambda>hr s. hr_exit_code hr = 0)" for es
    unfolding detect_from.simps(2)
    by (rule reaches_step [OF derive_granted [OF level _ fresh(1)]], simp)
      (use store in \<open>simp add: id_ctx_simps\<close>)
  have "reaches (guest_state (refuses @ grants [1] @ []) []) (detect_vmpl script_ops id_ctx)
      (\<lambda>hr s. hr_exit_code hr = 0)"
    unfolding detect_vmpl_def detect_from.simps(2) [of _ _ _ 0]
    by (rule reaches_step [OF derive_refused [OF level]]) (simp only: option.case one)
  from key_run [OF this] obtain hr w' where "detect_vmpl script_ops id_ctx (key_world (refuses @ grants [1])) = (Inr hr, w')"
    "hr_exit_code hr = 0" by auto
  with detected_vmpl_is_least show ?thesis by blast
qed

text \<open>The key at the bound, three refusals above it, and two keys of the sweep.\<close>

definition svn_script :: "bytes list" where
  "svn_script = grants [0] @ concat (map (\<lambda>_. refuses) [2 :: int, 3, 4]) @ grants [1] @ grants [2] @ []"

lemma sweep_svn_granted:
  assumes "level_file \<in> set files" and "k \<in> {[0], [1], [2]}" and "fresh (svn_key_file v) files"
  shows "reaches (guest_state (grants k @ rest) files) (sweep_svn script_ops id_ctx v)
    (\<lambda>r s. r = Inr k \<and> guest_state rest ((svn_key_file v, k) # files) s)"
proof -
  have "level_known (svn_request v) files" using assms(1) by (simp add: level_known_def)
  then show ?thesis
    unfolding sweep_svn_def
    by (rule reaches_step [OF derive_granted [OF _ assms(2,3)]])
      (simp only: option.case, rule reaches_step, rule read_granted [where k = k], simp, simp add: reaches_def)
qed


lemma compare_reached:
  assumes "fresh f1 [level_file]" and "fresh f2 [(f1, k1), level_file]" and "{k1, k2} \<subseteq> {[0], [1], [2]}"
    and "(k1 = k2) = same" and "kq_vmpl q1 = None" "kq_vmpl q2 = None"
  shows "reaches (guest_state (grants k1 @ grants k2 @ []) [level_file])
    (compare_keys script_ops id_ctx f1 q1 f2 q2 same good bad) (\<lambda>hr s. hr_exit_code hr = 0)"
proof -
  let ?files = "[(f2, k2), (f1, k1), level_file]"
  have read: "reaches (guest_state [] ?files)
      (ibind (read_key id_ctx f1) (\<lambda>k1. ibind (read_key id_ctx f2) (\<lambda>k2.
         if (k1 = k2) = same then iret (handler_returns 0 good [] None)
         else iret (handler_returns 1 [] bad None)))) (\<lambda>hr s. hr_exit_code hr = 0)"
    by (rule reaches_step [where v = k1], rule read_granted, simp, rule reaches_step [where v = k2], rule read_granted, simp)
      (simp add: reaches_def assms(4))
  have level: "level_known q files" if "level_file \<in> set files" for q files
    using that by (simp add: level_known_def)
  show ?thesis
    unfolding compare_keys_def
    by (rule reaches_step, rule derive_granted [OF level _ assms(1)], simp, use assms(3) in blast,
        rule reaches_step, rule derive_granted [OF level _ assms(2)], simp, use assms(3) in blast)
      (use read in simp)
qed

theorem key_comparisons_sound_witness:
  "\<exists>hr w' k. test_determinism script_ops id_ctx (key_world (grants [1] @ grants [1] @ [])) = (Inr hr, w') \<and>
     hr_exit_code hr = 0 \<and> fetched script_ops demo_profile ''det_key1.bin'' k \<and> fetched script_ops demo_profile ''det_key2.bin'' k"
proof -
  have "fresh ''det_key1.bin'' [level_file]" "fresh ''det_key2.bin'' [(''det_key1.bin'', [1]), level_file]"
    unfolding fresh_def simple_name_def level_file_def vmpl_file_def by code_simp+
  note run = key_run [OF compare_reached [OF this, where ?k2.0 = "[1]" and same = True]]
  obtain hr w' where r: "test_determinism script_ops id_ctx (key_world (grants [1] @ grants [1] @ [])) = (Inr hr, w')"
    "hr_exit_code hr = 0"
    unfolding test_determinism_def by (rule run [of key_defaults key_defaults]) (auto simp: key_defaults_def)
  from key_comparisons_sound [of "test_determinism script_ops" "''det_key1.bin''" key_defaults "''det_key2.bin''"
      key_defaults True script_ops, OF _ r channel_of_script] r
  show ?thesis by (auto simp: id_ctx_simps)
qed

text \<open>The baseline and six keys that differ from it.\<close>

lemma mix_reached:
  assumes "level_file \<in> set files" and "fresh (gfs_bit_file n) files"
  shows "reaches (guest_state (grants [1] @ rest) files) (mix_bit script_ops id_ctx [0] (n, label))
    (\<lambda>r s. (\<exists>line. r = Inr line) \<and> guest_state rest ((gfs_bit_file n, [1]) # files) s)"
proof -
  have "level_known (key_defaults\<lparr>kq_gfs := push_bit n 1\<rparr>) files" using assms(1) by (simp add: level_known_def)
  then show ?thesis
    unfolding mix_bit_def prod.case Let_def gfs_bit_file_def [symmetric]
    by (rule reaches_step [OF derive_granted [OF _ _ assms(2)]], simp)
      (simp only: option.case, rule reaches_step, rule read_granted [where k = "[1]"], simp, simp add: reaches_def)
qed

fun all_fresh :: "string list \<Rightarrow> (string \<times> bytes) list \<Rightarrow> bool" where
  "all_fresh [] files = True"
| "all_fresh (f # fs) files = (fresh f files \<and> all_fresh fs ((f, [1]) # files))"

lemma mixes_reached:
  assumes "level_file \<in> set files" and "all_fresh (map (\<lambda>b. gfs_bit_file (fst b)) bits) files"
  shows "reaches (guest_state (concat (map (\<lambda>_. grants [1]) bits)) files) (imap (mix_bit script_ops id_ctx [0]) bits)
    (\<lambda>rs s. lefts rs = [])"
  using assms
proof (induction bits arbitrary: files)
  case Nil
  then show ?case by (simp add: reaches_def lefts_def)
next
  case (Cons b bits)
  let ?files = "(gfs_bit_file (fst b), [1]) # files"
  have "fresh (gfs_bit_file (fst b)) files" using Cons.prems(2) by simp
  note head = mix_reached [OF Cons.prems(1) this, of _ "snd b", simplified]
  have "reaches (guest_state (concat (map (\<lambda>_. grants [1]) bits)) ?files) (imap (mix_bit script_ops id_ctx [0]) bits)
      (\<lambda>rs s. lefts rs = [])"
    using Cons.IH [of ?files] Cons.prems by simp
  then have tail: "reaches (guest_state (concat (map (\<lambda>_. grants [1]) bits)) ?files)
      (ibind (imap (mix_bit script_ops id_ctx [0]) bits) (\<lambda>ys. iret (y # ys))) (\<lambda>rs s. lefts rs = [])"
    if "y = Inr line" for y line
    by (rule reaches_ibind [where Q = "\<lambda>rs s. lefts rs = []"]) (simp_all add: reaches_def lefts_def that)
  show ?case
    by (simp, rule reaches_ibind [OF head]) (use tail in \<open>auto simp: reaches_def\<close>)
qed

definition mix_script :: "bytes list" where
  "mix_script = grants [0] @ concat (map (\<lambda>_. grants [1]) gfs_bits)"

theorem every_field_mixes_witness:
  "\<exists>hr w' k. test_gfs_field_mixing script_ops id_ctx (key_world mix_script) = (Inr hr, w') \<and> hr_exit_code hr = 0 \<and>
     fetched script_ops demo_profile (gfs_bit_file 3) k"
proof -
  let ?base = "''gfs_baseline.bin''"
  have level: "level_known (key_defaults\<lparr>kq_gfs := 0\<rparr>) [level_file]" by (simp add: level_known_def)
  have fresh: "fresh ?base [level_file]"
    "all_fresh (map (\<lambda>b. gfs_bit_file (fst b)) gfs_bits) [(?base, [0]), level_file]"
    unfolding fresh_def simple_name_def level_file_def vmpl_file_def gfs_bit_file_def gfs_bits_def by code_simp+
  have bits: "reaches (guest_state (concat (map (\<lambda>_. grants [1]) gfs_bits)) [(?base, [0]), level_file])
      (ibind (imap (mix_bit script_ops id_ctx [0]) gfs_bits) (\<lambda>outs.
         if lefts outs \<noteq> [] then iret (handler_returns 1 [] (join nl (lefts outs)) None)
         else iret (handler_returns 0 (join nl (rights outs)) [] None))) (\<lambda>hr s. hr_exit_code hr = 0)"
    by (rule reaches_ibind, rule mixes_reached [OF _ fresh(2)], simp) (simp add: reaches_def)
  have "reaches (guest_state mix_script [level_file]) (test_gfs_field_mixing script_ops id_ctx) (\<lambda>hr s. hr_exit_code hr = 0)"
    unfolding test_gfs_field_mixing_def mix_script_def
    by (rule reaches_step, rule derive_granted [OF level _ fresh(1)], simp, simp only: option.case,
        rule reaches_step, rule read_granted [where k = "[0]"], simp, rule bits)
  from key_run [OF this] obtain hr w' where
    r: "test_gfs_field_mixing script_ops id_ctx (key_world mix_script) = (Inr hr, w')" "hr_exit_code hr = 0" by auto
  from every_field_mixes [OF r channel_of_script] obtain baseline where
    "\<forall>n < 6. asked script_ops demo_profile (gfs_bit_file n) (key_defaults\<lparr>kq_gfs := push_bit n 1\<rparr>) True \<and>
      (\<exists>k. fetched script_ops demo_profile (gfs_bit_file n) k \<and> k \<noteq> baseline)"
    unfolding id_ctx_simps option.inject by blast
  then have "\<exists>k. fetched script_ops demo_profile (gfs_bit_file 3) k" by (auto dest: spec [of _ 3])
  with r show ?thesis by blast
qed

text \<open>The same key in two guests.\<close>

theorem cross_guest_keys_equal_witness:
  "\<exists>hr w1 hr' w2 k. save_cross_cvm_key script_ops id_ctx (key_world (grants [1] @ grants [1] @ [])) = (Inr hr, w1) \<and>
     verify_cross_cvm_key script_ops id_ctx w1 = (Inr hr', w2) \<and> hr_exit_code hr = 0 \<and> hr_exit_code hr' = 0 \<and>
     fetched script_ops demo_profile cross_key_file k"
proof -
  have fresh: "fresh cross_key_file [level_file]" "fresh cross_key_1_file [(cross_key_file, [1]), level_file]"
    "fresh cross_key_file [(cross_key_1_file, [1]), level_file]"
    unfolding fresh_def simple_name_def level_file_def vmpl_file_def cross_key_file_def cross_key_1_file_def by code_simp+
  have level: "level_known key_defaults files" if "level_file \<in> set files" for files
    using that by (simp add: level_known_def)
  have "reaches (guest_state (grants [1] @ grants [1] @ []) [level_file]) (save_cross_cvm_key script_ops id_ctx)
      (\<lambda>hr s. hr_exit_code hr = 0 \<and> guest_state (grants [1] @ []) [(cross_key_1_file, [1]), level_file] s)"
    unfolding save_cross_cvm_key_def id_ctx_simps
    by (rule reaches_step, rule derive_granted [OF level _ fresh(1)], simp, simp, simp only: option.case,
        rule reaches_step, rule read_granted [where k = "[1]"], simp, rule reaches_iseq, rule write_simple [OF fresh(2)],
        rule reaches_iret) (auto simp: guest_state_def)
  from reachesE [OF this key_world_state] obtain hr w1 where
    s: "save_cross_cvm_key script_ops id_ctx (key_world (grants [1] @ grants [1] @ [])) = (Inr hr, w1)"
    "hr_exit_code hr = 0" and w1: "guest_state (grants [1] @ []) [(cross_key_1_file, [1]), level_file] w1" by blast
  have there: "reaches (guest_state [] fs) (iget (path_exists (path_sub demo_dir f))) (\<lambda>b s. b = True \<and> guest_state [] fs s)"
    if "(f, k) \<in> set fs" for f fs and k :: bytes
    using that by (auto simp: reaches_def guest_state_def path_exists_def)
  have "reaches (guest_state (grants [1] @ []) [(cross_key_1_file, [1]), level_file])
      (verify_cross_cvm_key script_ops id_ctx) (\<lambda>hr s. hr_exit_code hr = 0)"
    unfolding verify_cross_cvm_key_def id_ctx_simps Let_def
    by (rule reaches_step, rule derive_granted [OF level _ fresh(3)], simp, simp, simp only: option.case,
        rule reaches_step, rule there [where k = "[1]"], simp, simp only: not_True_eq_False if_False,
        rule reaches_step, rule read_granted [where k = "[1]"], simp,
        rule reaches_step, rule read_simple [where k = "[1]"], simp, simp add: reaches_def)
  from reachesE [OF this w1] obtain hr' w2 where
    v: "verify_cross_cvm_key script_ops id_ctx w1 = (Inr hr', w2)" "hr_exit_code hr' = 0" .
  from cross_guest_keys_equal [OF channel_of_script s v] s v show ?thesis by (auto simp: id_ctx_simps)
qed

text \<open>
  The key at the launch TCB, three refusals for each component, and two keys of the sweep: the
  zeros of the other components were already tried.
\<close>

definition tcb_script :: "bytes list" where
  "tcb_script = grants [0]
     @ concat (map (\<lambda>(_, m). concat (map (\<lambda>_. refuses) (above_values m))) (components_of key_tcb))
     @ grants [1] @ grants [2] @ []"

lemma ibind_ilift: "ibind (ilift (Inr y)) f = f y"
  by (rule ext) simp

lemma probe_refused:
  assumes "level_file \<in> set files" and "above_values m \<noteq> []"
    and "\<forall>v \<in> set (above_values m). \<exists>u. tcb_to_u64 (make_tcb layout [(cpt, v)]) layout = Inr u"
  shows "reaches (guest_state (concat (map (\<lambda>_. refuses) (above_values m)) @ rest) files)
    (probe_component script_ops id_ctx layout (cpt, m)) (\<lambda>r s. snd r \<and> guest_state rest files s)"
proof -
  have "reaches (guest_state (concat (map (\<lambda>_. refuses) vs) @ rest) files)
      (imap (probe_tcb script_ops id_ctx layout cpt) vs)
      (\<lambda>rs s. rs = map (\<lambda>_. Some ''denied'') vs \<and> guest_state rest files s)"
    if "\<forall>v \<in> set vs. \<exists>u. tcb_to_u64 (make_tcb layout [(cpt, v)]) layout = Inr u" for vs
    using that
  proof (induction vs)
    case Nil
    show ?case by (simp add: reaches_def)
  next
    case (Cons v vs)
    then obtain u where u: "tcb_to_u64 (make_tcb layout [(cpt, v)]) layout = Inr u" by auto
    have level: "level_known (tcb_request u) files" using assms(1) by (simp add: level_known_def)
    have one: "reaches (guest_state (refuses @ concat (map (\<lambda>_. refuses) vs) @ rest) files)
        (probe_tcb script_ops id_ctx layout cpt v)
        (\<lambda>r s. r = Some ''denied'' \<and> guest_state (concat (map (\<lambda>_. refuses) vs) @ rest) files s)"
      unfolding probe_tcb_def u ibind_ilift by (rule derive_refused [OF level])
    have "reaches (guest_state (refuses @ concat (map (\<lambda>_. refuses) vs) @ rest) files)
        (imap (probe_tcb script_ops id_ctx layout cpt) (v # vs))
        (\<lambda>rs s. rs = Some ''denied'' # map (\<lambda>_. Some ''denied'') vs \<and> guest_state rest files s)"
      by (rule reaches_imap(2), rule one) (use Cons in simp)
    then show ?case by simp
  qed
  from this [OF assms(3)] show ?thesis
    unfolding probe_component_def prod.case if_not_P [OF assms(2)]
    by (rule reaches_step) (auto simp: reaches_def list_ex_iff)
qed

lemma probes_refused:
  assumes "level_file \<in> set files" and "\<forall>(cpt, m) \<in> set cs. above_values m \<noteq> [] \<and>
      (\<forall>v \<in> set (above_values m). \<exists>u. tcb_to_u64 (make_tcb layout [(cpt, v)]) layout = Inr u)"
  shows "reaches (guest_state (concat (map (\<lambda>(_, m). concat (map (\<lambda>_. refuses) (above_values m))) cs) @ rest) files)
    (imap (probe_component script_ops id_ctx layout) cs) (\<lambda>rs s. list_all snd rs \<and> guest_state rest files s)"
  using assms(2)
proof (induction cs)
  case Nil
  show ?case by (simp add: reaches_def)
next
  case (Cons x cs)
  obtain cpt m where x: "x = (cpt, m)" by (cases x)
  let ?rest = "concat (map (\<lambda>(_, m). concat (map (\<lambda>_. refuses) (above_values m))) cs) @ rest"
  have head: "reaches (guest_state (concat (map (\<lambda>_. refuses) (above_values m)) @ ?rest) files)
      (probe_component script_ops id_ctx layout (cpt, m)) (\<lambda>r s. snd r \<and> guest_state ?rest files s)"
    by (rule probe_refused) (use assms(1) Cons.prems x in auto)
  have tail: "reaches (guest_state ?rest files) (imap (probe_component script_ops id_ctx layout) cs)
      (\<lambda>rs s. list_all snd rs \<and> guest_state rest files s)"
    using Cons by simp
  have all: "reaches (\<lambda>s. snd r \<and> guest_state ?rest files s)
      (ibind (imap (probe_component script_ops id_ctx layout) cs) (\<lambda>rs. iret (r # rs)))
      (\<lambda>rs s. list_all snd rs \<and> guest_state rest files s)" for r
    by (rule reaches_ibind [where Q = "\<lambda>rs s. snd r \<and> list_all snd rs \<and> guest_state rest files s"])
      (use tail in \<open>auto simp: reaches_def\<close>)
  show ?case
    unfolding x imap.simps list.map concat.simps prod.case append_assoc by (rule reaches_ibind [OF head all])
qed

lemma key_tcb_values:
  "components_of key_tcb = [(Bootloader, 1), (Tee, 0), (Snp, 0), (Microcode, 0)]"
  "sweep_plan (components_of key_tcb) = [(Bootloader, 0), (Bootloader, 1), (Tee, 0), (Snp, 0), (Microcode, 0)]"
  "tcb_to_u64 (make_tcb Legacy (components_of key_tcb)) Legacy = Inr 1"
  "tcb_to_u64 (make_tcb Legacy [(Bootloader, 0)]) Legacy = Inr 0"
  "tcb_to_u64 (make_tcb Legacy [(Bootloader, 1)]) Legacy = Inr 1"
  "tcb_to_u64 (make_tcb Legacy [(Tee, 0)]) Legacy = Inr 0"
  "tcb_to_u64 (make_tcb Legacy [(Snp, 0)]) Legacy = Inr 0"
  "tcb_to_u64 (make_tcb Legacy [(Microcode, 0)]) Legacy = Inr 0"
  unfolding key_tcb_def by code_simp+

lemma key_tcb_encodes:
  "\<forall>(cpt, m) \<in> set (components_of key_tcb). above_values m \<noteq> [] \<and>
     (\<forall>v \<in> set (above_values m). \<exists>u. tcb_to_u64 (make_tcb Legacy [(cpt, v)]) Legacy = Inr u)"
proof -
  have "list_all (\<lambda>(cpt, m). above_values m \<noteq> [] \<and>
     list_all (\<lambda>v. case tcb_to_u64 (make_tcb Legacy [(cpt, v)]) Legacy of Inr u \<Rightarrow> True | Inl _ \<Rightarrow> False) (above_values m))
     (components_of key_tcb)"
    unfolding key_tcb_def by code_simp
  then show ?thesis by (fastforce simp: list_all_iff split: sum.splits)
qed

theorem tcb_bound_enforced_witness:
  "\<exists>hr w'. test_tcb script_ops id_ctx (key_world tcb_script) = (Inr hr, w') \<and> hr_exit_code hr = 0 \<and>
     (\<exists>p u. asked script_ops p (tcb_above_file Snp 1) (tcb_request u) False)"
proof -
  let ?bound = "''tcb_at_bound.bin''" and ?a = "''tcb_bootloader_0.bin''" and ?b = "''tcb_bootloader_1.bin''"
  let ?f0 = "[(?bound, [0]), level_file]"
  obtain rep where rep: "load_report demo_dir (key_world tcb_script) = (Inr rep, key_world tcb_script)"
    "rep_launch_tcb rep = Some key_tcb" by (rule key_report)
  have level: "level_known (tcb_request u) files" if "level_file \<in> set files" for u files
    using that by (simp add: level_known_def)
  have fresh: "fresh ?bound [level_file]" "fresh ?a ?f0" "fresh ?b ((?a, [1]) # ?f0)"
    unfolding fresh_def simple_name_def level_file_def vmpl_file_def by code_simp+
  have names: "''tcb_'' @ component_name Bootloader @ ''_'' @ str_int 0 @ ''.bin'' = ?a"
    "''tcb_'' @ component_name Bootloader @ ''_'' @ str_int 1 @ ''.bin'' = ?b" by code_simp+
  have eqs: "((1 :: int) = 0) = False" "((0 :: int) = 0) = True" "((0 :: int) = 1) = False"
    "(False \<or> False) = False" "(True \<or> False) = True" "(False \<or> True) = True" by simp_all
  have key: "reaches (guest_state rest files) (ibind (read_key id_ctx f) (\<lambda>k. iret (Inr k :: string + bytes)))
      (\<lambda>r s. r = Inr k \<and> guest_state rest files s)" if "(f, k) \<in> set files" for rest files f k
    by (rule reaches_step, rule read_granted [OF that]) (simp add: reaches_def)
  have swept: "reaches (guest_state (grants [1] @ grants [2] @ []) ?f0)
      (sweep_tcb script_ops id_ctx Legacy [] (sweep_plan (components_of key_tcb)))
      (\<lambda>rs s. rs = [((Bootloader, 0, 0), Inr [1]), ((Bootloader, 1, 1), Inr [2])])"
    unfolding key_tcb_values(2) sweep_tcb.simps key_tcb_values(4-) ibind_ilift List.member_iff list.set empty_iff
      insert_iff if_False if_True Let_def eqs names ibind_assoc
    by (rule reaches_step, rule derive_granted [OF level _ fresh(2)], simp, simp, unfold option.case,
        rule reaches_step, rule key [where k = "[1]"], simp,
        rule reaches_step, rule derive_granted [OF level _ fresh(3)], simp, simp, unfold option.case,
        rule reaches_step, rule key [where k = "[2]"], simp) (simp add: reaches_def)
  have above: "reaches (guest_state (concat (map (\<lambda>(_, m). concat (map (\<lambda>_. refuses) (above_values m))) (components_of key_tcb))
        @ grants [1] @ grants [2] @ []) ?f0)
      (tcb_above_bound script_ops id_ctx Legacy key_tcb) (\<lambda>hr s. hr_exit_code hr = 0)"
    unfolding tcb_above_bound_def Let_def
    by (rule reaches_ibind, rule probes_refused [OF _ key_tcb_encodes], simp)
      (use swept in \<open>auto simp: reaches_def ibind_def tcb_sweep_result_def Let_def sensitivity_code swept_keys_def\<close>)
  have "reaches (guest_state tcb_script [level_file]) (tcb_bound_test script_ops id_ctx Legacy key_tcb)
      (\<lambda>hr s. hr_exit_code hr = 0)"
    unfolding tcb_script_def tcb_bound_test_def key_tcb_values(3) ibind_ilift
    by (rule reaches_step, rule derive_granted [OF level _ fresh(1)], simp, simp) (simp only: option.case above)
  from key_run [OF this] obtain hr w' where
    t: "tcb_bound_test script_ops id_ctx Legacy key_tcb (key_world tcb_script) = (Inr hr, w')" "hr_exit_code hr = 0" by auto
  then have run: "test_tcb script_ops id_ctx (key_world tcb_script) = (Inr hr, w')"
    unfolding test_tcb_def id_ctx_simps or_fail_with_run(1) [where m = "load_report demo_dir", OF rep(1)] rep(2) option.case
    by (simp add: ibind_simps(1) [where m = this_host_generation, OF key_host])
  have "(Snp, 0) \<in> set (components_of key_tcb)" by (simp add: key_tcb_values)
  with tcb_bound_enforced [OF run t(2)] rep obtain p u where "asked script_ops p (tcb_above_file Snp 1) (tcb_request u) False"
    by (fastforce simp: id_ctx_simps)
  with run t(2) show ?thesis by blast
qed


end
