(* ===== verification/Certified_Guests.thy ===== *)
theory Certified_Guests
  imports Selection Attestation_Test Id_Block_Test Key_Guarantees
begin

text \<open>
  What a certificate means for the guests behind it: from the level \<^verbatim>\<open>cli.py\<close> reports, through the
  runs of its tests and the handlers of their modules, to what the guests granted, refused and
  reported.
\<close>

definition keys_shown :: "'e ops \<Rightarrow> path \<Rightarrow> bool" where
  "keys_shown ops d \<longleftrightarrow>
     (\<exists>(u :: 'e world) report p. load_report d u = (Inr report, u) \<and> svn_bound_shown ops p (rep_guest_svn report)) \<and>
     (\<exists>(u :: 'e world) report t name layout p. load_report d u = (Inr report, u) \<and> rep_launch_tcb report = Some t \<and>
        this_host_generation u = (Inr (name, layout), u) \<and> tcb_bound_shown ops p layout t)"

definition id_block_shown :: "'e id_tools \<Rightarrow> 'e ops \<Rightarrow> path \<Rightarrow> bool" where
  "id_block_shown tools ops d \<longleftrightarrow>
     (\<exists>c u hr. ctx_artifact_dir c = d \<and> verify_id_block_fields tools c u = (Inr hr, u) \<and> hr_exit_code hr = 0) \<and>
     refused ops ''Bad measurement'' \<and> refused ops ''Policy is not allowed''"

definition report_shown :: "'e ops \<Rightarrow> path \<Rightarrow> path \<Rightarrow> bool" where
  "report_shown ops guest d \<longleftrightarrow>
     (\<forall>s \<in> set (map projr attestation_plan). step_kind s = Host \<longrightarrow> host_command_succeeded ops guest d s) \<and>
     (\<exists>u u'. binding_verified ops d u u')"

lemma keys_test_passed:
  fixes ops :: "'a ops"
  assumes "execute_test ops mods cfg v test w = (Inr tr, w')" and "tr_result tr = Pass"
    and "import_test_module mods test = Inr (key_derivation_mod tools ops)"
  shows "keys_shown ops (test_artifact_dir (rc_artifacts_root cfg) v test)"
proof -
  let ?d = "test_artifact_dir (rc_artifacts_root cfg) v test"
  have checks: "(''test_svn'', test_svn ops) \<in> set (key_checks ops)" "(''test_tcb'', test_tcb ops) \<in> set (key_checks ops)"
    by (simp_all add: key_checks_def)
  from key_check_passed [OF assms checks(1)] test_svn_ok
  have "\<exists>(u :: 'a world) report p. load_report ?d u = (Inr report, u) \<and> svn_bound_shown ops p (rep_guest_svn report)" by metis
  moreover from key_check_passed [OF assms checks(2)] obtain c u hr u' where
    c: "ctx_artifact_dir c = ?d" "test_tcb ops c u = (Inr hr, u')" "hr_exit_code hr = 0" by blast
  ultimately show ?thesis using test_tcb_ok [OF c(2,3)] unfolding keys_shown_def c(1) by blast
qed

lemma id_block_test_passed:
  assumes "execute_test ops mods cfg v test w = (Inr tr, w')" and "tr_result tr = Pass"
    and "import_test_module mods test = Inr (id_block_mod tools ops)"
  shows "id_block_shown tools ops (test_artifact_dir (rc_artifacts_root cfg) v test)"
proof -
  obtain smt reason w1 where smt: "host_smt (loading_world ops test w) = (Inr (smt, reason), w1)"
    by (rule id_block_smt_read [OF assms])
  have "(''negative-bad-measurement-vm'', ''Bad measurement'') \<in> set (rejections smt)"
    "(''negative-abi-version-vm'', ''Policy is not allowed'') \<in> set (rejections smt)"
    by (simp_all add: rejections_def)
  then have "refused ops ''Bad measurement''" "refused ops ''Policy is not allowed''"
    using id_block_rejections [OF assms smt] by blast+
  with id_block_fields_verified [OF assms smt] show ?thesis by (simp add: id_block_shown_def)
qed

lemma attestation_test_passed:
  assumes "execute_test ops mods cfg v test w = (Inr tr, w')" and "tr_result tr = Pass"
    and "import_test_module mods test = Inr (attestation_mod ops)"
  shows "report_shown ops (rc_guest_path cfg) (test_artifact_dir (rc_artifacts_root cfg) v test)"
  using attestation_hosts_passed [OF assms] attestation_binding_verified [OF assms] unfolding report_shown_def by blast



end
