(* ===== verification/Spec2Isabelle.thy ===== *)
theory Spec2Isabelle
  imports Guest_States Config_Commit Main_Run Vsock_Agent Snp_Ok Processor_Model Profile_Mapping
    Certified_Guests
begin

text \<open>
  A verification library for sev-certify, the SEV-SNP certification harness: the Python package
  \<^verbatim>\<open>src/sev_verify\<close>, which runs on the host under test, the agent it talks to inside the guest, and
  a script of the beacon image. This theory imports the whole library.

  The program. \<^verbatim>\<open>cli.py\<close> reads manifests of tests, runs the prerequisites and then the tests of
  every certification, and writes a report per certification. A test module gives a list of
  steps and the profile of a guest. \<^verbatim>\<open>execute_test\<close> runs the steps in order through \<^verbatim>\<open>runner.py\<close>:
  commands on the host, commands on the guest, callables of the module, transfers of files, and
  the start and stop of the guest (\<^verbatim>\<open>vm_profile.py\<close>). The guest is reached over a vsock channel,
  whose ends are \<^verbatim>\<open>guest_vsock.py\<close> and the agent \<^verbatim>\<open>vsock_exec.py\<close>. Callables share a context with
  the loop; its profile is what a later launch uses (\<^verbatim>\<open>cvm_props.py\<close> puts an ID block there).

  Parts and theories, in the order they build on each other.

    \<^item> \<open>Prelude\<close>: exceptions as values, sums for calls that may raise, hint collections.
    \<^item> \<open>PyStr\<close>, \<open>PyBytes\<close>, \<open>Json\<close>, \<open>Json_Text\<close>, \<open>Shell\<close>, \<open>Grouping\<close>: what the program uses of the
      language and its standard library; \<open>Json_Text\<close> is the grammar of JSON as an inductive
      relation, with the two halves of the round trip; \<open>Shell\<close> an independent reading of a command
      line by a POSIX shell; \<open>Grouping\<close> a locale for dictionaries of lists.
    \<^item> \<open>Effects\<close>, \<open>World\<close>: computations over a state that may raise (an exception keeps the effects
      before it), with rules for invariants (\<open>keeps\<close>), exceptions that cannot occur (\<open>never\<close>) and
      computations that always return (\<open>settles\<close>); and the machine: files, clock, output, and the
      operations outside the repository as the parameter \<open>'e ops\<close>.
    \<^item> \<open>Models\<close> (\<^verbatim>\<open>models.py\<close>), \<open>Attestation_Report\<close> (\<^verbatim>\<open>attestation_report.py\<close>), \<open>Processor_Model\<close>
      (\<^verbatim>\<open>get_processor_model.py\<close>).
    \<^item> \<open>Vm_Profile\<close>, \<open>Profile_Mapping\<close>, \<open>Vm_Launch\<close> (\<^verbatim>\<open>vm_profile.py\<close>), \<open>Guest_Vsock\<close> (\<^verbatim>\<open>guest_vsock.py\<close>), \<open>Vsock_Agent\<close>
      (\<^verbatim>\<open>vsock_exec.py\<close>), \<open>Os_Info\<close> (\<^verbatim>\<open>os_info.py\<close>), \<open>Step_Log\<close> (\<^verbatim>\<open>step_log.py\<close>), \<open>Runner\<close> (\<^verbatim>\<open>runner.py\<close>).
    \<^item> \<open>Execute\<close>, \<open>Certify\<close>, \<open>Selection\<close>, \<open>Main_Run\<close> (\<^verbatim>\<open>cli.py\<close>), \<open>Environment\<close> (\<^verbatim>\<open>environment.py\<close>),
      \<open>Output\<close> (\<^verbatim>\<open>output.py\<close>).
    \<^item> \<open>Test_Kit\<close>, \<open>Test_Runs\<close> (what test modules share, and what a passed test shows of its steps),
      \<open>Config_Commit\<close> (\<^verbatim>\<open>snphost_config_commit.py\<close>), \<open>Snp_Ok\<close> (\<^verbatim>\<open>snp_ok.py\<close>), \<open>Cvm_Props\<close>
      (\<^verbatim>\<open>cvm_props.py\<close>), \<open>Guest_Report\<close> (the report on file), \<open>Attestation_Test\<close>
      (\<^verbatim>\<open>attestation_test.py\<close>), \<open>Id_Block_Test\<close> (\<^verbatim>\<open>id_block_test.py\<close>), \<open>Key_Derivation\<close>
      (\<^verbatim>\<open>key_derivation_test.py\<close>) with \<open>Key_Guarantees\<close>, what its checks guarantee, and
      \<open>Scripted_Guest\<close>, a guest that plays a script, for their concrete instances.
    \<^item> \<open>Lifecycle\<close>, \<open>Guest_States\<close>: what holds of a whole test: no guest outlives it, and its guest
      follows an abstract transition system. \<open>Certified_Guests\<close>: what a certified level says of the
      guests, from the certification down to their answers.

  What the lemmas show.

    \<^item> A run: which manifests and tests are selected, that a certified level covers the whole
      manifest, which steps are run and skipped and what the verdict is, that results fold to the
      worst, what the exit status means.
    \<^item> The reports: every test is listed once, the levels agree with the certification, the
      file reads back as the report.
    \<^item> The guest: when it is started and stopped, who owns its process, how the wait for it ends.
    \<^item> The channel: the command and its outcome pass unchanged through JSON, UTF-8 and any cut of
      the stream; files survive base64 and the shell's quoting; the agent keeps serving.
    \<^item> The attestation report: every field is read from its place, TCB versions survive their two
      layouts, a layout is never guessed; the tools' TCB listings parse back.
    \<^item> The test modules: the plan that lowers, checks, resets and commits the TCB commits only
      behind its gate; the ID block reaches QEMU and leaves no key behind; a launch that must be
      refused passes only for its reason; what a passed attestation, ID block or key derivation
      test has shown, down to the requests the guest granted and refused.
    \<^item> Errors: which exceptions are contained, and the places where one escapes.

  Bounds and termination. Every definition is total. The receive loop is bounded by the size limit
  of a response, the wait for the guest by its deadline (each round sleeps), both by \<open>function\<close> with
  a measure. The JSON scanner has fuel: twice the length of the text plus two, which
  \<open>loads_text\<close> shows to be enough for every text of the grammar. The loop of the agent has no end;
  \<open>serve n\<close> is its first \<open>n\<close> rounds, for any \<open>n\<close>. Python's integers are \<^typ>\<open>int\<close>, bytes are
  \<^typ>\<open>8 word\<close>, CPUID registers 32-bit words.

  Not modelled. \<^verbatim>\<open>argparse\<close> (the namespace it returns is the input); images, units and
  shell scripts under \<^verbatim>\<open>modules\<close>. Permissions, a full disk, signals, and limits of the interpreter
  (recursion, digits of an integer). External tools, QEMU, sockets, TOML and the packages
  \<^verbatim>\<open>cryptography\<close> and \<^verbatim>\<open>cpuid\<close> are parameters; where a property needs something of them, it is a
  hypothesis that names it.
\<close>

end
